(* ===== verification/Prelude.thy ===== *)
theory Prelude
  imports
    Complex_Main
    "HOL-Library.AList"
    "HOL-Library.List_Lexorder"
    "HOL-Library.Char_ord"
    "HOL-Library.Sublist"
    "HOL-Library.Multiset"
begin

text \<open>
  What every component shares: Python's exceptions as values, statements that may raise as
  state transformers, dictionaries as association lists in insertion order, and the string
  operations the sources call. A statement that raises keeps the effects it already had, so
  the state is returned beside the exception and never rolled back.
\<close>

named_theorems py_run \<open>unfolding of statement combinators on a concrete run\<close>
named_theorems dict_simps \<open>lookups after an update or a deletion\<close>

section \<open>Exceptions and statements\<close>

text \<open>
  Two of them are no exceptions of Python. \<open>Diverged\<close> is the value of a loop whose fuel ran out, and
  what is proved of a loop that waits says when it is not returned. \<open>Beyond_Text\<close> marks a text with
  characters above U+00FF, which the strings of the model do not hold.
\<close>

datatype exn =
    KeyError string
  | ValueError string
  | RuntimeError string
  | PermissionError string
  | FileNotFoundError string
  | TypeError
  | AttributeError
  | HTTPError int
  | ConnectionError
  | OverflowError
  | SyntaxError
  | JSONDecodeError
  | ZeroDivisionError
  | IndexError
  | SystemExit int
  | Diverged
  | Beyond_Text

type_synonym ('s, 'a) stmt = "'s \<Rightarrow> (exn + 'a) \<times> 's"

definition ret :: "'a \<Rightarrow> ('s, 'a) stmt" where
  "ret x s = (Inr x, s)"

definition raise :: "exn \<Rightarrow> ('s, 'a) stmt" where
  "raise e s = (Inl e, s)"

definition andthen :: "('s, 'a) stmt \<Rightarrow> ('a \<Rightarrow> ('s, 'b) stmt) \<Rightarrow> ('s, 'b) stmt" where
  "andthen m f s = (case m s of (Inl e, s') \<Rightarrow> (Inl e, s') | (Inr x, s') \<Rightarrow> f x s')"

definition of_result :: "exn + 'a \<Rightarrow> ('s, 'a) stmt" where
  "of_result r s = (r, s)"

fun for_each :: "('a \<Rightarrow> ('s, unit) stmt) \<Rightarrow> 'a list \<Rightarrow> ('s, unit) stmt" where
  "for_each f [] = ret ()"
| "for_each f (x # xs) = andthen (f x) (\<lambda>_. for_each f xs)"

text \<open>A comprehension \<open>[f(x) for x in xs]\<close> whose elements may raise.\<close>

fun map_stmt :: "('a \<Rightarrow> ('s, 'b) stmt) \<Rightarrow> 'a list \<Rightarrow> ('s, 'b list) stmt" where
  "map_stmt f [] = ret []"
| "map_stmt f (x # xs) = andthen (f x) (\<lambda>y. andthen (map_stmt f xs) (\<lambda>ys. ret (y # ys)))"

lemma ret_run [simp, py_run]: "ret x s = (Inr x, s)"
  by (simp add: ret_def)

lemma raise_run [simp, py_run]: "raise e s = (Inl e, s)"
  by (simp add: raise_def)

lemma of_result_run [simp, py_run]: "of_result r s = (r, s)"
  by (simp add: of_result_def)

lemma andthen_Inr [simp, py_run]: "m s = (Inr x, s') \<Longrightarrow> andthen m f s = f x s'"
  by (simp add: andthen_def)

lemma andthen_Inl [simp, py_run]: "m s = (Inl e, s') \<Longrightarrow> andthen m f s = (Inl e, s')"
  by (simp add: andthen_def)

lemma andthen_ret [simp]: "andthen (ret x) f = f x"
  by (simp add: fun_eq_iff)

lemma andthen_InrE:
  assumes "andthen m f s = (Inr y, t)"
  obtains x s' where "m s = (Inr x, s')" and "f x s' = (Inr y, t)"
  using assms by (auto simp: andthen_def split: prod.splits sum.splits)

lemma andthen_split:
  "P (andthen m f s) \<longleftrightarrow>
     (\<forall>e s'. m s = (Inl e, s') \<longrightarrow> P (Inl e, s')) \<and>
     (\<forall>x s'. m s = (Inr x, s') \<longrightarrow> P (f x s'))"
  by (auto simp: andthen_def split: prod.splits sum.splits)

lemma andthen_assoc: "andthen (andthen m f) g = andthen m (\<lambda>x. andthen (f x) g)"
  by (auto simp: andthen_def fun_eq_iff split: prod.split sum.split)

text \<open>A relation between the states before and after that every part of a statement keeps.\<close>

lemma andthen_keeps:
  assumes "\<And>s. R s (snd (m s))" and "\<And>x s. R s (snd (f x s))"
    and "\<And>s t u. R s t \<Longrightarrow> R t u \<Longrightarrow> R s u"
  shows "R s (snd (andthen m f s))"
proof (cases "m s")
  case (Pair r s')
  with assms(1) [of s] have "R s s'" by simp
  then show ?thesis
    using Pair assms(2,3) by (cases r) (auto simp: andthen_def)
qed

lemma for_each_keeps:
  assumes "\<And>x s. R s (snd (f x s))" and "\<And>s. R s s"
    and "\<And>s t u. R s t \<Longrightarrow> R t u \<Longrightarrow> R s u"
  shows "R s (snd (for_each f xs s))"
proof (induction xs arbitrary: s)
  case Nil
  then show ?case by (simp add: assms(2))
next
  case (Cons x xs)
  show ?case
    unfolding for_each.simps
    by (rule andthen_keeps [where R = R]) (use assms Cons in auto)
qed

section \<open>Dictionaries\<close>

text \<open>
  A dictionary is an association list in insertion order. \<open>AList.update\<close> overwrites in place
  and appends a new key, which is what a Python assignment \<open>d[k] = v\<close> does;
  \<open>AList.delete\<close> is \<open>del d[k]\<close>; \<open>map_of\<close> is \<open>d.get\<close>.
\<close>

type_synonym 'v dict = "(string \<times> 'v) list"

abbreviation dset :: "'k \<Rightarrow> 'v \<Rightarrow> ('k \<times> 'v) list \<Rightarrow> ('k \<times> 'v) list" where
  "dset \<equiv> AList.update"

definition keys :: "('k \<times> 'v) list \<Rightarrow> 'k list" where
  "keys d = map fst d"

definition wf_dict :: "('k \<times> 'v) list \<Rightarrow> bool" where
  "wf_dict d \<longleftrightarrow> distinct (keys d)"

text \<open>\<open>d.update(e)\<close>: the entries of \<open>e\<close> assigned one after the other.\<close>

definition dict_update :: "('k \<times> 'v) list \<Rightarrow> ('k \<times> 'v) list \<Rightarrow> ('k \<times> 'v) list" where
  "dict_update d e = foldl (\<lambda>a (k, v). dset k v a) d e"

lemma keys_Nil [simp]: "keys [] = []"
  by (simp add: keys_def)

lemma keys_Cons [simp]: "keys (p # d) = fst p # keys d"
  by (simp add: keys_def)

lemma keys_append [simp]: "keys (d @ e) = keys d @ keys e"
  by (simp add: keys_def)

lemma set_keys: "set (keys d) = dom (map_of d)"
  by (simp add: keys_def dom_map_of_conv_image_fst)

lemma map_of_dset [simp, dict_simps]: "map_of (dset k v d) = (map_of d)(k \<mapsto> v)"
  by (simp add: update_conv')

lemma map_of_delete [simp, dict_simps]: "map_of (AList.delete k d) = (map_of d)(k := None)"
  by (simp add: delete_conv')

lemma keys_dset: "keys (dset k v d) = (if k \<in> set (keys d) then keys d else keys d @ [k])"
  by (simp add: keys_def update_keys)

lemma wf_dict_dset [simp, intro]: "wf_dict d \<Longrightarrow> wf_dict (dset k v d)"
  by (simp add: wf_dict_def keys_def distinct_update)

lemma wf_dict_Nil [simp]: "wf_dict []"
  by (simp add: wf_dict_def)

lemma wf_dict_delete [simp, intro]: "wf_dict d \<Longrightarrow> wf_dict (AList.delete k d)"
  by (simp add: wf_dict_def keys_def distinct_delete)

lemma dset_new: "k \<notin> set (keys d) \<Longrightarrow> dset k v d = d @ [(k, v)]"
  by (induction d) auto

lemma dset_same: "map_of d k = Some v \<Longrightarrow> dset k v d = d"
  by (induction d) (auto split: if_splits)

lemma dset_dset: "dset k v (dset k w d) = dset k v d"
  by (induction d) auto

lemma map_of_keys_None: "map_of d k = None \<longleftrightarrow> k \<notin> set (keys d)"
  by (simp add: keys_def map_of_eq_None_iff)

lemma in_keysI: "(k, v) \<in> set d \<Longrightarrow> k \<in> set (keys d)"
  by (force simp: keys_def)

lemma map_of_wf: "wf_dict d \<Longrightarrow> (k, v) \<in> set d \<Longrightarrow> map_of d k = Some v"
  by (simp add: wf_dict_def keys_def)

lemma keys_filter: "set (keys (filter P d)) \<subseteq> set (keys d)"
  by (auto simp: keys_def)

lemma wf_dict_filter [simp, intro]: "wf_dict d \<Longrightarrow> wf_dict (filter P d)"
  by (simp add: wf_dict_def keys_def distinct_map_filter)

lemma wf_dict_Cons [simp]: "wf_dict ((k, v) # d) \<longleftrightarrow> k \<notin> set (keys d) \<and> wf_dict d"
  by (simp add: wf_dict_def)

lemma keys_filter_disjoint:
  "wf_dict d \<Longrightarrow> set (keys (filter P d)) \<inter> set (keys (filter (\<lambda>c. \<not> P c) d)) = {}"
proof (induction d)
  case (Cons c d)
  then show ?case
    using keys_filter [of P d] keys_filter [of "\<lambda>c. \<not> P c" d] by (cases c) auto
qed simp

lemma map_of_filter_wf:
  "wf_dict d \<Longrightarrow>
   map_of (filter P d) k = (case map_of d k of None \<Rightarrow> None | Some v \<Rightarrow> if P (k, v) then Some v else None)"
proof (induction d)
  case (Cons p d)
  then show ?case
    using subsetD [OF keys_filter [of P d]] by (cases p) (auto simp: map_of_keys_None split: option.splits)
qed simp

end
