(* ===== verification/Py_Text.thy ===== *)
theory Py_Text
  imports Prelude
begin

text \<open>
  The operations of Python's \<open>str\<close> the sources call. A string is a list of characters;
  the model is exact on ASCII text, which is what manifests, knob names, flags and metric
  names are made of. Ordering is by code point (\<open>List_Lexorder\<close>), as \<open>sorted\<close> orders strings.
\<close>

section \<open>Case, whitespace, splitting\<close>

definition lower_char :: "char \<Rightarrow> char" where
  "lower_char c = (if CHR ''A'' \<le> c \<and> c \<le> CHR ''Z'' then char_of (of_char c + 32 :: nat) else c)"

definition upper_char :: "char \<Rightarrow> char" where
  "upper_char c = (if CHR ''a'' \<le> c \<and> c \<le> CHR ''z'' then char_of (of_char c - 32 :: nat) else c)"

definition lower :: "string \<Rightarrow> string" where
  "lower s = map lower_char s"

definition upper :: "string \<Rightarrow> string" where
  "upper s = map upper_char s"

definition is_space :: "char \<Rightarrow> bool" where
  "is_space c \<longleftrightarrow> c \<in> {CHR '' '', CHR 0x09, CHR 0x0A, CHR 0x0B, CHR 0x0C, CHR 0x0D,
     CHR 0x1C, CHR 0x1D, CHR 0x1E, CHR 0x1F}"

definition lstrip :: "string \<Rightarrow> string" where
  "lstrip s = dropWhile is_space s"

definition rstrip :: "string \<Rightarrow> string" where
  "rstrip s = rev (dropWhile is_space (rev s))"

definition strip :: "string \<Rightarrow> string" where
  "strip s = lstrip (rstrip s)"

text \<open>\<open>s.strip(c)\<close> for a one-character argument, and \<open>s.rstrip(c)\<close>.\<close>

definition strip_char :: "char \<Rightarrow> string \<Rightarrow> string" where
  "strip_char c s = dropWhile ((=) c) (rev (dropWhile ((=) c) (rev s)))"

definition rstrip_char :: "char \<Rightarrow> string \<Rightarrow> string" where
  "rstrip_char c s = rev (dropWhile ((=) c) (rev s))"

text \<open>\<open>s.partition(c)\<close>: the text before the first \<open>c\<close>, whether there is one, the text after.\<close>

definition partition :: "char \<Rightarrow> string \<Rightarrow> string \<times> bool \<times> string" where
  "partition c s = (let a = takeWhile (\<lambda>x. x \<noteq> c) s; r = drop (length a) s
                    in (a, r \<noteq> [], tl r))"

fun split_on :: "char \<Rightarrow> string \<Rightarrow> string list" where
  "split_on c [] = [[]]"
| "split_on c (x # xs) =
     (if x = c then [] # split_on c xs
      else case split_on c xs of [] \<Rightarrow> [[x]] | w # ws \<Rightarrow> (x # w) # ws)"

definition is_linesep :: "char \<Rightarrow> bool" where
  "is_linesep c \<longleftrightarrow> c \<in> {CHR 0x0A, CHR 0x0B, CHR 0x0C, CHR 0x0D, CHR 0x1C, CHR 0x1D, CHR 0x1E}"

function splitlines :: "string \<Rightarrow> string list" where
  "splitlines [] = []"
| "splitlines (c # cs) =
     (if is_linesep c
      then [] # splitlines (if c = CHR 0x0D \<and> cs \<noteq> [] \<and> hd cs = CHR 0x0A then tl cs else cs)
      else case splitlines cs of [] \<Rightarrow> [[c]] | l # ls \<Rightarrow> (c # l) # ls)"
  by pat_completeness auto
termination
  by (relation "measure length") auto

definition contains :: "string \<Rightarrow> string \<Rightarrow> bool" where
  "contains w s \<longleftrightarrow> sublist w s"

definition starts_with :: "string \<Rightarrow> string \<Rightarrow> bool" where
  "starts_with w s \<longleftrightarrow> prefix w s"

definition ends_with :: "string \<Rightarrow> string \<Rightarrow> bool" where
  "ends_with w s \<longleftrightarrow> suffix w s"

fun join :: "string \<Rightarrow> string list \<Rightarrow> string" where
  "join sep [] = []"
| "join sep [w] = w"
| "join sep (w # ws) = w @ sep @ join sep ws"

section \<open>Numbers and quoted strings as text\<close>

definition digit_char :: "nat \<Rightarrow> char" where
  "digit_char d = char_of (48 + d)"

fun show_nat :: "nat \<Rightarrow> string" where
  "show_nat n = (if n < 10 then [digit_char n] else show_nat (n div 10) @ [digit_char (n mod 10)])"

declare show_nat.simps [simp del]

definition show_int :: "int \<Rightarrow> string" where
  "show_int i = (if i < 0 then ''-'' @ show_nat (nat (- i)) else show_nat (nat i))"

text \<open>\<open>repr\<close> of a string: single quotes unless the text has one and no double quote.\<close>

definition repr_quote :: "string \<Rightarrow> char" where
  "repr_quote s = (if CHR 0x27 \<in> set s \<and> CHR 0x22 \<notin> set s then CHR 0x22 else CHR 0x27)"

definition hex_char :: "nat \<Rightarrow> char" where
  "hex_char d = (if d < 10 then char_of (48 + d) else char_of (87 + d))"

definition repr_char :: "char \<Rightarrow> char \<Rightarrow> string" where
  "repr_char q c =
     (if c = q \<or> c = CHR 0x5C then [CHR 0x5C, c]
      else if c = CHR 0x0A then [CHR 0x5C, CHR ''n'']
      else if c = CHR 0x0D then [CHR 0x5C, CHR ''r'']
      else if c = CHR 0x09 then [CHR 0x5C, CHR ''t'']
      else if c < CHR '' '' \<or> c = CHR 0x7F
        then [CHR 0x5C, CHR ''x'', hex_char (of_char c div 16), hex_char (of_char c mod 16)]
      else [c])"

definition repr_str :: "string \<Rightarrow> string" where
  "repr_str s = (let q = repr_quote s in [q] @ concat (map (repr_char q) s) @ [q])"

definition repr_str_list :: "string list \<Rightarrow> string" where
  "repr_str_list ws = ''['' @ join '', '' (map repr_str ws) @ '']''"

definition repr_str_tuple :: "string list \<Rightarrow> string" where
  "repr_str_tuple ws = (case ws of [w] \<Rightarrow> ''('' @ repr_str w @ '',)''
                        | _ \<Rightarrow> ''('' @ join '', '' (map repr_str ws) @ '')'')"

definition repr_str_dict :: "string dict \<Rightarrow> string" where
  "repr_str_dict d = ''{'' @ join '', '' (map (\<lambda>(k, v). repr_str k @ '': '' @ repr_str v) d) @ ''}''"

section \<open>Text as numbers\<close>

definition is_digit :: "char \<Rightarrow> bool" where
  "is_digit c \<longleftrightarrow> CHR ''0'' \<le> c \<and> c \<le> CHR ''9''"

definition digit_val :: "char \<Rightarrow> nat" where
  "digit_val c = of_char c - 48"

definition digits_val :: "string \<Rightarrow> nat" where
  "digits_val s = foldl (\<lambda>a c. 10 * a + digit_val c) 0 s"

text \<open>\<open>int(s)\<close>: surrounding blanks, a sign, digits with single underscores between them.\<close>

fun int_digits :: "string \<Rightarrow> nat \<Rightarrow> bool \<Rightarrow> nat option" where
  "int_digits [] acc after_digit = (if after_digit then Some acc else None)"
| "int_digits (c # cs) acc after_digit =
     (if is_digit c then int_digits cs (10 * acc + digit_val c) True
      else if c = CHR ''_'' \<and> after_digit then int_digits cs acc False
      else None)"

definition parse_int :: "string \<Rightarrow> int option" where
  "parse_int s =
     (case strip s of
        [] \<Rightarrow> None
      | c # cs \<Rightarrow>
          if c = CHR ''-'' then map_option (\<lambda>n. - int n) (int_digits cs 0 False)
          else if c = CHR ''+'' then map_option int (int_digits cs 0 False)
          else map_option int (int_digits (c # cs) 0 False))"

section \<open>Facts\<close>

lemma partition_key: "fst (partition c s) = takeWhile (\<lambda>x. x \<noteq> c) s"
  by (simp add: partition_def Let_def)

lemma partition_clean: "c \<notin> set a \<Longrightarrow> partition c (a @ c # b) = (a, True, b)"
proof -
  assume "c \<notin> set a"
  then have "takeWhile (\<lambda>x. x \<noteq> c) (a @ c # b) = a"
    by (subst takeWhile_append2) auto
  then show ?thesis by (simp add: partition_def Let_def)
qed

lemma partition_absent: "c \<notin> set a \<Longrightarrow> partition c a = (a, False, [])"
proof -
  assume "c \<notin> set a"
  then have "takeWhile (\<lambda>x. x \<noteq> c) a = a"
    by (induction a) auto
  then show ?thesis unfolding partition_def by (simp only: Let_def) simp
qed

lemma dropWhile_id: "(s = [] \<or> \<not> P (hd s)) \<Longrightarrow> dropWhile P s = s"
  by (cases s) auto

lemma split_on_nonempty: "split_on c s \<noteq> []"
  by (induction s) (auto split: list.splits)

lemma split_on_clean: "c \<notin> set a \<Longrightarrow> split_on c (a @ c # b) = a # split_on c b"
  by (induction a) auto

lemma split_on_single: "c \<notin> set a \<Longrightarrow> split_on c a = [a]"
  by (induction a) auto

lemma split_on_join:
  "ws \<noteq> [] \<Longrightarrow> \<forall>w \<in> set ws. c \<notin> set w \<Longrightarrow> split_on c (join [c] ws) = ws"
proof (induction ws)
  case (Cons w vs)
  then show ?case by (cases vs) (auto simp: split_on_clean split_on_single)
qed simp

lemma splitlines_no_sep: "\<forall>c \<in> set l. \<not> is_linesep c \<Longrightarrow> l \<noteq> [] \<Longrightarrow> splitlines l = [l]"
proof (induction l)
  case (Cons c cs)
  then show ?case by (cases cs) auto
qed simp

lemma splitlines_line:
  "\<forall>c \<in> set l. \<not> is_linesep c \<Longrightarrow> splitlines (l @ CHR 0x0A # r) = l # splitlines r"
proof (induction l)
  case Nil
  then show ?case by (simp add: is_linesep_def)
next
  case (Cons c cs)
  then show ?case by simp
qed

lemma contains_append_left: "contains w s \<Longrightarrow> contains w (s @ t)"
  by (simp add: contains_def sublist_append)

lemma contains_append_right: "contains w t \<Longrightarrow> contains w (s @ t)"
  by (simp add: contains_def sublist_append)

lemma contains_needs_char: "contains w s \<Longrightarrow> set w \<subseteq> set s"
  by (auto simp: contains_def dest: set_mono_sublist)

text \<open>Reading back a printed integer.\<close>

lemma digit_char_facts:
  assumes "d < 10"
  shows "is_digit (digit_char d) \<and> digit_val (digit_char d) = d"
proof -
  have "\<forall>d \<in> {0..<10 :: nat}. is_digit (digit_char d) \<and> digit_val (digit_char d) = d"
    by code_simp
  with assms show ?thesis by simp
qed

lemma show_nat_digits: "list_all is_digit (show_nat n) \<and> show_nat n \<noteq> []"
proof (induction n rule: show_nat.induct)
  case (1 n)
  then show ?case
    using digit_char_facts [of n] digit_char_facts [of "n mod 10"] by (subst (1 2) show_nat.simps) auto
qed

lemma digits_val_snoc: "digits_val (ds @ [c]) = 10 * digits_val ds + digit_val c"
  by (simp add: digits_val_def)

lemma digits_val_show_nat: "digits_val (show_nat n) = n"
proof (induction n rule: show_nat.induct)
  case (1 n)
  show ?case
  proof (cases "n < 10")
    case True
    then show ?thesis
      using digit_char_facts [of n] by (subst show_nat.simps) (simp add: digits_val_def)
  next
    case False
    then show ?thesis
      using 1 digit_char_facts [of "n mod 10"] by (subst show_nat.simps) (simp add: digits_val_snoc)
  qed
qed

lemma int_digits_digits:
  "list_all is_digit ds \<Longrightarrow> ds \<noteq> [] \<or> b \<Longrightarrow>
   int_digits ds acc b = Some (foldl (\<lambda>a c. 10 * a + digit_val c) acc ds)"
  by (induction ds arbitrary: acc b) auto

lemma int_digits_show_nat: "int_digits (show_nat n) 0 False = Some n"
  using show_nat_digits [of n] digits_val_show_nat [of n]
  by (simp add: int_digits_digits digits_val_def)

lemma digit_not_special:
  "is_digit c \<Longrightarrow> \<not> is_space c \<and> c \<noteq> CHR ''-'' \<and> c \<noteq> CHR ''+''"
  by (auto simp: is_digit_def is_space_def)

lemma strip_no_space: "s \<noteq> [] \<Longrightarrow> \<not> is_space (hd s) \<Longrightarrow> \<not> is_space (last s) \<Longrightarrow> strip s = s"
  by (simp add: strip_def lstrip_def rstrip_def dropWhile_id hd_rev)

lemma strip_show_int: "strip (show_int i) = show_int i"
proof -
  have d: "list_all is_digit (show_nat n)" "show_nat n \<noteq> []" for n using show_nat_digits by auto
  then have "\<not> is_space (hd (show_nat n))" "\<not> is_space (last (show_nat n))" for n
    by (metis digit_not_special hd_in_set list_all_iff, metis digit_not_special last_in_set list_all_iff)
  moreover have "\<not> is_space CHR ''-''" by (simp add: is_space_def)
  ultimately show ?thesis
    using d(2) by (intro strip_no_space) (simp_all add: show_int_def)
qed

lemma parse_show_int: "parse_int (show_int i) = Some i"
proof (cases "i < 0")
  case True
  then show ?thesis
    by (simp add: parse_int_def strip_show_int) (simp add: show_int_def int_digits_show_nat)
next
  case False
  obtain c cs where ds: "show_nat (nat i) = c # cs" "is_digit c"
    using show_nat_digits [of "nat i"] by (cases "show_nat (nat i)") auto
  then show ?thesis
    using False digit_not_special [of c] int_digits_show_nat [of "nat i"]
    by (simp add: parse_int_def strip_show_int) (simp add: show_int_def)
qed

lemma show_int_nonempty: "show_int i \<noteq> []"
  using show_nat_digits by (auto simp: show_int_def)

section \<open>Upper and lower case\<close>

lemma case_codes:
  "(of_char (lower_char c) :: nat) = (if 65 \<le> (of_char c :: nat) \<and> (of_char c :: nat) \<le> 90 then of_char c + 32 else of_char c)"
  "(of_char (upper_char c) :: nat) = (if 97 \<le> (of_char c :: nat) \<and> (of_char c :: nat) \<le> 122 then of_char c - 32 else of_char c)"
proof -
  have letters: "(of_char (CHR ''A'') :: nat) = 65" "(of_char (CHR ''Z'') :: nat) = 90"
    "(of_char (CHR ''a'') :: nat) = 97" "(of_char (CHR ''z'') :: nat) = 122"
    by simp_all
  show "(of_char (lower_char c) :: nat) = (if 65 \<le> (of_char c :: nat) \<and> (of_char c :: nat) \<le> 90 then of_char c + 32 else of_char c)"
    unfolding lower_char_def less_eq_char_def letters by simp
  show "(of_char (upper_char c) :: nat) = (if 97 \<le> (of_char c :: nat) \<and> (of_char c :: nat) \<le> 122 then of_char c - 32 else of_char c)"
    unfolding upper_char_def less_eq_char_def letters by (auto intro: mod_less)
qed

lemma char_codeI: "(of_char c :: nat) = of_char d \<Longrightarrow> c = d"
  by simp

lemma lower_upper_char: "lower_char (upper_char c) = lower_char c" "upper_char (lower_char c) = upper_char c"
  by (rule char_codeI, simp only: case_codes, (auto; linarith)?)+

lemma lower_upper: "lower (upper s) = lower s" "upper (lower s) = upper s"
  by (simp_all add: lower_def upper_def lower_upper_char)

end
