(* ===== verification/Py_Values.thy ===== *)
theory Py_Values
  imports Py_Text
begin

text \<open>
  The values that flow through the control plane: Python floats and JSON values.

  A float is a rational number, one of the two infinities, or NaN. Comparisons between floats
  and integers are exact in Python and are exact here. Arithmetic rounds: every operation
  takes the rounding of the machine as an argument \<open>rnd\<close>, so that a theorem about it holds
  for any rounding. The sign of zero is not kept, since the sources never read it.
  The text of a float is an argument too (\<open>fr\<close>, Python's \<open>repr\<close>).
\<close>

section \<open>Floats\<close>

datatype pyfloat = Fin rat | PInf | NInf | NaN

type_synonym rounding = "rat \<Rightarrow> pyfloat"
type_synonym float_text = "pyfloat \<Rightarrow> string"

fun f_lt :: "pyfloat \<Rightarrow> pyfloat \<Rightarrow> bool" where
  "f_lt (Fin a) (Fin b) = (a < b)"
| "f_lt NaN _ = False"
| "f_lt _ NaN = False"
| "f_lt NInf NInf = False"
| "f_lt NInf _ = True"
| "f_lt _ NInf = False"
| "f_lt PInf _ = False"
| "f_lt _ PInf = True"

fun f_eq :: "pyfloat \<Rightarrow> pyfloat \<Rightarrow> bool" where
  "f_eq (Fin a) (Fin b) = (a = b)"
| "f_eq PInf PInf = True"
| "f_eq NInf NInf = True"
| "f_eq _ _ = False"

definition f_le :: "pyfloat \<Rightarrow> pyfloat \<Rightarrow> bool" where
  "f_le a b \<longleftrightarrow> f_lt a b \<or> f_eq a b"

fun f_neg :: "pyfloat \<Rightarrow> pyfloat" where
  "f_neg (Fin a) = Fin (- a)"
| "f_neg PInf = NInf"
| "f_neg NInf = PInf"
| "f_neg NaN = NaN"

fun f_add :: "rounding \<Rightarrow> pyfloat \<Rightarrow> pyfloat \<Rightarrow> pyfloat" where
  "f_add rnd (Fin a) (Fin b) = rnd (a + b)"
| "f_add rnd NaN _ = NaN"
| "f_add rnd _ NaN = NaN"
| "f_add rnd PInf NInf = NaN"
| "f_add rnd NInf PInf = NaN"
| "f_add rnd PInf _ = PInf"
| "f_add rnd _ PInf = PInf"
| "f_add rnd NInf _ = NInf"
| "f_add rnd _ NInf = NInf"

definition f_sub :: "rounding \<Rightarrow> pyfloat \<Rightarrow> pyfloat \<Rightarrow> pyfloat" where
  "f_sub rnd a b = f_add rnd a (f_neg b)"

definition signed_inf :: "bool \<Rightarrow> pyfloat" where
  "signed_inf pos = (if pos then PInf else NInf)"

fun f_pos :: "pyfloat \<Rightarrow> bool" where
  "f_pos (Fin a) = (0 < a)"
| "f_pos PInf = True"
| "f_pos _ = False"

fun f_mul :: "rounding \<Rightarrow> pyfloat \<Rightarrow> pyfloat \<Rightarrow> pyfloat" where
  "f_mul rnd (Fin a) (Fin b) = rnd (a * b)"
| "f_mul rnd NaN _ = NaN"
| "f_mul rnd _ NaN = NaN"
| "f_mul rnd (Fin a) y = (if a = 0 then NaN else signed_inf ((0 < a) = f_pos y))"
| "f_mul rnd x (Fin b) = (if b = 0 then NaN else signed_inf (f_pos x = (0 < b)))"
| "f_mul rnd x y = signed_inf (f_pos x = f_pos y)"

text \<open>Division by zero raises; infinity over infinity is NaN.\<close>

fun f_div :: "rounding \<Rightarrow> pyfloat \<Rightarrow> pyfloat \<Rightarrow> exn + pyfloat" where
  "f_div rnd x (Fin b) =
     (if b = 0 then Inl ZeroDivisionError
      else Inr (case x of Fin a \<Rightarrow> rnd (a / b) | NaN \<Rightarrow> NaN | _ \<Rightarrow> signed_inf (f_pos x = (0 < b))))"
| "f_div rnd x NaN = Inr NaN"
| "f_div rnd x y = Inr (case x of Fin a \<Rightarrow> Fin 0 | _ \<Rightarrow> NaN)"

text \<open>Python's \<open>max(a, b)\<close> and \<open>min(a, b)\<close> keep the first argument unless the second wins.\<close>

definition f_max :: "pyfloat \<Rightarrow> pyfloat \<Rightarrow> pyfloat" where
  "f_max a b = (if f_lt a b then b else a)"

definition f_min :: "pyfloat \<Rightarrow> pyfloat \<Rightarrow> pyfloat" where
  "f_min a b = (if f_lt b a then b else a)"

definition trunc :: "rat \<Rightarrow> int" where
  "trunc q = (if 0 \<le> q then \<lfloor>q\<rfloor> else \<lceil>q\<rceil>)"

section \<open>JSON values\<close>

datatype json =
    JNull
  | JBool bool
  | JInt int
  | JFloat pyfloat
  | JStr string
  | JArr "json list"
  | JObj "(string \<times> json) list"

type_synonym fields = "json dict"

text \<open>\<open>isinstance(v, int)\<close> and \<open>isinstance(v, (int, float))\<close>; a bool is an int.\<close>

fun is_bool :: "json \<Rightarrow> bool" where
  "is_bool (JBool b) = True"
| "is_bool _ = False"

fun is_int :: "json \<Rightarrow> bool" where
  "is_int (JInt i) = True"
| "is_int (JBool b) = True"
| "is_int _ = False"

fun num_of :: "json \<Rightarrow> pyfloat option" where
  "num_of (JInt i) = Some (Fin (of_int i))"
| "num_of (JBool b) = Some (Fin (if b then 1 else 0))"
| "num_of (JFloat f) = Some f"
| "num_of _ = None"

definition is_num :: "json \<Rightarrow> bool" where
  "is_num v \<longleftrightarrow> num_of v \<noteq> None"

fun truthy :: "json \<Rightarrow> bool" where
  "truthy JNull = False"
| "truthy (JBool b) = b"
| "truthy (JInt i) = (i \<noteq> 0)"
| "truthy (JFloat f) = (\<not> f_eq f (Fin 0))"
| "truthy (JStr s) = (s \<noteq> [])"
| "truthy (JArr xs) = (xs \<noteq> [])"
| "truthy (JObj d) = (d \<noteq> [])"

definition json_get :: "string \<Rightarrow> json \<Rightarrow> json option" where
  "json_get k v = (case v of JObj d \<Rightarrow> map_of d k | _ \<Rightarrow> None)"

text \<open>Python's \<open>==\<close>: numbers compare across int, bool and float; dictionaries ignore order.\<close>

fun scalar_eq :: "json \<Rightarrow> json \<Rightarrow> bool" where
  "scalar_eq JNull w = (w = JNull)"
| "scalar_eq (JStr s) w = (w = JStr s)"
| "scalar_eq v w = (case (num_of v, num_of w) of (Some a, Some b) \<Rightarrow> f_eq a b | _ \<Rightarrow> False)"

fun py_eq :: "json \<Rightarrow> json \<Rightarrow> bool" where
  "py_eq (JArr xs) w = (case w of JArr ys \<Rightarrow> list_all2 py_eq xs ys | _ \<Rightarrow> False)"
| "py_eq (JObj d) w =
     (case w of
        JObj e \<Rightarrow> length d = length e \<and>
          list_all (\<lambda>(k, x). case map_of e k of None \<Rightarrow> False | Some y \<Rightarrow> py_eq x y) d
      | _ \<Rightarrow> False)"
| "py_eq v w = scalar_eq v w"

definition dict_eq :: "fields \<Rightarrow> fields \<Rightarrow> bool" where
  "dict_eq d e \<longleftrightarrow> py_eq (JObj d) (JObj e)"

text \<open>What \<open>json.loads(json.dumps(v, sort_keys=True))\<close> gives back.\<close>

fun json_sorted :: "json \<Rightarrow> json" where
  "json_sorted (JArr xs) = JArr (map json_sorted xs)"
| "json_sorted (JObj d) = JObj (sort_key fst (map (\<lambda>(k, v). (k, json_sorted v)) d))"
| "json_sorted v = v"

definition sorted_fields :: "fields \<Rightarrow> fields" where
  "sorted_fields d = sort_key fst (map (\<lambda>(k, v). (k, json_sorted v)) d)"

section \<open>Text of values, and conversions\<close>

fun repr_json :: "float_text \<Rightarrow> json \<Rightarrow> string" where
  "repr_json fr JNull = ''None''"
| "repr_json fr (JBool b) = (if b then ''True'' else ''False'')"
| "repr_json fr (JInt i) = show_int i"
| "repr_json fr (JFloat f) = fr f"
| "repr_json fr (JStr s) = repr_str s"
| "repr_json fr (JArr xs) = ''['' @ join '', '' (map (repr_json fr) xs) @ '']''"
| "repr_json fr (JObj d) =
     ''{'' @ join '', '' (map (\<lambda>(k, v). repr_str k @ '': '' @ repr_json fr v) d) @ ''}''"

definition str_json :: "float_text \<Rightarrow> json \<Rightarrow> string" where
  "str_json fr v = (case v of JStr s \<Rightarrow> s | _ \<Rightarrow> repr_json fr v)"

definition repr_dict :: "float_text \<Rightarrow> fields \<Rightarrow> string" where
  "repr_dict fr d = repr_json fr (JObj d)"

text \<open>\<open>int(v)\<close>.\<close>

fun int_of :: "json \<Rightarrow> exn + int" where
  "int_of (JInt i) = Inr i"
| "int_of (JBool b) = Inr (if b then 1 else 0)"
| "int_of (JFloat (Fin q)) = Inr (trunc q)"
| "int_of (JFloat NaN) = Inl (ValueError ''cannot convert float NaN to integer'')"
| "int_of (JFloat _) = Inl OverflowError"
| "int_of (JStr s) =
     (case parse_int s of Some i \<Rightarrow> Inr i
      | None \<Rightarrow> Inl (ValueError (''invalid literal for int() with base 10: '' @ repr_str s)))"
| "int_of _ = Inl TypeError"

text \<open>\<open>float(s)\<close> for a string: sign, digits, fraction and exponent, or an infinity or NaN.\<close>

definition parse_exponent :: "string \<Rightarrow> int option" where
  "parse_exponent s =
     (case s of
        [] \<Rightarrow> None
      | c # cs \<Rightarrow>
          let ds = (if c = CHR ''-'' \<or> c = CHR ''+'' then cs else s)
          in if ds = [] \<or> \<not> list_all is_digit ds then None
             else Some (if c = CHR ''-'' then - int (digits_val ds) else int (digits_val ds)))"

definition parse_decimal :: "string \<Rightarrow> rat option" where
  "parse_decimal s =
     (let a = takeWhile is_digit s; r = dropWhile is_digit s;
          b = (case r of [] \<Rightarrow> [] | c # t \<Rightarrow> if c = CHR ''.'' then takeWhile is_digit t else []);
          r' = (case r of [] \<Rightarrow> [] | c # t \<Rightarrow> if c = CHR ''.'' then dropWhile is_digit t else r);
          m = of_nat (digits_val (a @ b)) / 10 ^ length b
      in if a = [] \<and> b = [] then None
         else case r' of
             [] \<Rightarrow> Some m
           | c # t \<Rightarrow>
               if c = CHR ''e'' \<or> c = CHR ''E''
               then map_option (\<lambda>x. if 0 \<le> x then m * 10 ^ nat x else m / 10 ^ nat (- x)) (parse_exponent t)
               else None)"

definition parse_unsigned :: "rounding \<Rightarrow> string \<Rightarrow> pyfloat option" where
  "parse_unsigned rnd s =
     (if lower s = ''inf'' \<or> lower s = ''infinity'' then Some PInf
      else if lower s = ''nan'' then Some NaN
      else map_option rnd (parse_decimal s))"

definition parse_float :: "rounding \<Rightarrow> string \<Rightarrow> pyfloat option" where
  "parse_float rnd s =
     (case strip s of
        [] \<Rightarrow> None
      | c # cs \<Rightarrow>
          if c = CHR ''-'' then map_option f_neg (parse_unsigned rnd cs)
          else if c = CHR ''+'' then parse_unsigned rnd cs
          else parse_unsigned rnd (c # cs))"

definition float_of_str :: "rounding \<Rightarrow> string \<Rightarrow> exn + pyfloat" where
  "float_of_str rnd s =
     (case parse_float rnd s of Some f \<Rightarrow> Inr f
      | None \<Rightarrow> Inl (ValueError (''could not convert string to float: '' @ repr_str s)))"

definition float_of_int :: "rounding \<Rightarrow> int \<Rightarrow> exn + pyfloat" where
  "float_of_int rnd i = (case rnd (of_int i) of Fin q \<Rightarrow> Inr (Fin q) | _ \<Rightarrow> Inl OverflowError)"

fun float_of :: "rounding \<Rightarrow> json \<Rightarrow> exn + pyfloat" where
  "float_of rnd (JInt i) = float_of_int rnd i"
| "float_of rnd (JBool b) = Inr (Fin (if b then 1 else 0))"
| "float_of rnd (JFloat f) = Inr f"
| "float_of rnd (JStr s) = float_of_str rnd s"
| "float_of rnd _ = Inl TypeError"

section \<open>Facts\<close>

lemma f_lt_NaN [simp]: "\<not> f_lt x NaN" "\<not> f_lt NaN x"
  by (cases x; simp)+

lemma f_eq_NaN [simp]: "\<not> f_eq x NaN" "\<not> f_eq NaN x"
  by (cases x; simp)+

lemma f_lt_irrefl [simp]: "\<not> f_lt x x"
  by (cases x) auto

lemma f_lt_trans: "f_lt x y \<Longrightarrow> f_lt y z \<Longrightarrow> f_lt x z"
  by (cases x; cases y; cases z) auto

lemma f_lt_total: "x \<noteq> NaN \<Longrightarrow> y \<noteq> NaN \<Longrightarrow> f_lt x y \<or> f_eq x y \<or> f_lt y x"
  by (cases x; cases y) auto

lemma f_le_not_lt: "x \<noteq> NaN \<Longrightarrow> y \<noteq> NaN \<Longrightarrow> \<not> f_lt x y \<longleftrightarrow> f_le y x"
  by (cases x; cases y) (auto simp: f_le_def)

lemma py_eq_num: "num_of v = Some a \<Longrightarrow> num_of w = Some b \<Longrightarrow> py_eq v w = f_eq a b"
  by (cases v) auto

lemma py_eq_JStr_right: "py_eq v (JStr t) \<longleftrightarrow> v = JStr t"
  by (cases v) auto

lemma py_eq_JNull_right: "py_eq v JNull \<longleftrightarrow> v = JNull"
  by (cases v) auto

text \<open>A scalar is equal to itself unless it is NaN.\<close>

fun is_scalar :: "json \<Rightarrow> bool" where
  "is_scalar (JArr xs) = False"
| "is_scalar (JObj d) = False"
| "is_scalar (JFloat f) = (f \<noteq> NaN)"
| "is_scalar _ = True"

lemma f_eq_refl: "f_eq f f \<longleftrightarrow> f \<noteq> NaN"
  by (cases f) auto

lemma py_eq_refl_scalar: "is_scalar v \<Longrightarrow> py_eq v v"
  by (cases v) (auto simp: f_eq_refl)

lemma set_sorted_fields: "set (keys (sorted_fields d)) = set (keys d)"
  by (force simp: sorted_fields_def keys_def)

lemma wf_sorted_fields: "wf_dict d \<Longrightarrow> wf_dict (sorted_fields d)"
proof -
  have keep: "map fst (map (\<lambda>(k, v). (k, json_sorted v)) d) = map fst d"
    by (induction d) auto
  have "mset (map fst (sort_key fst xs)) = mset (map fst xs)" for xs :: fields
    by (metis mset_map mset_sort)
  then have "mset (map fst (sorted_fields d)) = mset (map fst d)"
    unfolding sorted_fields_def by (metis keep)
  then show "wf_dict d \<Longrightarrow> wf_dict (sorted_fields d)"
    by (metis keys_def mset_eq_imp_distinct_iff wf_dict_def)
qed

end
