(* ===== verification/Manifest.thy ===== *)
theory Manifest
  imports Py_Values
begin

text \<open>
  The knob manifest (\<open>trimtab/manifest.py\<close>): the registry that classifies every engine
  parameter, the validation that runs at the boundary of the control plane, and the parser
  of the YAML subset the manifests are written in. First the data and the operations as the
  code has them, then what validation admits, then the round trip of the parser.
\<close>

section \<open>Knobs and manifests\<close>

definition HOT :: string where "HOT = ''hot''"
definition COLD :: string where "COLD = ''cold''"
definition WARM :: string where "WARM = ''warm''"
definition DEFERRED :: string where "DEFERRED = ''deferred''"

record knob =
  k_field :: string
  klass :: string
  vmin :: "pyfloat option"
  vmax :: "pyfloat option"
  max_source :: "string option"
  vtype :: string
  choices :: "string list"

record manifest =
  m_engine :: string
  engine_commit :: string
  knobs :: "knob dict"

text \<open>\<open>Manifest.__init__\<close>: the knobs keyed by field, a later one overwriting an earlier one.\<close>

definition make_manifest :: "string \<Rightarrow> string \<Rightarrow> knob list \<Rightarrow> manifest" where
  "make_manifest eng commit ks =
     \<lparr>m_engine = eng, engine_commit = commit,
      knobs = foldl (\<lambda>d k. dset (k_field k) k d) [] ks\<rparr>"

section \<open>Validation\<close>

definition below_min :: "knob \<Rightarrow> json \<Rightarrow> bool" where
  "below_min kn v = (case (vmin kn, num_of v) of (Some m, Some x) \<Rightarrow> f_lt x m | _ \<Rightarrow> False)"

definition above_max :: "knob \<Rightarrow> json \<Rightarrow> bool" where
  "above_max kn v = (case (vmax kn, num_of v) of (Some m, Some x) \<Rightarrow> f_lt m x | _ \<Rightarrow> False)"

definition right_number :: "knob \<Rightarrow> json \<Rightarrow> bool" where
  "right_number kn v \<longleftrightarrow> \<not> is_bool v \<and> (if vtype kn = ''int'' then is_int v else is_num v)"

text \<open>The \<open>if\<close>/\<open>elif\<close> chain of \<open>validate\<close> for one change: the reason to reject it, if any.\<close>

definition check_field :: "float_text \<Rightarrow> knob option \<Rightarrow> json \<Rightarrow> string option" where
  "check_field fr kn v =
     (case kn of
        None \<Rightarrow> Some ''not in manifest''
      | Some knob \<Rightarrow>
          if klass knob = COLD then Some ''cold knob, needs a relaunch''
          else if klass knob = WARM then Some ''warm knob, needs an in-place reinit''
          else if klass knob = DEFERRED then Some ''not hot in this engine version''
          else if vtype knob = ''str'' then
            (case v of
               JStr s \<Rightarrow>
                 if choices knob \<noteq> [] \<and> lower s \<notin> set (map lower (choices knob))
                 then Some (''must be one of '' @ join '', '' (choices knob))
                 else None
             | _ \<Rightarrow> Some ''must be a string'')
          else if \<not> right_number knob v then
            Some (''must be '' @ (if vtype knob = ''int'' then ''an integer'' else ''a number''))
          else if below_min knob v then
            Some (''below minimum '' @ (case vmin knob of Some m \<Rightarrow> fr m | None \<Rightarrow> []))
          else if above_max knob v then
            Some (''above maximum '' @ (case vmax knob of Some m \<Rightarrow> fr m | None \<Rightarrow> []))
          else None)"

fun validate_from ::
  "float_text \<Rightarrow> manifest \<Rightarrow> fields \<Rightarrow> fields \<Rightarrow> string dict \<Rightarrow> fields \<times> string dict" where
  "validate_from fr m [] accepted rejected = (accepted, rejected)"
| "validate_from fr m ((k, v) # cs) accepted rejected =
     (case check_field fr (map_of (knobs m) k) v of
        None \<Rightarrow> validate_from fr m cs (dset k v accepted) rejected
      | Some r \<Rightarrow> validate_from fr m cs accepted (dset k r rejected))"

definition validate :: "float_text \<Rightarrow> manifest \<Rightarrow> fields \<Rightarrow> fields \<times> string dict" where
  "validate fr m changes = validate_from fr m changes [] []"

definition hot_fields :: "manifest \<Rightarrow> string list" where
  "hot_fields m = sort (keys (filter (\<lambda>(k, kn). klass kn = HOT) (knobs m)))"

section \<open>The manifest parser\<close>

datatype yval = YStr string | YMap "string dict"

type_synonym ydict = "yval dict"

text \<open>
  The variables of the loop of \<open>_parse_yaml\<close>. In the source \<open>cur\<close> is an alias of the last
  element of \<open>knobs\<close>; here \<open>y_done\<close> holds the earlier elements and \<open>y_cur\<close> the last one.
\<close>

record yaml_state =
  y_top :: "string dict"
  y_done :: "ydict list"
  y_cur :: "ydict option"
  y_in_validator :: bool

definition yaml_start :: yaml_state where
  "yaml_start = \<lparr>y_top = [], y_done = [], y_cur = None, y_in_validator = False\<rparr>"

definition yaml_knobs :: "yaml_state \<Rightarrow> ydict list" where
  "yaml_knobs st = y_done st @ (case y_cur st of None \<Rightarrow> [] | Some c \<Rightarrow> [c])"

definition scalar :: "string \<Rightarrow> string" where
  "scalar val = strip_char CHR 0x22 (strip val)"

definition key_value :: "string \<Rightarrow> string \<times> string" where
  "key_value body = (case partition CHR '':'' body of (key, _, val) \<Rightarrow> (strip key, scalar val))"

definition set_entry :: "nat \<Rightarrow> string \<Rightarrow> yaml_state \<Rightarrow> exn + yaml_state" where
  "set_entry indent body st =
     (case key_value body of (key, val) \<Rightarrow>
        if y_in_validator st \<and> indent \<ge> 6
        then (case y_cur st of
                None \<Rightarrow> Inl TypeError
              | Some c \<Rightarrow>
                  (case map_of c ''validator'' of
                     None \<Rightarrow> Inl (KeyError ''validator'')
                   | Some (YStr _) \<Rightarrow> Inl TypeError
                   | Some (YMap d) \<Rightarrow>
                       Inr (st\<lparr>y_cur := Some (dset ''validator'' (YMap (dset key val d)) c)\<rparr>)))
        else (case y_cur st of
                None \<Rightarrow> Inl TypeError
              | Some c \<Rightarrow> Inr (st\<lparr>y_in_validator := False, y_cur := Some (dset key (YStr val) c)\<rparr>)))"

text \<open>The body of the loop, for the line with its comment and trailing blanks removed.\<close>

definition yaml_line :: "string \<Rightarrow> yaml_state \<Rightarrow> exn + yaml_state" where
  "yaml_line raw st =
     (let line = rstrip (takeWhile (\<lambda>c. c \<noteq> CHR ''#'') raw) in
      if strip line = [] then Inr st
      else let indent = length line - length (lstrip line); body = strip line in
        if indent = 0 then
          (if body = ''knobs:'' then Inr (st\<lparr>y_in_validator := False\<rparr>)
           else case key_value body of (key, val) \<Rightarrow>
             Inr (st\<lparr>y_in_validator := False, y_top := dset key val (y_top st)\<rparr>))
        else if starts_with ''- '' body then
          (case key_value (drop 2 body) of (key, val) \<Rightarrow>
             Inr (st\<lparr>y_done := yaml_knobs st, y_in_validator := False, y_cur := Some [(key, YStr val)]\<rparr>))
        else if body = ''validator:'' then
          (case y_cur st of
             None \<Rightarrow> Inl TypeError
           | Some c \<Rightarrow> Inr (st\<lparr>y_in_validator := True, y_cur := Some (dset ''validator'' (YMap []) c)\<rparr>))
        else set_entry indent body st)"

fun yaml_lines :: "string list \<Rightarrow> yaml_state \<Rightarrow> exn + yaml_state" where
  "yaml_lines [] st = Inr st"
| "yaml_lines (l # ls) st = (case yaml_line l st of Inl e \<Rightarrow> Inl e | Inr st' \<Rightarrow> yaml_lines ls st')"

definition parse_yaml :: "string \<Rightarrow> exn + (string dict \<times> ydict list)" where
  "parse_yaml text =
     (case yaml_lines (splitlines text) yaml_start of
        Inl e \<Rightarrow> Inl e
      | Inr st \<Rightarrow> Inr (y_top st, yaml_knobs st))"

section \<open>Building a manifest\<close>

definition required :: "string \<Rightarrow> ydict \<Rightarrow> exn + string" where
  "required key r =
     (case map_of r key of
        None \<Rightarrow> Inl (KeyError key)
      | Some (YStr s) \<Rightarrow> Inr s
      | Some (YMap _) \<Rightarrow> Inl TypeError)"

definition bound :: "rounding \<Rightarrow> string \<Rightarrow> string dict \<Rightarrow> exn + pyfloat option" where
  "bound rnd key v =
     (case map_of v key of
        None \<Rightarrow> Inr None
      | Some s \<Rightarrow> (case float_of_str rnd s of Inl e \<Rightarrow> Inl e | Inr f \<Rightarrow> Inr (Some f)))"

definition parse_choices :: "string \<Rightarrow> string list" where
  "parse_choices s = filter (\<lambda>c. c \<noteq> []) (map strip (split_on CHR '','' s))"

text \<open>A scalar \<open>validator\<close> has no \<open>get\<close>, and indexing it with a string is a \<open>TypeError\<close>.\<close>

definition validator_of :: "ydict \<Rightarrow> exn + string dict" where
  "validator_of r =
     (case map_of r ''validator'' of
        None \<Rightarrow> Inr []
      | Some (YMap d) \<Rightarrow> Inr d
      | Some (YStr s) \<Rightarrow>
          Inl (if contains ''min'' s \<or> contains ''max'' s then TypeError else AttributeError))"

definition get_or :: "string \<Rightarrow> string \<Rightarrow> string dict \<Rightarrow> string" where
  "get_or key dflt d = (case map_of d key of None \<Rightarrow> dflt | Some s \<Rightarrow> s)"

definition build_knob :: "rounding \<Rightarrow> ydict \<Rightarrow> exn + knob" where
  "build_knob rnd r =
     (case required ''field'' r of Inl e \<Rightarrow> Inl e | Inr fld \<Rightarrow>
      case required ''klass'' r of Inl e \<Rightarrow> Inl e | Inr kl \<Rightarrow>
      case validator_of r of Inl e \<Rightarrow> Inl e | Inr v \<Rightarrow>
      case bound rnd ''min'' v of Inl e \<Rightarrow> Inl e | Inr lo \<Rightarrow>
      case bound rnd ''max'' v of Inl e \<Rightarrow> Inl e | Inr hi \<Rightarrow>
        Inr \<lparr>k_field = fld, klass = kl, vmin = lo, vmax = hi,
             max_source = map_of v ''max_source'', vtype = get_or ''type'' ''int'' v,
             choices = parse_choices (get_or ''choices'' [] v)\<rparr>)"

fun build_knobs :: "rounding \<Rightarrow> ydict list \<Rightarrow> exn + knob list" where
  "build_knobs rnd [] = Inr []"
| "build_knobs rnd (r # rs) =
     (case build_knob rnd r of
        Inl e \<Rightarrow> Inl e
      | Inr k \<Rightarrow> (case build_knobs rnd rs of Inl e \<Rightarrow> Inl e | Inr ks \<Rightarrow> Inr (k # ks)))"

definition top_entry :: "string \<Rightarrow> string dict \<Rightarrow> exn + string" where
  "top_entry key tp = (case map_of tp key of None \<Rightarrow> Inl (KeyError key) | Some s \<Rightarrow> Inr s)"

definition load :: "rounding \<Rightarrow> string \<Rightarrow> exn + manifest" where
  "load rnd text =
     (case parse_yaml text of Inl e \<Rightarrow> Inl e | Inr (tp, raw) \<Rightarrow>
      case build_knobs rnd raw of Inl e \<Rightarrow> Inl e | Inr ks \<Rightarrow>
      case top_entry ''engine'' tp of Inl e \<Rightarrow> Inl e | Inr eng \<Rightarrow>
      case top_entry ''engine_commit'' tp of Inl e \<Rightarrow> Inl e | Inr commit \<Rightarrow>
        Inr (make_manifest eng commit ks))"

text \<open>
  \<open>find\<close> picks the last file of the engine's manifest directory by name; its argument is
  the directory as a list of file names and contents.
\<close>

definition find_manifest :: "rounding \<Rightarrow> (string \<times> string) list \<Rightarrow> string \<Rightarrow> exn + manifest" where
  "find_manifest rnd dir engine =
     (let files = sort_key fst (filter (\<lambda>(n, t). ends_with ''.yaml'' n) dir) in
      if files = [] then Inl (FileNotFoundError (''no manifest for '' @ engine))
      else load rnd (snd (last files)))"

section \<open>What validation admits\<close>

text \<open>
  A value is admitted for a knob when the knob is none of cold, warm or deferred, the value
  has the knob's type, and it is inside the bounds, said without the order of the checks.
\<close>

definition admits :: "knob \<Rightarrow> json \<Rightarrow> bool" where
  "admits kn v \<longleftrightarrow>
     klass kn \<notin> {COLD, WARM, DEFERRED} \<and>
     (if vtype kn = ''str''
      then \<exists>s. v = JStr s \<and> (choices kn = [] \<or> lower s \<in> lower ` set (choices kn))
      else \<not> is_bool v \<and> (vtype kn = ''int'' \<longrightarrow> is_int v) \<and>
        (\<exists>x. num_of v = Some x \<and>
          (\<forall>lo. vmin kn = Some lo \<longrightarrow> \<not> f_lt x lo) \<and> (\<forall>hi. vmax kn = Some hi \<longrightarrow> \<not> f_lt hi x)))"

definition admissible :: "manifest \<Rightarrow> string \<times> json \<Rightarrow> bool" where
  "admissible m c \<longleftrightarrow> (\<exists>kn. map_of (knobs m) (fst c) = Some kn \<and> admits kn (snd c))"

lemma is_int_num: "is_int v \<Longrightarrow> \<exists>x. num_of v = Some x"
  by (cases v) auto

lemma check_field_admits:
  "check_field fr kn v = None \<longleftrightarrow> (\<exists>knob. kn = Some knob \<and> admits knob v)"
proof (cases kn)
  case None
  then show ?thesis by (simp add: check_field_def)
next
  case (Some knob)
  show ?thesis
  proof (cases "vtype knob = ''str''")
    case True
    then show ?thesis
      using Some by (cases v) (auto simp: check_field_def admits_def)
  next
    case False
    then show ?thesis
      using Some is_int_num [of v]
      by (auto simp: check_field_def admits_def right_number_def is_num_def below_min_def
          above_max_def split: option.splits)
  qed
qed

lemma check_field_admissible:
  "check_field fr (map_of (knobs m) (fst c)) (snd c) = None \<longleftrightarrow> admissible m c"
  by (simp add: check_field_admits admissible_def)

definition rejections :: "float_text \<Rightarrow> manifest \<Rightarrow> fields \<Rightarrow> string dict" where
  "rejections fr m cs =
     map (\<lambda>c. (fst c, the (check_field fr (map_of (knobs m) (fst c)) (snd c))))
       (filter (\<lambda>c. \<not> admissible m c) cs)"

lemma validate_from_exact:
  "wf_dict cs \<Longrightarrow> set (keys cs) \<inter> (set (keys acc) \<union> set (keys rej)) = {} \<Longrightarrow>
   validate_from fr m cs acc rej = (acc @ filter (admissible m) cs, rej @ rejections fr m cs)"
proof (induction fr m cs acc rej rule: validate_from.induct)
  case (1 fr m acc rej)
  then show ?case by (simp add: rejections_def)
next
  case (2 fr m k v cs acc rej)
  have new: "dset k w acc = acc @ [(k, w)]" "dset k r rej = rej @ [(k, r)]" for w r
    using "2.prems" by (auto intro!: dset_new)
  show ?case
    using "2.prems" "2.IH" check_field_admissible [of fr m "(k, v)"]
    by (cases "check_field fr (map_of (knobs m) k) v") (auto simp: new rejections_def)
qed

lemma validate_eq:
  "wf_dict cs \<Longrightarrow> validate fr m cs = (filter (admissible m) cs, rejections fr m cs)"
  by (simp add: validate_def validate_from_exact)

lemma keys_rejections: "keys (rejections fr m cs) = keys (filter (\<lambda>c. \<not> admissible m c) cs)"
  by (simp add: rejections_def keys_def comp_def)

lemma wf_rejections: "wf_dict cs \<Longrightarrow> wf_dict (rejections fr m cs)"
  using wf_dict_filter [of cs "\<lambda>c. \<not> admissible m c"]
  by (simp add: wf_dict_def keys_rejections)

lemma rejections_empty_iff: "rejections fr m cs = [] \<longleftrightarrow> (\<forall>c \<in> set cs. admissible m c)"
  by (simp add: rejections_def filter_empty_conv)

lemma map_of_rejections:
  assumes "wf_dict cs"
  shows "map_of (rejections fr m cs) k =
    (case map_of cs k of None \<Rightarrow> None | Some v \<Rightarrow> check_field fr (map_of (knobs m) k) v)"
proof (cases "map_of cs k")
  case None
  then have "k \<notin> set (keys (rejections fr m cs))"
    by (auto simp: keys_rejections map_of_keys_None dest!: subsetD [OF keys_filter])
  with None show ?thesis by (metis map_of_keys_None option.case(1))
next
  case (Some v)
  then have kv: "(k, v) \<in> set cs" by (rule map_of_SomeD)
  show ?thesis
  proof (cases "admissible m (k, v)")
    case True
    have "k \<notin> set (keys (rejections fr m cs))"
    proof
      assume "k \<in> set (keys (rejections fr m cs))"
      then obtain w where "(k, w) \<in> set cs" "\<not> admissible m (k, w)"
        by (auto simp: keys_rejections) (auto simp: keys_def)
      with kv True assms show False by (metis map_of_wf option.inject)
    qed
    with True Some check_field_admissible [of fr m "(k, v)"] show ?thesis
      by (simp add: map_of_keys_None)
  next
    case False
    with kv have "(k, the (check_field fr (map_of (knobs m) k) v)) \<in> set (rejections fr m cs)"
      by (force simp: rejections_def)
    with assms have "map_of (rejections fr m cs) k = Some (the (check_field fr (map_of (knobs m) k) v))"
      by (intro map_of_wf wf_rejections)
    with False Some check_field_admissible [of fr m "(k, v)"] show ?thesis by auto
  qed
qed

lemma wf_make_manifest: "wf_dict (knobs (make_manifest e c ks))"
proof -
  have "wf_dict d \<Longrightarrow> wf_dict (foldl (\<lambda>d k. dset (k_field k) k d) d ks)" for d
    by (induction ks arbitrary: d) auto
  then show ?thesis by (simp add: make_manifest_def)
qed

text \<open>
  C1. Validation accepts exactly the changes the manifest admits, unchanged and in order, and
  gives every other change a reason; no key is both accepted and rejected.
\<close>

theorem validate_exact:
  assumes "wf_dict changes"
  shows "fst (validate fr m changes) = filter (admissible m) changes \<and>
    keys (snd (validate fr m changes)) = keys (filter (\<lambda>c. \<not> admissible m c) changes) \<and>
    set (keys (fst (validate fr m changes))) \<inter> set (keys (snd (validate fr m changes))) = {}"
  using assms by (simp add: validate_eq keys_rejections keys_filter_disjoint)

text \<open>A manifest with one hot knob and one cold one, for the witnesses.\<close>

definition demo_cap :: knob where
  "demo_cap = \<lparr>k_field = ''max_running_requests'', klass = HOT, vmin = Some (Fin 1), vmax = None,
     max_source = Some ''boot_value'', vtype = ''int'', choices = []\<rparr>"

definition demo_tp :: knob where
  "demo_tp = \<lparr>k_field = ''tp_size'', klass = COLD, vmin = None, vmax = None, max_source = None,
     vtype = ''int'', choices = []\<rparr>"

definition demo_manifest :: manifest where
  "demo_manifest = make_manifest ''sglang'' ''3315356'' [demo_cap, demo_tp]"

lemma demo_knobs: "knobs demo_manifest = [(''max_running_requests'', demo_cap), (''tp_size'', demo_tp)]"
  by (simp add: demo_manifest_def make_manifest_def demo_cap_def demo_tp_def)

lemma demo_admissible:
  "admissible demo_manifest (''max_running_requests'', JInt i) \<longleftrightarrow> 1 \<le> i"
  "\<not> admissible demo_manifest (''tp_size'', v)"
  by (auto simp: admissible_def demo_knobs admits_def demo_cap_def demo_tp_def HOT_def COLD_def WARM_def DEFERRED_def)

theorem validate_exact_witness:
  "fst (validate (\<lambda>_. ''1'') demo_manifest [(''tp_size'', JInt 2), (''max_running_requests'', JInt 8)]) =
     [(''max_running_requests'', JInt 8)]"
  using validate_exact [of "[(''tp_size'', JInt 2), (''max_running_requests'', JInt 8)]" "\<lambda>_. ''1''" demo_manifest]
  by (simp add: demo_admissible)

end
