(* ===== verification/Manifest_Format.thy ===== *)
theory Manifest_Format
  imports Manifest
begin

text \<open>
  The round trip of the manifest parser: a manifest written in the YAML subset the repository
  uses (one list entry per knob, a nested \<open>validator\<close> mapping, quoted or bare scalars) is
  read back as it was. The writer below is the specification of the format; the program
  only reads it.
\<close>

section \<open>Writing a manifest\<close>

definition indent :: "nat \<Rightarrow> string \<Rightarrow> string" where
  "indent n s = replicate n CHR '' '' @ s"

definition entry :: "string \<Rightarrow> string \<Rightarrow> string" where
  "entry key val = key @ '': '' @ val"

definition field_line :: "string \<Rightarrow> string" where
  "field_line v = indent 2 (''- '' @ entry ''field'' v)"

definition quoted :: "string \<Rightarrow> string" where
  "quoted s = CHR 0x22 # s @ [CHR 0x22]"

definition validator_entries :: "float_text \<Rightarrow> knob \<Rightarrow> string dict" where
  "validator_entries fr k =
     [(''type'', vtype k)] @
     (case vmin k of None \<Rightarrow> [] | Some f \<Rightarrow> [(''min'', fr f)]) @
     (case vmax k of None \<Rightarrow> [] | Some f \<Rightarrow> [(''max'', fr f)]) @
     (case max_source k of None \<Rightarrow> [] | Some s \<Rightarrow> [(''max_source'', s)]) @
     (if choices k = [] then [] else [(''choices'', join '','' (choices k))])"

definition knob_lines :: "float_text \<Rightarrow> knob \<Rightarrow> string list" where
  "knob_lines fr k =
     [field_line (k_field k), indent 4 (entry ''klass'' (klass k)),
      indent 4 ''validator:''] @
     map (\<lambda>(key, val). indent 6 (entry key val)) (validator_entries fr k)"

definition manifest_lines :: "float_text \<Rightarrow> manifest \<Rightarrow> string list" where
  "manifest_lines fr m =
     [entry ''engine'' (m_engine m), entry ''engine_commit'' (quoted (engine_commit m)), ''knobs:''] @
     concat (map (knob_lines fr) (map snd (knobs m)))"

definition manifest_text :: "float_text \<Rightarrow> manifest \<Rightarrow> string" where
  "manifest_text fr m = concat (map (\<lambda>l. l @ [CHR 0x0A]) (manifest_lines fr m))"

text \<open>What may be written bare: no blank, comment sign or quote; in a choice no comma either.\<close>

definition plain :: "string \<Rightarrow> bool" where
  "plain s \<longleftrightarrow> s \<noteq> [] \<and> (\<forall>c \<in> set s. \<not> is_space c \<and> c \<noteq> CHR ''#'' \<and> c \<noteq> CHR 0x22)"

definition writable_knob :: "rounding \<Rightarrow> float_text \<Rightarrow> knob \<Rightarrow> bool" where
  "writable_knob rnd fr k \<longleftrightarrow>
     plain (k_field k) \<and> plain (klass k) \<and> plain (vtype k) \<and>
     (\<forall>f. vmin k = Some f \<or> vmax k = Some f \<longrightarrow> plain (fr f) \<and> parse_float rnd (fr f) = Some f) \<and>
     (\<forall>s. max_source k = Some s \<longrightarrow> plain s) \<and>
     (\<forall>c \<in> set (choices k). plain c \<and> CHR '','' \<notin> set c)"

definition writable :: "rounding \<Rightarrow> float_text \<Rightarrow> manifest \<Rightarrow> bool" where
  "writable rnd fr m \<longleftrightarrow>
     plain (m_engine m) \<and> plain (engine_commit m) \<and> wf_dict (knobs m) \<and>
     (\<forall>(key, k) \<in> set (knobs m). key = k_field k \<and> writable_knob rnd fr k)"

section \<open>Blanks and quotes around plain text\<close>

lemma plain_hd: "plain s \<Longrightarrow> s \<noteq> [] \<and> \<not> is_space (hd s) \<and> \<not> is_space (last s)"
  by (auto simp: plain_def)

lemma rstrip_id: "s \<noteq> [] \<Longrightarrow> \<not> is_space (last s) \<Longrightarrow> rstrip s = s"
  unfolding rstrip_def by (subst dropWhile_id) (auto simp: hd_rev)

lemma lstrip_id: "\<not> is_space (hd s) \<Longrightarrow> lstrip s = s"
  unfolding lstrip_def by (rule dropWhile_id) simp

lemma strip_id: "s \<noteq> [] \<Longrightarrow> \<not> is_space (hd s) \<Longrightarrow> \<not> is_space (last s) \<Longrightarrow> strip s = s"
  by (simp add: strip_def rstrip_id lstrip_id)

lemma space_is_space [simp]: "is_space CHR '' ''"
  by (simp add: is_space_def)

lemma lstrip_indent: "lstrip (indent n s) = lstrip s"
  by (induction n) (auto simp: lstrip_def indent_def)

lemma length_indent [simp]: "length (indent n s) = n + length s"
  by (simp add: indent_def)

lemma rstrip_indent: "s \<noteq> [] \<Longrightarrow> \<not> is_space (last s) \<Longrightarrow> rstrip (indent n s) = indent n s"
  by (rule rstrip_id) (auto simp: indent_def)

lemma strip_indent:
  "s \<noteq> [] \<Longrightarrow> \<not> is_space (hd s) \<Longrightarrow> \<not> is_space (last s) \<Longrightarrow> strip (indent n s) = s"
  by (simp add: strip_def rstrip_indent lstrip_indent lstrip_id)

lemma dropWhile_notin: "c \<notin> set s \<Longrightarrow> dropWhile ((=) c) s = s"
  by (cases s) auto

lemma dropWhile_notin_append: "s \<noteq> [] \<Longrightarrow> c \<notin> set s \<Longrightarrow> dropWhile ((=) c) (s @ t) = s @ t"
  by (cases s) auto

lemma strip_char_plain: "c \<notin> set s \<Longrightarrow> strip_char c s = s"
  by (simp add: strip_char_def dropWhile_notin)

lemma strip_char_quoted: "s \<noteq> [] \<Longrightarrow> c \<notin> set s \<Longrightarrow> strip_char c (c # s @ [c]) = s"
  by (simp add: strip_char_def dropWhile_notin dropWhile_notin_append)

lemma plain_no_quote: "plain s \<Longrightarrow> CHR 0x22 \<notin> set s"
  by (auto simp: plain_def)

lemma scalar_plain: "plain s \<Longrightarrow> scalar ('' '' @ s) = s"
proof -
  assume p: "plain s"
  have "strip ('' '' @ s) = s"
    using strip_indent [of s 1] plain_hd [OF p] by (simp add: indent_def)
  then show ?thesis
    unfolding scalar_def by (simp only: strip_char_plain [OF plain_no_quote [OF p]])
qed

lemma scalar_quoted: "plain s \<Longrightarrow> scalar ('' '' @ quoted s) = s"
proof -
  assume p: "plain s"
  have nsp: "\<not> is_space CHR 0x22" by (simp add: is_space_def)
  have "strip ('' '' @ quoted s) = quoted s"
    using strip_indent [of "quoted s" 1] nsp by (simp add: indent_def quoted_def)
  moreover have "strip_char CHR 0x22 (quoted s) = s"
    unfolding quoted_def by (rule strip_char_quoted) (use p in \<open>auto simp: plain_def\<close>)
  ultimately show ?thesis by (simp add: scalar_def)
qed

section \<open>One line\<close>

definition plain_key :: "string \<Rightarrow> bool" where
  "plain_key s \<longleftrightarrow> plain s \<and> CHR '':'' \<notin> set s"

definition body_ok :: "string \<Rightarrow> bool" where
  "body_ok s \<longleftrightarrow> s \<noteq> [] \<and> \<not> is_space (hd s) \<and> \<not> is_space (last s) \<and> CHR ''#'' \<notin> set s"

lemma hd_plain: "plain s \<Longrightarrow> hd s \<in> set s" "plain s \<Longrightarrow> last s \<in> set s"
  by (auto simp: plain_def)

lemma body_ok_entry: "plain key \<Longrightarrow> plain val \<Longrightarrow> body_ok (entry key val)"
  using plain_hd [of key] plain_hd [of val] by (auto simp: body_ok_def entry_def plain_def)

lemma body_ok_dash: "body_ok s \<Longrightarrow> body_ok (''- '' @ s)"
  by (auto simp: body_ok_def is_space_def)

lemma body_ok_quoted: "plain key \<Longrightarrow> plain val \<Longrightarrow> body_ok (entry key (quoted val))"
  using plain_hd [of key] by (auto simp: body_ok_def entry_def plain_def quoted_def is_space_def)

lemma takeWhile_body: "body_ok s \<Longrightarrow> takeWhile (\<lambda>c. c \<noteq> CHR ''#'') (indent n s) = indent n s"
  by (auto simp: takeWhile_eq_all_conv body_ok_def indent_def)

lemma yaml_line_indent:
  assumes "body_ok s" and "n \<noteq> 0"
  shows "yaml_line (indent n s) st =
    (if starts_with ''- '' s then
       (case key_value (drop 2 s) of (key, val) \<Rightarrow>
          Inr (st\<lparr>y_done := yaml_knobs st, y_in_validator := False, y_cur := Some [(key, YStr val)]\<rparr>))
     else if s = ''validator:'' then
       (case y_cur st of None \<Rightarrow> Inl TypeError
        | Some c \<Rightarrow> Inr (st\<lparr>y_in_validator := True, y_cur := Some (dset ''validator'' (YMap []) c)\<rparr>))
     else set_entry n s st)"
proof -
  from assms(1) have s: "s \<noteq> []" "\<not> is_space (hd s)" "\<not> is_space (last s)"
    by (auto simp: body_ok_def)
  have eqs: "takeWhile (\<lambda>c. c \<noteq> CHR ''#'') (indent n s) = indent n s"
    "rstrip (indent n s) = indent n s" "strip (indent n s) = s" "lstrip (indent n s) = s"
    using takeWhile_body [OF assms(1)] s by (simp_all add: lstrip_indent lstrip_id rstrip_indent strip_indent)
  show ?thesis
    unfolding yaml_line_def Let_def eqs length_indent using assms(2) s(1) by simp
qed

lemma yaml_line_top:
  assumes "body_ok s"
  shows "yaml_line s st =
    (if s = ''knobs:'' then Inr (st\<lparr>y_in_validator := False\<rparr>)
     else case key_value s of (key, val) \<Rightarrow>
       Inr (st\<lparr>y_in_validator := False, y_top := dset key val (y_top st)\<rparr>))"
proof -
  from assms have s: "s \<noteq> []" "\<not> is_space (hd s)" "\<not> is_space (last s)"
    by (auto simp: body_ok_def)
  have eqs: "takeWhile (\<lambda>c. c \<noteq> CHR ''#'') s = s" "rstrip s = s" "strip s = s" "lstrip s = s"
    using takeWhile_body [OF assms, of 0] s
    by (simp_all add: indent_def rstrip_id strip_id lstrip_id del: takeWhile_eq_all_conv)
  show ?thesis
    unfolding yaml_line_def Let_def eqs using s(1) by simp
qed

lemma key_value_entry: "plain_key key \<Longrightarrow> plain val \<Longrightarrow> key_value (entry key val) = (key, val)"
  using partition_clean [of "CHR '':''" key "'' '' @ val"] plain_hd [of key]
  by (simp add: key_value_def entry_def plain_key_def scalar_plain [simplified] strip_id)

lemma key_value_quoted:
  "plain_key key \<Longrightarrow> plain val \<Longrightarrow> key_value (entry key (quoted val)) = (key, val)"
  using partition_clean [of "CHR '':''" key "'' '' @ quoted val"] plain_hd [of key]
  by (simp add: key_value_def entry_def plain_key_def scalar_quoted [simplified] strip_id)

lemma entry_not_dash: "plain key \<Longrightarrow> \<not> starts_with ''- '' (entry key val)"
  by (cases key rule: remdups_adj.cases)
    (auto simp: starts_with_def entry_def plain_def is_space_def)

lemma entry_not_word: "CHR '' '' \<notin> set w \<Longrightarrow> entry key val \<noteq> w"
  by (auto simp: entry_def)

lemma yaml_line_field:
  "plain v \<Longrightarrow> yaml_line (field_line v) st =
     Inr (st\<lparr>y_done := yaml_knobs st, y_in_validator := False, y_cur := Some [(''field'', YStr v)]\<rparr>)"
proof -
  assume v: "plain v"
  have key: "plain ''field''" "plain_key ''field''"
    by (simp_all add: plain_key_def plain_def is_space_def)
  show ?thesis
    using yaml_line_indent [OF body_ok_dash [OF body_ok_entry [OF key(1) v]], of 2 st]
    by (simp add: field_line_def starts_with_def key_value_entry [OF key(2) v])
qed

lemma yaml_line_attr:
  assumes "plain_key key" and "plain v" and "y_cur st = Some c"
  shows "yaml_line (indent 4 (entry key v)) st =
    Inr (st\<lparr>y_in_validator := False, y_cur := Some (dset key (YStr v) c)\<rparr>)"
proof -
  have key: "plain key" using assms(1) by (simp add: plain_key_def)
  show ?thesis
    using yaml_line_indent [OF body_ok_entry [OF key assms(2)], of 4 st]
    by (simp add: entry_not_dash [OF key] entry_not_word set_entry_def assms
        key_value_entry [OF assms(1,2)])
qed

lemma yaml_line_validator:
  "y_cur st = Some c \<Longrightarrow> yaml_line (indent 4 ''validator:'') st =
     Inr (st\<lparr>y_in_validator := True, y_cur := Some (dset ''validator'' (YMap []) c)\<rparr>)"
  using yaml_line_indent [of "''validator:''" 4 st]
  by (simp add: body_ok_def is_space_def starts_with_def)

lemma yaml_line_nested:
  assumes "plain_key key" and "plain v" and "y_in_validator st"
    and "y_cur st = Some c" and "map_of c ''validator'' = Some (YMap d)"
  shows "yaml_line (indent 6 (entry key v)) st =
    Inr (st\<lparr>y_cur := Some (dset ''validator'' (YMap (dset key v d)) c)\<rparr>)"
proof -
  have key: "plain key" using assms(1) by (simp add: plain_key_def)
  show ?thesis
    using yaml_line_indent [OF body_ok_entry [OF key assms(2)], of 6 st]
    by (simp add: entry_not_dash [OF key] entry_not_word set_entry_def assms
        key_value_entry [OF assms(1,2)])
qed

section \<open>One knob, all knobs\<close>

lemma yaml_lines_append:
  "yaml_lines (xs @ ys) st =
     (case yaml_lines xs st of Inl e \<Rightarrow> Inl e | Inr st' \<Rightarrow> yaml_lines ys st')"
  by (induction xs arbitrary: st) (auto split: sum.splits)

definition raw_knob :: "float_text \<Rightarrow> knob \<Rightarrow> ydict" where
  "raw_knob fr k =
     [(''field'', YStr (k_field k)), (''klass'', YStr (klass k)),
      (''validator'', YMap (validator_entries fr k))]"

lemma yaml_lines_nested:
  assumes "\<forall>(key, v) \<in> set es. plain_key key \<and> plain v"
    and "wf_dict (ds @ es)" and "y_in_validator st"
    and "y_cur st = Some [(''field'', f), (''klass'', k), (''validator'', YMap ds)]"
  shows "yaml_lines (map (\<lambda>(key, val). indent 6 (entry key val)) es) st =
    Inr (st\<lparr>y_cur := Some [(''field'', f), (''klass'', k), (''validator'', YMap (ds @ es))]\<rparr>)"
  using assms
proof (induction es arbitrary: ds st)
  case Nil
  then show ?case by simp
next
  case (Cons e es)
  obtain key v where e: "e = (key, v)" by (cases e)
  let ?cur = "[(''field'', f), (''klass'', k), (''validator'', YMap (ds @ [(key, v)]))]"
  have "key \<notin> set (keys ds)" using Cons.prems(2) by (auto simp: wf_dict_def e)
  then have "yaml_line (indent 6 (entry key v)) st = Inr (st\<lparr>y_cur := Some ?cur\<rparr>)"
    using yaml_line_nested [of key v st, OF _ _ Cons.prems(3,4)] Cons.prems(1) e
    by (simp add: dset_new)
  moreover have "yaml_lines (map (\<lambda>(key, val). indent 6 (entry key val)) es) (st\<lparr>y_cur := Some ?cur\<rparr>) =
      Inr (st\<lparr>y_cur := Some [(''field'', f), (''klass'', k), (''validator'', YMap ((ds @ [(key, v)]) @ es))]\<rparr>)"
    by (subst Cons.IH [where ds = "ds @ [(key, v)]"]) (use Cons.prems e in auto)
  ultimately show ?case by (simp add: e)
qed

lemma plain_comma_append: "plain a \<Longrightarrow> plain b \<Longrightarrow> plain (a @ CHR '','' # b)"
  by (auto simp: plain_def is_space_def)

lemma plain_join: "\<forall>c \<in> set ws. plain c \<Longrightarrow> ws \<noteq> [] \<Longrightarrow> plain (join '','' ws)"
  by (induction "'',''" ws rule: join.induct) (simp_all add: plain_comma_append)

lemma plain_key_words:
  "plain_key ''type''" "plain_key ''min''" "plain_key ''max''" "plain_key ''max_source''"
  "plain_key ''choices''" "plain_key ''klass''"
  by (simp_all add: plain_key_def plain_def is_space_def)

lemma validator_entries_ok:
  assumes "writable_knob rnd fr k"
  shows "\<forall>(key, v) \<in> set (validator_entries fr k). plain_key key \<and> plain v"
    and "wf_dict (validator_entries fr k)"
proof -
  have "choices k \<noteq> [] \<Longrightarrow> plain (join '','' (choices k))"
    using assms by (intro plain_join) (auto simp: writable_knob_def)
  then show "\<forall>(key, v) \<in> set (validator_entries fr k). plain_key key \<and> plain v"
    using assms plain_key_words
    by (auto simp: validator_entries_def writable_knob_def split: option.split)
  show "wf_dict (validator_entries fr k)"
    by (cases "vmin k"; cases "vmax k"; cases "max_source k"; cases "choices k = []")
      (simp_all add: validator_entries_def)
qed

lemma yaml_knob:
  assumes "writable_knob rnd fr k"
  shows "\<exists>b. yaml_lines (knob_lines fr k) st =
    Inr (st\<lparr>y_done := yaml_knobs st, y_in_validator := b, y_cur := Some (raw_knob fr k)\<rparr>)"
proof -
  have p: "plain (k_field k)" "plain (klass k)" "plain_key ''klass''"
    using assms by (auto simp: writable_knob_def plain_key_def plain_def is_space_def)
  let ?st = "st\<lparr>y_done := yaml_knobs st, y_in_validator := True, y_cur :=
    Some [(''field'', YStr (k_field k)), (''klass'', YStr (klass k)), (''validator'', YMap [])]\<rparr>"
  have "yaml_lines (knob_lines fr k) st =
      yaml_lines (map (\<lambda>(key, val). indent 6 (entry key val)) (validator_entries fr k)) ?st"
    unfolding knob_lines_def
    by (simp add: yaml_line_field [OF p(1)] yaml_line_attr [OF p(3,2)] yaml_line_validator)
  also have "\<dots> = Inr (?st\<lparr>y_cur := Some (raw_knob fr k)\<rparr>)"
    unfolding raw_knob_def
    by (subst yaml_lines_nested [where ds = "[]"]) (use validator_entries_ok [OF assms] in auto)
  finally show ?thesis by auto
qed

lemma yaml_knobs_all:
  "\<forall>k \<in> set ks. writable_knob rnd fr k \<Longrightarrow>
   \<exists>st'. yaml_lines (concat (map (knob_lines fr) ks)) st = Inr st' \<and>
     y_top st' = y_top st \<and> yaml_knobs st' = yaml_knobs st @ map (raw_knob fr) ks"
proof (induction ks arbitrary: st)
  case Nil
  then show ?case by simp
next
  case (Cons k ks)
  from Cons.prems have "writable_knob rnd fr k" by simp
  then obtain b where b: "yaml_lines (knob_lines fr k) st =
      Inr (st\<lparr>y_done := yaml_knobs st, y_in_validator := b, y_cur := Some (raw_knob fr k)\<rparr>)"
    using yaml_knob by blast
  from Cons.prems show ?case
    using Cons.IH [of "st\<lparr>y_done := yaml_knobs st, y_in_validator := b, y_cur := Some (raw_knob fr k)\<rparr>"]
    by (auto simp: yaml_lines_append b yaml_knobs_def)
qed

section \<open>Building the knobs, and the whole text\<close>

lemma parse_choices_join:
  assumes "\<forall>c \<in> set ws. plain c \<and> CHR '','' \<notin> set c" and "ws \<noteq> []"
  shows "parse_choices (join '','' ws) = ws"
proof -
  have "map strip ws = ws"
    using assms(1) plain_hd strip_id by (intro map_idI) blast
  moreover have "filter (\<lambda>c. c \<noteq> []) ws = ws"
    using assms(1) by (auto simp: filter_id_conv plain_def)
  ultimately show ?thesis
    using assms by (simp add: parse_choices_def split_on_join)
qed

lemma build_raw_knob:
  assumes "writable_knob rnd fr k"
  shows "build_knob rnd (raw_knob fr k) = Inr k"
proof -
  have f: "parse_float rnd (fr f) = Some f" if "vmin k = Some f \<or> vmax k = Some f" for f
    using assms that by (auto simp: writable_knob_def)
  have c: "choices k \<noteq> [] \<Longrightarrow> parse_choices (join '','' (choices k)) = choices k"
    using assms by (intro parse_choices_join) (auto simp: writable_knob_def)
  have e: "parse_choices [] = []" by (simp add: parse_choices_def strip_def rstrip_def lstrip_def)
  show ?thesis
    by (cases k; cases "vmin k"; cases "vmax k"; cases "max_source k"; cases "choices k = []")
      (use f c in \<open>simp_all add: build_knob_def raw_knob_def required_def validator_of_def bound_def
        validator_entries_def get_or_def float_of_str_def e\<close>)
qed

lemma build_raw_knobs:
  "\<forall>k \<in> set ks. writable_knob rnd fr k \<Longrightarrow> build_knobs rnd (map (raw_knob fr) ks) = Inr ks"
  by (induction ks) (auto simp: build_raw_knob)

lemma make_manifest_knobs:
  "wf_dict (ds @ d) \<Longrightarrow> \<forall>(key, k) \<in> set d. key = k_field k \<Longrightarrow>
   foldl (\<lambda>d k. dset (k_field k) k d) ds (map snd d) = ds @ d"
proof (induction d arbitrary: ds)
  case (Cons p d)
  obtain key k where p: "p = (key, k)" by (cases p)
  have "key \<notin> set (keys ds)" using Cons.prems(1) by (auto simp: wf_dict_def p)
  then have "dset (k_field k) k ds = ds @ [p]"
    using Cons.prems(2) by (simp add: p dset_new)
  then show ?case
    using Cons.IH [of "ds @ [p]"] Cons.prems by (simp add: p)
qed simp

definition one_line :: "string \<Rightarrow> bool" where
  "one_line s \<longleftrightarrow> (\<forall>c \<in> set s. \<not> is_linesep c)"

lemma not_linesep [simp]:
  "\<not> is_linesep CHR '' ''" "\<not> is_linesep CHR '':''" "\<not> is_linesep CHR 0x22" "\<not> is_linesep CHR ''-''"
  by (simp_all add: is_linesep_def)

lemma one_line_simps [simp]:
  "one_line []" "one_line (c # s) \<longleftrightarrow> \<not> is_linesep c \<and> one_line s"
  "one_line (a @ b) \<longleftrightarrow> one_line a \<and> one_line b"
  by (auto simp: one_line_def)

lemma one_line_indent [simp]: "one_line (indent n s) \<longleftrightarrow> one_line s"
  by (auto simp: one_line_def indent_def)

lemma one_line_entry [simp]: "one_line (entry key v) \<longleftrightarrow> one_line key \<and> one_line v"
  by (auto simp: entry_def)

lemma one_line_quoted [simp]: "one_line (quoted s) \<longleftrightarrow> one_line s"
  by (auto simp: quoted_def)

lemma one_line_field [simp]: "one_line (field_line s) \<longleftrightarrow> one_line s"
  by (simp add: field_line_def) (simp add: is_linesep_def)

lemma linesep_is_space: "is_linesep c \<Longrightarrow> is_space c"
  by (auto simp: is_space_def is_linesep_def)

lemma one_line_plain: "plain s \<Longrightarrow> one_line s"
  unfolding plain_def one_line_def using linesep_is_space by blast

lemma one_line_knob:
  assumes "writable_knob rnd fr k" and "l \<in> set (knob_lines fr k)"
  shows "one_line l"
proof -
  have "one_line (k_field k)" "one_line (klass k)"
    using assms(1) by (auto simp: writable_knob_def one_line_plain)
  moreover have "one_line key \<and> one_line v" if "(key, v) \<in> set (validator_entries fr k)" for key v
    using validator_entries_ok(1) [OF assms(1)] that by (auto simp: plain_key_def one_line_plain)
  ultimately show ?thesis
    using assms(2) by (auto simp: knob_lines_def is_linesep_def)
qed

lemma one_line_manifest:
  assumes "writable rnd fr m"
  shows "\<forall>l \<in> set (manifest_lines fr m). one_line l"
proof -
  have "one_line (m_engine m)" "one_line (engine_commit m)"
    using assms by (auto simp: writable_def one_line_plain)
  then show ?thesis
    using assms one_line_knob by (fastforce simp: manifest_lines_def writable_def is_linesep_def)
qed

lemma splitlines_concat:
  "\<forall>l \<in> set ls. one_line l \<Longrightarrow> splitlines (concat (map (\<lambda>l. l @ [CHR 0x0A]) ls)) = ls"
  by (induction ls) (auto simp: splitlines_line one_line_def)

lemma yaml_header:
  assumes "plain eng" and "plain commit"
  shows "yaml_lines [entry ''engine'' eng, entry ''engine_commit'' (quoted commit), ''knobs:''] yaml_start =
    Inr (yaml_start\<lparr>y_top := [(''engine'', eng), (''engine_commit'', commit)]\<rparr>)"
proof -
  have k: "plain_key ''engine''" "plain_key ''engine_commit''"
    by (simp_all add: plain_key_def plain_def is_space_def)
  then have p: "plain ''engine''" "plain ''engine_commit''" by (simp_all add: plain_key_def)
  have "yaml_line (entry ''engine'' eng) yaml_start =
      Inr (yaml_start\<lparr>y_top := [(''engine'', eng)]\<rparr>)"
    using yaml_line_top [OF body_ok_entry [OF p(1) assms(1)], of yaml_start]
    by (simp add: key_value_entry [OF k(1) assms(1)] entry_not_word yaml_start_def)
  moreover have "yaml_line (entry ''engine_commit'' (quoted commit)) (yaml_start\<lparr>y_top := [(''engine'', eng)]\<rparr>) =
      Inr (yaml_start\<lparr>y_top := [(''engine'', eng), (''engine_commit'', commit)]\<rparr>)"
    using yaml_line_top [OF body_ok_quoted [OF p(2) assms(2)]]
    by (simp add: key_value_quoted [OF k(2) assms(2)] entry_not_word yaml_start_def)
  moreover have "body_ok ''knobs:''" by (simp add: body_ok_def is_space_def)
  ultimately show ?thesis
    by (simp add: yaml_line_top yaml_start_def)
qed

text \<open>
  C2. Reading back a manifest written in the repository's YAML subset gives the manifest, for
  every manifest whose names are plain words and whose bounds Python prints and reads back.
\<close>

theorem load_manifest_text:
  assumes "writable rnd fr m"
  shows "load rnd (manifest_text fr m) = Inr m"
proof -
  let ?ks = "map snd (knobs m)"
  have ks: "\<forall>k \<in> set ?ks. writable_knob rnd fr k" and key: "\<forall>(key, k) \<in> set (knobs m). key = k_field k"
    and wf: "wf_dict (knobs m)" and p: "plain (m_engine m)" "plain (engine_commit m)"
    using assms by (auto simp: writable_def)
  have lines: "splitlines (manifest_text fr m) = manifest_lines fr m"
    using one_line_manifest [OF assms] by (simp add: manifest_text_def splitlines_concat)
  obtain st where st:
    "yaml_lines (concat (map (knob_lines fr) ?ks))
       (yaml_start\<lparr>y_top := [(''engine'', m_engine m), (''engine_commit'', engine_commit m)]\<rparr>) = Inr st"
    "y_top st = [(''engine'', m_engine m), (''engine_commit'', engine_commit m)]"
    "yaml_knobs st = map (raw_knob fr) ?ks"
    using yaml_knobs_all [OF ks] by (fastforce simp: yaml_start_def yaml_knobs_def)
  have "parse_yaml (manifest_text fr m) = Inr (y_top st, yaml_knobs st)"
    unfolding parse_yaml_def lines manifest_lines_def
    by (simp only: yaml_lines_append yaml_header [OF p] sum.case st(1))
  moreover have "build_knobs rnd (yaml_knobs st) = Inr ?ks"
    by (simp only: st(3) build_raw_knobs [OF ks])
  moreover have "foldl (\<lambda>d k. dset (k_field k) k d) [] ?ks = knobs m"
    using make_manifest_knobs [of "[]" "knobs m"] key wf by simp
  ultimately show ?thesis
    by (simp add: load_def st(2) top_entry_def make_manifest_def)
qed

lemma demo_writable: "writable Fin (\<lambda>_. ''1'') demo_manifest"
proof -
  have "plain ''max_running_requests'' \<and> plain ''tp_size'' \<and> plain ''hot'' \<and> plain ''cold'' \<and> plain ''int'' \<and>
      plain ''boot_value'' \<and> plain ''sglang'' \<and> plain ''3315356'' \<and> plain ''1''"
    by (simp add: plain_def is_space_def)
  moreover have "parse_float Fin ''1'' = Some (Fin 1)" by code_simp
  ultimately show ?thesis
    by (simp add: writable_def writable_knob_def demo_knobs demo_cap_def demo_tp_def HOT_def COLD_def)
      (simp add: demo_manifest_def make_manifest_def)
qed

theorem load_manifest_text_witness: "load Fin (manifest_text (\<lambda>_. ''1'') demo_manifest) = Inr demo_manifest"
  by (rule load_manifest_text [OF demo_writable])

end
