(* ===== verification/Store.thy ===== *)
theory Store
  imports Py_Values
begin

text \<open>
  The config store (\<open>trimtab/store.py\<close>). The state is the five tables of the schema, the two
  autoincrement counters and the wall clock the store reads; each method is a statement over
  that state, one SQL statement after the other, raising what the code raises. A text column
  written with \<open>json.dumps\<close> and read with \<open>json.loads\<close> holds the value itself, with its keys
  sorted where the code sorts them. One model serves SQLite and Postgres, whose statements
  differ in spelling only.

  After the operations: the invariant of the tables, what each operation promises, the runs of
  the store, and the interface a replica's daemon relies on.
\<close>

section \<open>The tables\<close>

record config_version =
  cv_id :: int
  cv_group :: string
  cv_parent :: "int option"
  cv_fields :: fields
  cv_created_by :: string
  cv_reason :: string
  cv_created_at :: pyfloat

record canary_row =
  c_id :: int
  c_group :: string
  c_candidate :: int
  c_baseline :: "int option"
  c_scope :: "string list"
  c_gates :: "fields list"
  c_window_s :: pyfloat
  c_status :: string
  c_started_at :: pyfloat
  c_decided_at :: "pyfloat option"
  c_decision :: string

record status_row =
  s_replica_id :: string
  s_group :: string
  s_applied :: "int option"
  s_state :: string
  s_detail :: string
  s_heartbeat :: pyfloat

text \<open>
  \<open>desired_state\<close> and \<open>replica_override\<close> have a text primary key, and so has
  \<open>replica_status\<close>: they are dictionaries. \<open>clock n\<close> is the \<open>n\<close>-th reading of \<open>time.time()\<close>.
\<close>

record store =
  t_version :: "config_version list"
  version_seq :: int
  t_desired :: "(int \<times> pyfloat) dict"
  t_override :: "(int \<times> int) dict"
  t_canary :: "canary_row list"
  canary_seq :: int
  t_status :: "status_row dict"
  clock :: "nat \<Rightarrow> pyfloat"
  clock_reads :: nat

definition empty_store :: "(nat \<Rightarrow> pyfloat) \<Rightarrow> store" where
  "empty_store clk =
     \<lparr>t_version = [], version_seq = 0, t_desired = [], t_override = [], t_canary = [],
      canary_seq = 0, t_status = [], clock = clk, clock_reads = 0\<rparr>"

definition time_now :: "(store, pyfloat) stmt" where
  "time_now s = (Inr (clock s (clock_reads s)), s\<lparr>clock_reads := Suc (clock_reads s)\<rparr>)"

section \<open>Versions and the desired state\<close>

definition version :: "int \<Rightarrow> (store, config_version) stmt" where
  "version vid s =
     (case find (\<lambda>v. cv_id v = vid) (t_version s) of
        None \<Rightarrow> (Inl (KeyError (''no config_version '' @ show_int vid)), s)
      | Some v \<Rightarrow> (Inr v, s))"

definition desired :: "string \<Rightarrow> (store, config_version option) stmt" where
  "desired grp s =
     (case map_of (t_desired s) grp of
        None \<Rightarrow> (Inr None, s)
      | Some (vid, _) \<Rightarrow> andthen (version vid) (\<lambda>v. ret (Some v)) s)"

definition desired_for :: "string \<Rightarrow> string \<Rightarrow> (store, config_version option) stmt" where
  "desired_for replica_id grp s =
     (case map_of (t_override s) replica_id of
        None \<Rightarrow> desired grp s
      | Some (vid, _) \<Rightarrow> andthen (version vid) (\<lambda>v. ret (Some v)) s)"

definition insert_version ::
  "string \<Rightarrow> int option \<Rightarrow> fields \<Rightarrow> string \<Rightarrow> string \<Rightarrow> pyfloat \<Rightarrow> (store, int) stmt" where
  "insert_version grp parent flds created_by reason now s =
     (let new_id = version_seq s + 1 in
      (Inr new_id,
       s\<lparr>version_seq := new_id,
         t_version := t_version s @
           [\<lparr>cv_id = new_id, cv_group = grp, cv_parent = parent, cv_fields = sorted_fields flds,
             cv_created_by = created_by, cv_reason = reason, cv_created_at = now\<rparr>]\<rparr>))"

definition propose :: "string \<Rightarrow> fields \<Rightarrow> string \<Rightarrow> string \<Rightarrow> (store, config_version) stmt" where
  "propose grp flds created_by reason =
     andthen (desired grp) (\<lambda>parent.
     andthen time_now (\<lambda>now.
     andthen (insert_version grp (map_option cv_id parent) flds created_by reason now) (\<lambda>new_id.
     version new_id)))"

definition wrong_group :: "int \<Rightarrow> string \<Rightarrow> string \<Rightarrow> exn" where
  "wrong_group vid owner grp =
     ValueError (''version '' @ show_int vid @ '' belongs to group '' @ repr_str owner @
       '', not '' @ repr_str grp)"

definition upsert_desired :: "string \<Rightarrow> int \<Rightarrow> pyfloat \<Rightarrow> (store, unit) stmt" where
  "upsert_desired grp vid now s = (Inr (), s\<lparr>t_desired := dset grp (vid, now) (t_desired s)\<rparr>)"

definition promote :: "string \<Rightarrow> int \<Rightarrow> (store, unit) stmt" where
  "promote grp version_id =
     andthen (version version_id) (\<lambda>v.
     if cv_group v \<noteq> grp then raise (wrong_group version_id (cv_group v) grp)
     else andthen time_now (upsert_desired grp version_id))"

definition rollback :: "string \<Rightarrow> int \<Rightarrow> (store, unit) stmt" where
  "rollback grp to_version_id = promote grp to_version_id"

definition versions :: "string \<Rightarrow> (store, config_version list) stmt" where
  "versions grp s =
     map_stmt version
       (map cv_id (sort_key cv_id (filter (\<lambda>v. cv_group v = grp) (t_version s)))) s"

section \<open>Overrides and canaries\<close>

definition set_override :: "int \<Rightarrow> int \<Rightarrow> string \<Rightarrow> (store, unit) stmt" where
  "set_override version_id canary_id r s =
     (Inr (), s\<lparr>t_override := dset r (version_id, canary_id) (t_override s)\<rparr>)"

definition set_overrides :: "string list \<Rightarrow> int \<Rightarrow> int \<Rightarrow> (store, unit) stmt" where
  "set_overrides replica_ids version_id canary_id =
     for_each (set_override version_id canary_id) replica_ids"

definition clear_overrides :: "int \<Rightarrow> (store, unit) stmt" where
  "clear_overrides canary_id s =
     (Inr (), s\<lparr>t_override := filter (\<lambda>(r, (v, c)). c \<noteq> canary_id) (t_override s)\<rparr>)"

definition insert_canary ::
  "string \<Rightarrow> int \<Rightarrow> int option \<Rightarrow> string list \<Rightarrow> fields list \<Rightarrow> pyfloat \<Rightarrow> pyfloat \<Rightarrow> (store, int) stmt" where
  "insert_canary grp candidate baseline scope gates window_s now s =
     (let new_id = canary_seq s + 1 in
      (Inr new_id,
       s\<lparr>canary_seq := new_id,
         t_canary := t_canary s @
           [\<lparr>c_id = new_id, c_group = grp, c_candidate = candidate, c_baseline = baseline,
             c_scope = sort scope, c_gates = gates, c_window_s = window_s, c_status = ''observing'',
             c_started_at = now, c_decided_at = None, c_decision = []\<rparr>]\<rparr>))"

definition open_canary ::
  "string \<Rightarrow> int \<Rightarrow> string list \<Rightarrow> fields list \<Rightarrow> pyfloat \<Rightarrow> (store, int) stmt" where
  "open_canary grp candidate_id scope gates window_s =
     andthen (desired grp) (\<lambda>base.
     andthen time_now
       (insert_canary grp candidate_id (map_option cv_id base) scope gates window_s))"

definition canary :: "int \<Rightarrow> (store, canary_row) stmt" where
  "canary canary_id s =
     (case find (\<lambda>c. c_id c = canary_id) (t_canary s) of
        None \<Rightarrow> (Inl (KeyError (''no canary '' @ show_int canary_id)), s)
      | Some c \<Rightarrow> (Inr c, s))"

definition update_canary :: "int \<Rightarrow> string \<Rightarrow> string \<Rightarrow> pyfloat \<Rightarrow> (store, unit) stmt" where
  "update_canary canary_id new_status decision now s =
     (Inr (), s\<lparr>t_canary := map (\<lambda>c. if c_id c = canary_id
        then c\<lparr>c_status := new_status, c_decided_at := Some now, c_decision := decision\<rparr> else c)
        (t_canary s)\<rparr>)"

definition close_canary :: "int \<Rightarrow> string \<Rightarrow> string \<Rightarrow> (store, unit) stmt" where
  "close_canary canary_id new_status decision =
     andthen time_now (update_canary canary_id new_status decision)"

section \<open>Replica status\<close>

definition upsert_status ::
  "string \<Rightarrow> string \<Rightarrow> int option \<Rightarrow> string \<Rightarrow> string \<Rightarrow> pyfloat \<Rightarrow> (store, unit) stmt" where
  "upsert_status replica_id grp applied state detail now s =
     (Inr (), s\<lparr>t_status := dset replica_id
        \<lparr>s_replica_id = replica_id, s_group = grp, s_applied = applied, s_state = state,
         s_detail = detail, s_heartbeat = now\<rparr> (t_status s)\<rparr>)"

definition record_status ::
  "string \<Rightarrow> string \<Rightarrow> int option \<Rightarrow> string \<Rightarrow> string \<Rightarrow> (store, unit) stmt" where
  "record_status replica_id grp applied state detail =
     andthen time_now (upsert_status replica_id grp applied state detail)"

definition status :: "string \<Rightarrow> (store, status_row list) stmt" where
  "status grp s =
     (Inr (sort_key s_replica_id (filter (\<lambda>r. s_group r = grp) (map snd (t_status s)))), s)"

section \<open>Reads leave the tables alone\<close>

lemma version_state [simp]: "snd (version vid s) = s"
  by (simp add: version_def split: option.splits)

lemma desired_state [simp]: "snd (desired grp s) = s"
  by (auto simp: desired_def andthen_def split: option.splits prod.splits sum.splits)
    (metis version_state snd_conv)+

lemma desired_for_state [simp]: "snd (desired_for r grp s) = s"
  by (auto simp: desired_for_def andthen_def split: option.splits prod.splits sum.splits)
    (metis version_state desired_state snd_conv)+

lemma canary_state [simp]: "snd (canary cid s) = s"
  by (simp add: canary_def split: option.splits)

lemma desired_for_eq: "desired_for r grp s = (fst (desired_for r grp s), s)"
  by (metis desired_for_state prod.collapse)

lemma status_state [simp]: "snd (status grp s) = s"
  by (simp add: status_def)

section \<open>The invariant of the tables\<close>

text \<open>
  Version ids are handed out in increasing order and never above the counter; a parent is an
  older version of the same group; the desired version of a group exists and belongs to it;
  canary ids increase; every status row carries its key. Overrides carry no foreign key in the
  schema, and none is promised here.
\<close>

definition version_in :: "store \<Rightarrow> int \<Rightarrow> string \<Rightarrow> bool" where
  "version_in s i grp \<longleftrightarrow> (\<exists>v \<in> set (t_version s). cv_id v = i \<and> cv_group v = grp)"

definition wf_versions :: "store \<Rightarrow> bool" where
  "wf_versions s \<longleftrightarrow>
     sorted_wrt (<) (map cv_id (t_version s)) \<and> 0 \<le> version_seq s \<and>
     (\<forall>v \<in> set (t_version s). 0 < cv_id v \<and> cv_id v \<le> version_seq s \<and>
        (\<forall>p. cv_parent v = Some p \<longrightarrow> p < cv_id v \<and> version_in s p (cv_group v)))"

definition wf_desired :: "store \<Rightarrow> bool" where
  "wf_desired s \<longleftrightarrow> wf_dict (t_desired s) \<and>
     (\<forall>g i t. map_of (t_desired s) g = Some (i, t) \<longrightarrow> version_in s i g)"

definition wf_canaries :: "store \<Rightarrow> bool" where
  "wf_canaries s \<longleftrightarrow>
     sorted_wrt (<) (map c_id (t_canary s)) \<and> 0 \<le> canary_seq s \<and>
     (\<forall>c \<in> set (t_canary s). 0 < c_id c \<and> c_id c \<le> canary_seq s)"

definition wf_status :: "store \<Rightarrow> bool" where
  "wf_status s \<longleftrightarrow> wf_dict (t_override s) \<and> wf_dict (t_status s) \<and>
     (\<forall>r row. map_of (t_status s) r = Some row \<longrightarrow> s_replica_id row = r)"

definition wf_store :: "store \<Rightarrow> bool" where
  "wf_store s \<longleftrightarrow> wf_versions s \<and> wf_desired s \<and> wf_canaries s \<and> wf_status s"

lemmas wf_store_defs = wf_store_def wf_versions_def wf_desired_def wf_canaries_def wf_status_def

lemma wf_empty_store: "wf_store (empty_store clk)"
  by (simp add: wf_store_defs empty_store_def)

lemma sorted_ids_distinct: "sorted_wrt (<) (map f xs :: int list) \<Longrightarrow> distinct (map f xs)"
  by (induction xs) auto

lemma find_by_id:
  "distinct (map f xs) \<Longrightarrow> x \<in> set xs \<Longrightarrow> find (\<lambda>y. f y = f x) xs = Some x"
  by (induction xs) auto

lemma version_run:
  "wf_versions s \<Longrightarrow> v \<in> set (t_version s) \<Longrightarrow> version (cv_id v) s = (Inr v, s)"
  by (simp add: version_def wf_versions_def find_by_id sorted_ids_distinct)

lemma version_Inr: "version i s = (Inr v, t) \<Longrightarrow> v \<in> set (t_version s) \<and> cv_id v = i \<and> t = s"
  by (auto simp: version_def find_Some_iff split: option.splits)

lemma version_Inl: "version i s = (Inl e, t) \<Longrightarrow>
    e = KeyError (''no config_version '' @ show_int i) \<and> t = s \<and> (\<forall>v \<in> set (t_version s). cv_id v \<noteq> i)"
  by (auto simp: version_def find_None_iff split: option.splits)

lemma canary_Inr: "canary i s = (Inr c, t) \<Longrightarrow> c \<in> set (t_canary s) \<and> c_id c = i \<and> t = s"
  by (auto simp: canary_def find_Some_iff split: option.splits)

lemma canary_run: "wf_canaries s \<Longrightarrow> c \<in> set (t_canary s) \<Longrightarrow> canary (c_id c) s = (Inr c, s)"
  by (simp add: canary_def wf_canaries_def find_by_id sorted_ids_distinct)

lemma find_append_new: "\<forall>v \<in> set vs. f v \<noteq> i \<Longrightarrow> f w = i \<Longrightarrow> find (\<lambda>v. f v = i) (vs @ [w]) = Some w"
  by (induction vs) auto

text \<open>Under the invariant the desired version of a group is always found.\<close>

lemma desired_total:
  assumes "wf_store s"
  obtains "map_of (t_desired s) grp = None" and "desired grp s = (Inr None, s)"
  | v t where "map_of (t_desired s) grp = Some (cv_id v, t)" and "v \<in> set (t_version s)"
      and "cv_group v = grp" and "desired grp s = (Inr (Some v), s)"
proof (cases "map_of (t_desired s) grp")
  case None
  then show ?thesis using that(1) by (simp add: desired_def)
next
  case (Some p)
  obtain i t where p: "p = (i, t)" by (cases p)
  with assms Some obtain v where v: "v \<in> set (t_version s)" "cv_id v = i" "cv_group v = grp"
    by (auto simp: wf_store_def wf_desired_def version_in_def)
  moreover from v assms have "version i s = (Inr v, s)"
    by (auto simp: wf_store_def intro: version_run)
  ultimately show ?thesis
    using Some p by (intro that(2) [of v t]) (simp_all add: desired_def)
qed

section \<open>What each operation does\<close>

text \<open>The clock is read once by every operation that writes a time.\<close>

abbreviation now_of :: "store \<Rightarrow> pyfloat" where
  "now_of s \<equiv> clock s (clock_reads s)"

abbreviation tick_clock :: "store \<Rightarrow> store" where
  "tick_clock s \<equiv> s\<lparr>clock_reads := Suc (clock_reads s)\<rparr>"

definition new_version :: "string \<Rightarrow> int option \<Rightarrow> fields \<Rightarrow> string \<Rightarrow> string \<Rightarrow> store \<Rightarrow> config_version" where
  "new_version grp parent flds created_by reason s =
     \<lparr>cv_id = version_seq s + 1, cv_group = grp, cv_parent = parent, cv_fields = sorted_fields flds,
      cv_created_by = created_by, cv_reason = reason, cv_created_at = now_of s\<rparr>"

lemma propose_run:
  assumes "wf_store s" and "desired grp s = (Inr parent, s)"
  shows "propose grp flds created_by reason s =
    (Inr (new_version grp (map_option cv_id parent) flds created_by reason s),
     s\<lparr>version_seq := version_seq s + 1,
       t_version := t_version s @ [new_version grp (map_option cv_id parent) flds created_by reason s],
       clock_reads := Suc (clock_reads s)\<rparr>)"
proof -
  have "\<forall>v \<in> set (t_version s). cv_id v \<noteq> version_seq s + 1"
    using assms(1) by (force simp: wf_store_def wf_versions_def)
  then have "find (\<lambda>v. cv_id v = version_seq s + 1) (t_version s @ [w]) = Some w"
    if "cv_id w = version_seq s + 1" for w
    using that by (rule find_append_new)
  then show ?thesis
    using assms(2)
    by (simp add: propose_def time_now_def insert_version_def version_def new_version_def Let_def)
qed

lemma promote_run:
  assumes "wf_versions s" and "v \<in> set (t_version s)"
  shows "promote (cv_group v) (cv_id v) s =
    (Inr (), (tick_clock s)\<lparr>t_desired := dset (cv_group v) (cv_id v, now_of s) (t_desired s)\<rparr>)"
  using version_run [OF assms] by (simp add: promote_def time_now_def upsert_desired_def)

lemma promote_cases:
  obtains v where "v \<in> set (t_version s)" and "cv_id v = i" and "cv_group v = grp"
      and "promote grp i s =
        (Inr (), (tick_clock s)\<lparr>t_desired := dset grp (i, now_of s) (t_desired s)\<rparr>)"
  | v where "v \<in> set (t_version s)" and "cv_id v = i" and "cv_group v \<noteq> grp"
      and "promote grp i s = (Inl (wrong_group i (cv_group v) grp), s)"
  | "\<forall>v \<in> set (t_version s). cv_id v \<noteq> i"
      and "promote grp i s = (Inl (KeyError (''no config_version '' @ show_int i)), s)"
proof (cases "version i s")
  case (Pair r t)
  show ?thesis
  proof (cases r)
    case (Inl e)
    then show ?thesis using that(3) Pair version_Inl [of i s e t] by (simp add: promote_def)
  next
    case (Inr v)
    then have v: "v \<in> set (t_version s)" "cv_id v = i" "t = s"
      using version_Inr Pair by blast+
    then show ?thesis
      using that(1,2) Pair Inr
      by (cases "cv_group v = grp") (simp_all add: promote_def time_now_def upsert_desired_def)
  qed
qed

lemma set_overrides_run:
  "set_overrides rs i c s =
     (Inr (), s\<lparr>t_override := foldl (\<lambda>d r. dset r (i, c) d) (t_override s) rs\<rparr>)"
  unfolding set_overrides_def
  by (induction rs arbitrary: s) (simp_all add: set_override_def)

lemma open_canary_run:
  assumes "desired grp s = (Inr base, s)"
  shows "open_canary grp cand scope gates w s =
    (Inr (canary_seq s + 1),
     (tick_clock s)\<lparr>canary_seq := canary_seq s + 1,
       t_canary := t_canary s @
         [\<lparr>c_id = canary_seq s + 1, c_group = grp, c_candidate = cand,
           c_baseline = map_option cv_id base, c_scope = sort scope, c_gates = gates, c_window_s = w,
           c_status = ''observing'', c_started_at = now_of s, c_decided_at = None, c_decision = []\<rparr>]\<rparr>)"
  using assms by (simp add: open_canary_def time_now_def insert_canary_def Let_def)

lemma close_canary_run:
  "close_canary cid st dec s =
     (Inr (), (tick_clock s)\<lparr>t_canary := map (\<lambda>c. if c_id c = cid
        then c\<lparr>c_status := st, c_decided_at := Some (now_of s), c_decision := dec\<rparr> else c) (t_canary s)\<rparr>)"
  by (simp add: close_canary_def time_now_def update_canary_def)

lemma record_status_run:
  "record_status r grp a st d s =
     (Inr (), (tick_clock s)\<lparr>t_status := dset r
        \<lparr>s_replica_id = r, s_group = grp, s_applied = a, s_state = st, s_detail = d,
         s_heartbeat = now_of s\<rparr> (t_status s)\<rparr>)"
  by (simp add: record_status_def time_now_def upsert_status_def)

lemma map_of_set_overrides:
  "map_of (foldl (\<lambda>d r. dset r p d) d rs) r = (if r \<in> set rs then Some p else map_of d r)"
  by (induction rs arbitrary: d) auto

lemma wf_set_overrides: "wf_dict d \<Longrightarrow> wf_dict (foldl (\<lambda>d r. dset r p d) d rs)"
  by (induction rs arbitrary: d) auto

end
