(* ===== verification/Interfaces.thy ===== *)
theory Interfaces
  imports Store
begin

text \<open>
  The three interfaces of the program, each a record of the methods its client calls, as the
  sources use them by duck typing: the store (\<open>Store\<close> or \<open>RemoteStore\<close>), the engine adapter
  (\<open>SGLangAdapter\<close> or \<open>VLLMAdapter\<close>), and the HTTP endpoint of an engine that the adapters talk
  to. The locales state what a client relies on; each is interpreted in the theory of the
  component that provides it.
\<close>

section \<open>The store\<close>

record 's store_api =
  api_propose :: "string \<Rightarrow> fields \<Rightarrow> string \<Rightarrow> string \<Rightarrow> ('s, config_version) stmt"
  api_promote :: "string \<Rightarrow> int \<Rightarrow> ('s, unit) stmt"
  api_rollback :: "string \<Rightarrow> int \<Rightarrow> ('s, unit) stmt"
  api_desired :: "string \<Rightarrow> ('s, config_version option) stmt"
  api_desired_for :: "string \<Rightarrow> string \<Rightarrow> ('s, config_version option) stmt"
  api_version :: "int \<Rightarrow> ('s, config_version) stmt"
  api_versions :: "string \<Rightarrow> ('s, config_version list) stmt"
  api_record_status :: "string \<Rightarrow> string \<Rightarrow> int option \<Rightarrow> string \<Rightarrow> string \<Rightarrow> ('s, unit) stmt"
  api_status :: "string \<Rightarrow> ('s, status_row list) stmt"
  api_open_canary :: "string \<Rightarrow> int \<Rightarrow> string list \<Rightarrow> fields list \<Rightarrow> pyfloat \<Rightarrow> ('s, int) stmt"
  api_canary :: "int \<Rightarrow> ('s, canary_row) stmt"
  api_close_canary :: "int \<Rightarrow> string \<Rightarrow> string \<Rightarrow> ('s, unit) stmt"
  api_set_overrides :: "string list \<Rightarrow> int \<Rightarrow> int \<Rightarrow> ('s, unit) stmt"
  api_clear_overrides :: "int \<Rightarrow> ('s, unit) stmt"

definition local_store :: "store store_api" where
  "local_store =
     \<lparr>api_propose = propose, api_promote = promote, api_rollback = rollback, api_desired = desired,
      api_desired_for = desired_for, api_version = version, api_versions = versions,
      api_record_status = record_status, api_status = status, api_open_canary = open_canary,
      api_canary = canary, api_close_canary = close_canary, api_set_overrides = set_overrides,
      api_clear_overrides = clear_overrides\<rparr>"

text \<open>
  What a replica's daemon relies on: reading its target changes nothing, and reporting a status
  always succeeds, is what the next reader of the status sees, and moves no replica's target.
\<close>

type_synonym report = "string \<times> int option \<times> string \<times> string"

locale replica_store =
  fixes api :: "'s store_api"
    and target :: "'s \<Rightarrow> string \<Rightarrow> string \<Rightarrow> exn + config_version option"
    and reported :: "'s \<Rightarrow> string \<Rightarrow> report option"
    and inv :: "'s \<Rightarrow> bool"
    and named :: "string \<Rightarrow> bool"
  assumes desired_for_target:
      "inv s \<Longrightarrow> named r \<Longrightarrow> named g \<Longrightarrow> api_desired_for api r g s = (target s r g, s)"
    and record_ok: "inv s \<Longrightarrow> named r \<Longrightarrow> named g \<Longrightarrow> fst (api_record_status api r g a st d s) = Inr ()"
    and record_inv: "inv s \<Longrightarrow> named r \<Longrightarrow> named g \<Longrightarrow> inv (snd (api_record_status api r g a st d s))"
    and record_target: "inv s \<Longrightarrow> named r \<Longrightarrow> named g \<Longrightarrow>
      target (snd (api_record_status api r g a st d s)) = target s"
    and record_reported: "inv s \<Longrightarrow> named r \<Longrightarrow> named g \<Longrightarrow>
      reported (snd (api_record_status api r g a st d s)) = (reported s)(r \<mapsto> (g, a, st, d))"

section \<open>Engines over HTTP\<close>

text \<open>
  An endpoint answers a POST of a JSON body to a path with a status and a body, and a GET
  likewise; an answer of an error status is an answer, a dropped connection an exception.
  \<open>h_sleep\<close> is what happens to the engine while the client waits.
\<close>

record 'e http =
  h_post :: "string \<Rightarrow> json \<Rightarrow> ('e, int \<times> json) stmt"
  h_get :: "string \<Rightarrow> ('e, int \<times> json) stmt"
  h_sleep :: "('e, unit) stmt"

section \<open>Adapters\<close>

record apply_result =
  r_ok :: bool
  r_applied :: fields
  r_rejected :: fields
  r_http_status :: int

definition applied_nothing :: apply_result where
  "applied_nothing = \<lparr>r_ok = True, r_applied = [], r_rejected = [], r_http_status = 0\<rparr>"

record 'e adapter =
  a_set_hot :: "fields \<Rightarrow> ('e, apply_result) stmt"
  a_reinit_warm :: "fields \<Rightarrow> ('e, apply_result) stmt"
  a_read_knobs :: "('e, fields) stmt"
  a_warm :: "string list"

text \<open>
  What a daemon relies on when it pushes hot fields: if the adapter reports success, every
  field it was given is in force in the engine, and no other knob has moved. \<open>knobs_of\<close> is the
  engine's live configuration and \<open>in_force\<close> relates a requested value to the live one.
\<close>

locale hot_adapter =
  fixes ad :: "'e adapter"
    and knobs_of :: "'e \<Rightarrow> fields"
    and in_force :: "string \<Rightarrow> json \<Rightarrow> json \<Rightarrow> bool"
    and einv :: "'e \<Rightarrow> bool"
    and pushable :: "fields \<Rightarrow> bool"
  assumes set_hot_in_force:
      "einv e \<Longrightarrow> pushable changes \<Longrightarrow> a_set_hot ad changes e = (Inr r, e') \<Longrightarrow> r_ok r \<Longrightarrow>
       map_of changes k = Some v \<Longrightarrow> \<exists>w. map_of (knobs_of e') k = Some w \<and> in_force k v w"
    and set_hot_frame:
      "einv e \<Longrightarrow> pushable changes \<Longrightarrow> map_of changes k = None \<Longrightarrow>
       map_of (knobs_of (snd (a_set_hot ad changes e))) k = map_of (knobs_of e) k"
    and set_hot_inv: "einv e \<Longrightarrow> pushable changes \<Longrightarrow> einv (snd (a_set_hot ad changes e))"

text \<open>
  An adapter that also tells in advance which pushes succeed: those the engine finds acceptable.
\<close>

locale live_adapter = hot_adapter +
  fixes acceptable :: "'a \<Rightarrow> fields \<Rightarrow> bool"
  assumes set_hot_accepts: "einv e \<Longrightarrow> pushable changes \<Longrightarrow> acceptable e changes \<Longrightarrow>
      \<exists>r e'. a_set_hot ad changes e = (Inr r, e') \<and> r_ok r"

end
