(* ===== verification/Mock_Engine.thy ===== *)
theory Mock_Engine
  imports Interfaces
begin

text \<open>
  The mock engine (\<open>trimtab/mock_engine.py\<close>): the control surface of SGLang or vLLM without a
  GPU, which the repository's tests drive the whole plane against. The state is \<open>State\<close>; \<open>apply\<close>
  and \<open>reinit\<close> are statements over it, and the two HTTP handlers route to them. An exception in
  a handler drops the connection and keeps what was already changed.
\<close>

section \<open>The state\<close>

record mock =
  mk_engine :: string
  mk_tokens :: int
  mk_knobs :: fields
  mk_ceilings :: "int dict"
  mk_applied_calls :: nat
  mk_last_reinit :: json

definition ceiling_names :: "string list" where
  "ceiling_names = [''max_running_requests'', ''max_num_seqs'', ''max_num_batched_tokens'', ''max_prefill_tokens'']"

definition str_choices :: "string list dict" where
  "str_choices =
     [(''schedule_policy'', [''fcfs'', ''lpm'', ''dfs-weight'', ''lof'', ''random'', ''priority'']),
      (''log_level'', [''DEBUG'', ''INFO'', ''WARNING'', ''ERROR''])]"

definition boot_knobs :: "string \<Rightarrow> int \<Rightarrow> int \<Rightarrow> int \<Rightarrow> int \<Rightarrow> fields" where
  "boot_knobs engine mrr mqr cps tokens =
     (if engine = ''sglang'' then
        [(''max_running_requests'', JInt mrr), (''max_queued_requests'', JInt mqr),
         (''chunked_prefill_size'', JInt cps), (''max_prefill_tokens'', JInt tokens),
         (''schedule_policy'', JStr ''fcfs''), (''schedule_conservativeness'', JFloat (Fin 1)),
         (''log_level'', JStr ''INFO'')]
      else
        [(''max_num_seqs'', JInt mrr), (''max_num_batched_tokens'', JInt tokens),
         (''long_prefill_token_threshold'', JInt 0), (''log_level'', JStr ''INFO'')])"

fun int_entries :: "fields \<Rightarrow> int dict" where
  "int_entries [] = []"
| "int_entries ((k, JInt i) # d) = (k, i) # int_entries d"
| "int_entries (_ # d) = int_entries d"

definition make_mock :: "string \<Rightarrow> int \<Rightarrow> int \<Rightarrow> int \<Rightarrow> int \<Rightarrow> mock" where
  "make_mock engine mrr mqr cps tokens =
     (let ks = boot_knobs engine mrr mqr cps tokens in
      \<lparr>mk_engine = engine, mk_tokens = tokens, mk_knobs = ks,
       mk_ceilings = int_entries (filter (\<lambda>(k, v). k \<in> set ceiling_names) ks),
       mk_applied_calls = 0, mk_last_reinit = JNull\<rparr>)"

section \<open>The warm reinit\<close>

definition reinit_allowed :: "string \<Rightarrow> string list" where
  "reinit_allowed engine =
     (if engine = ''sglang''
      then [''mem_fraction_static'', ''max_total_tokens'', ''kv_cache_dtype'', ''max_running_requests'']
      else [''gpu_memory_utilization'', ''max_num_seqs'', ''max_num_batched_tokens''])"

definition set_tokens :: "int \<Rightarrow> mock \<Rightarrow> mock" where
  "set_tokens i s = s\<lparr>mk_tokens := i\<rparr>"

definition set_knob :: "string \<Rightarrow> json \<Rightarrow> mock \<Rightarrow> mock" where
  "set_knob k v s = s\<lparr>mk_knobs := dset k v (mk_knobs s)\<rparr>"

definition set_sized :: "string \<Rightarrow> int \<Rightarrow> mock \<Rightarrow> mock" where
  "set_sized k i s =
     s\<lparr>mk_knobs := dset k (JInt i) (mk_knobs s), mk_ceilings := dset k i (mk_ceilings s)\<rparr>"

text \<open>\<open>if k in fields: \<dots> int(fields[k])\<close>, with the new size handed to \<open>f\<close>.\<close>

definition when_int :: "string \<Rightarrow> fields \<Rightarrow> (int \<Rightarrow> mock \<Rightarrow> mock) \<Rightarrow> (mock, unit) stmt" where
  "when_int k flds f s =
     (case map_of flds k of
        None \<Rightarrow> (Inr (), s)
      | Some v \<Rightarrow> (case int_of v of Inl e \<Rightarrow> (Inl e, s) | Inr i \<Rightarrow> (Inr (), f i s)))"

definition resize_pool :: "int \<Rightarrow> mock \<Rightarrow> mock" where
  "resize_pool i s =
     (let s' = set_tokens i s in
      if map_of (mk_knobs s') ''max_prefill_tokens'' \<noteq> None
      then set_sized ''max_prefill_tokens'' i s' else s')"

definition when_fraction :: "rounding \<Rightarrow> fields \<Rightarrow> (mock, unit) stmt" where
  "when_fraction rnd flds s =
     (case map_of flds ''gpu_memory_utilization'' of
        None \<Rightarrow> (Inr (), s)
      | Some v \<Rightarrow>
          (case float_of rnd v of
             Inl e \<Rightarrow> (Inl e, s)
           | Inr f \<Rightarrow>
               (case int_of (JFloat (f_mul rnd (Fin 16384) f)) of
                  Inl e \<Rightarrow> (Inl e, s)
                | Inr i \<Rightarrow> (Inr (), set_tokens i s))))"

definition reinit_info :: "rounding \<Rightarrow> fields \<Rightarrow> int \<Rightarrow> json" where
  "reinit_info rnd flds tokens =
     JObj [(''ok'', JBool True), (''fields'', JObj flds), (''max_total_num_tokens'', JInt tokens),
       (''num_gpu_blocks'', JInt (tokens div 16)), (''total_s'', JFloat (rnd (1 / 20)))]"

definition record_reinit :: "rounding \<Rightarrow> fields \<Rightarrow> (mock, json) stmt" where
  "record_reinit rnd flds s =
     (let info = reinit_info rnd flds (mk_tokens s) in (Inr info, s\<lparr>mk_last_reinit := info\<rparr>))"

definition not_reinitable :: "string list \<Rightarrow> json" where
  "not_reinitable bad =
     JObj [(''ok'', JBool False), (''error'', JStr (''not warm-reinitable: '' @ repr_str_list bad))]"

definition reinit :: "rounding \<Rightarrow> fields \<Rightarrow> (mock, json) stmt" where
  "reinit rnd flds s =
     (let bad = sort (filter (\<lambda>k. k \<notin> set (reinit_allowed (mk_engine s))) (remdups (keys flds))) in
      if bad \<noteq> [] then (Inr (not_reinitable bad), s)
      else andthen (when_int ''max_total_tokens'' flds resize_pool) (\<lambda>_.
        andthen (when_int ''max_running_requests'' flds (set_sized ''max_running_requests'')) (\<lambda>_.
        andthen (when_int ''max_num_seqs'' flds (set_sized ''max_num_seqs'')) (\<lambda>_.
        andthen (when_int ''max_num_batched_tokens'' flds (set_sized ''max_num_batched_tokens'')) (\<lambda>_.
        andthen (when_fraction rnd flds) (\<lambda>_.
        record_reinit rnd flds))))) s)"

section \<open>Applying hot knobs\<close>

definition range_text :: "int \<Rightarrow> int option \<Rightarrow> string" where
  "range_text lo hi =
     ''valid range is '' @ show_int lo @ ''..'' @ (case hi of None \<Rightarrow> ''None'' | Some h \<Rightarrow> show_int h)"

text \<open>The verdict of \<open>apply\<close> on one change: the value to store, or the reason to reject it.\<close>

definition apply_value ::
  "rounding \<Rightarrow> float_text \<Rightarrow> mock \<Rightarrow> string \<Rightarrow> json \<Rightarrow> exn + (string + json)" where
  "apply_value rnd fr s k v =
     (if k \<notin> set (keys (mk_knobs s)) then Inr (Inl ''unknown knob'')
      else case map_of str_choices k of
        Some cs \<Rightarrow>
          if lower (str_json fr v) \<notin> set (map lower cs)
          then Inr (Inl (''must be one of '' @ repr_str_tuple cs))
          else Inr (Inr (JStr (if k = ''log_level'' then upper (str_json fr v) else str_json fr v)))
      | None \<Rightarrow>
          if k = ''schedule_conservativeness'' then
            (case num_of v of
               None \<Rightarrow> Inr (Inl ''must be > 0'')
             | Some x \<Rightarrow>
                 if f_le x (Fin 0) then Inr (Inl ''must be > 0'')
                 else (case float_of rnd v of Inl e \<Rightarrow> Inl e | Inr f \<Rightarrow> Inr (Inr (JFloat f))))
          else
            (let lo = (if k = ''max_queued_requests'' \<or> k = ''long_prefill_token_threshold'' then 0 else 1);
                 hi = map_of (mk_ceilings s) k
             in if \<not> is_num v then Inr (Inl (range_text lo hi))
                else case int_of v of
                    Inl e \<Rightarrow> Inl e
                  | Inr i \<Rightarrow>
                      if i < lo \<or> (case hi of None \<Rightarrow> False | Some h \<Rightarrow> h < i)
                      then Inr (Inl (range_text lo hi))
                      else Inr (Inr (JInt i))))"

fun apply_loop ::
  "rounding \<Rightarrow> float_text \<Rightarrow> fields \<Rightarrow> fields \<Rightarrow> fields \<Rightarrow> (mock, fields \<times> fields) stmt" where
  "apply_loop rnd fr [] applied rejected s = (Inr (applied, rejected), s)"
| "apply_loop rnd fr ((k, v) # cs) applied rejected s =
     (case apply_value rnd fr s k v of
        Inl e \<Rightarrow> (Inl e, s)
      | Inr (Inl reason) \<Rightarrow> apply_loop rnd fr cs applied (dset k (JStr reason) rejected) s
      | Inr (Inr w) \<Rightarrow> apply_loop rnd fr cs (dset k w applied) rejected (set_knob k w s))"

definition is_reinit_key :: "string \<Rightarrow> bool" where
  "is_reinit_key k \<longleftrightarrow> starts_with ''reinit.'' k"

definition reinit_part :: "fields \<Rightarrow> fields" where
  "reinit_part changes = map (\<lambda>(k, v). (drop 7 k, v)) (filter (\<lambda>(k, v). is_reinit_key k) changes)"

definition hot_part :: "fields \<Rightarrow> fields" where
  "hot_part changes = filter (\<lambda>(k, v). \<not> is_reinit_key k) changes"

definition count_call :: "fields \<times> fields \<Rightarrow> (mock, fields \<times> fields) stmt" where
  "count_call r s = (Inr r, s\<lparr>mk_applied_calls := Suc (mk_applied_calls s)\<rparr>)"

definition reinit_verdict :: "json \<Rightarrow> fields \<times> fields" where
  "reinit_verdict r =
     (if json_get ''ok'' r = Some (JBool True) then ([(''reinit'', r)], [])
      else ([], [(''reinit'', case json_get ''error'' r of Some e \<Rightarrow> e | None \<Rightarrow> JNull)]))"

definition apply_changes :: "rounding \<Rightarrow> float_text \<Rightarrow> fields \<Rightarrow> (mock, fields \<times> fields) stmt" where
  "apply_changes rnd fr changes =
     andthen (if reinit_part changes = [] then ret ([], [])
              else andthen (reinit rnd (reinit_part changes)) (\<lambda>r. ret (reinit_verdict r)))
       (\<lambda>(applied, rejected).
          andthen (apply_loop rnd fr (hot_part changes) applied rejected) count_call)"

section \<open>The HTTP handlers\<close>

definition ceilings_json :: "mock \<Rightarrow> json" where
  "ceilings_json s = JObj (map (\<lambda>(k, i). (k, JInt i)) (mk_ceilings s))"

definition knob_value :: "mock \<Rightarrow> string \<Rightarrow> json" where
  "knob_value s k = (case map_of (mk_knobs s) k of None \<Rightarrow> JNull | Some v \<Rightarrow> v)"

definition no_route :: "int \<times> json" where
  "no_route = (404, JObj [(''error'', JStr ''no route'')])"

definition mock_get :: "string \<Rightarrow> (mock, int \<times> json) stmt" where
  "mock_get path s =
     (Inr (if starts_with ''/health'' path then (200, JObj [(''ok'', JBool True)])
       else if mk_engine s = ''sglang'' \<and> path = ''/get_server_info'' then
         (200, JObj
           [(''max_total_num_tokens'', JInt (mk_tokens s)),
            (''internal_states'', JArr [JObj
              [(''effective_max_running_requests_per_dp'', knob_value s ''max_running_requests''),
               (''trimtab'', JObj (dict_update (mk_knobs s)
                  [(''ceilings'', ceilings_json s), (''last_reinit'', mk_last_reinit s),
                   (''max_total_num_tokens'', JInt (mk_tokens s))]))]])])
       else if mk_engine s = ''vllm'' \<and> path = ''/trimtab/knobs'' then
         (200, JObj (dict_update (mk_knobs s)
           [(''max_num_seqs_effective'', knob_value s ''max_num_seqs''), (''running'', JInt 0),
            (''ceilings'', ceilings_json s), (''last_reinit'', mk_last_reinit s),
            (''num_gpu_blocks'', JInt (mk_tokens s div 16))]))
       else no_route), s)"

text \<open>A handler that raises leaves the client with a dropped connection.\<close>

definition handled :: "('s, 'a) stmt \<Rightarrow> ('s, 'a) stmt" where
  "handled m s = (case m s of (Inl _, s') \<Rightarrow> (Inl ConnectionError, s') | (Inr x, s') \<Rightarrow> (Inr x, s'))"

definition object_of :: "json \<Rightarrow> exn + fields" where
  "object_of v = (case v of JObj d \<Rightarrow> Inr d | _ \<Rightarrow> Inl AttributeError)"

definition server_args :: "fields \<Rightarrow> exn + fields" where
  "server_args body = (case map_of body ''server_args'' of None \<Rightarrow> Inr [] | Some v \<Rightarrow> object_of v)"

definition post_internal_state :: "rounding \<Rightarrow> float_text \<Rightarrow> json \<Rightarrow> (mock, int \<times> json) stmt" where
  "post_internal_state rnd fr payload =
     andthen (of_result (object_of payload)) (\<lambda>body.
     andthen (of_result (server_args body)) (\<lambda>args.
     andthen (apply_changes rnd fr args) (\<lambda>r.
     ret (200, JArr [JBool (snd r = [])]))))"

definition post_reinit :: "rounding \<Rightarrow> json \<Rightarrow> (mock, int \<times> json) stmt" where
  "post_reinit rnd payload =
     andthen (of_result (object_of payload)) (\<lambda>body.
     andthen (reinit rnd body) (\<lambda>r.
     ret (if json_get ''ok'' r = Some (JBool True) then 200 else 400, r)))"

definition post_set_knobs :: "rounding \<Rightarrow> float_text \<Rightarrow> json \<Rightarrow> (mock, int \<times> json) stmt" where
  "post_set_knobs rnd fr payload =
     andthen (of_result (object_of payload)) (\<lambda>body.
     andthen (apply_changes rnd fr body) (\<lambda>r.
     ret (if snd r = [] then 200 else 400,
          JObj [(''ok'', JBool (snd r = [])), (''applied'', JObj (fst r)), (''rejected'', JObj (snd r))])))"

definition generated :: "int \<times> json" where
  "generated =
     (200, JObj [(''text'', JStr ''ok''), (''choices'', JArr [JObj [(''text'', JStr ''ok'')]])])"

definition mock_post :: "rounding \<Rightarrow> float_text \<Rightarrow> string \<Rightarrow> json \<Rightarrow> (mock, int \<times> json) stmt" where
  "mock_post rnd fr path payload = handled (\<lambda>s.
     if mk_engine s = ''sglang'' \<and> path = ''/set_internal_state'' then post_internal_state rnd fr payload s
     else if mk_engine s = ''vllm'' \<and> path = ''/trimtab/reinit'' then post_reinit rnd payload s
     else if mk_engine s = ''vllm'' \<and> path = ''/trimtab/set_knobs'' then post_set_knobs rnd fr payload s
     else if path = ''/generate'' \<or> path = ''/v1/completions'' then (Inr generated, s)
     else (Inr no_route, s))"

definition mock_http :: "rounding \<Rightarrow> float_text \<Rightarrow> mock http" where
  "mock_http rnd fr = \<lparr>h_post = mock_post rnd fr, h_get = mock_get, h_sleep = ret ()\<rparr>"

end
