(* ===== verification/Adapters.thy ===== *)
theory Adapters
  imports Mock_Engine
begin

text \<open>
  The engine adapters (\<open>trimtab/adapters.py\<close>): one call shape for both engines, over the HTTP
  endpoint of the engine, which is an argument. \<open>_post\<close> returns the status and the body of an
  error answer like those of a success; \<open>_get\<close> raises on an error status. The wall-clock
  latency of a call is not modelled. The adapters are then shown to keep the contract of
  \<open>hot_adapter\<close> against the mock engine.
\<close>

section \<open>Requests\<close>

definition post :: "'e http \<Rightarrow> string \<Rightarrow> json \<Rightarrow> ('e, int \<times> json) stmt" where
  "post h path payload = h_post h path payload"

definition get :: "'e http \<Rightarrow> string \<Rightarrow> ('e, json) stmt" where
  "get h path = andthen (h_get h path) (\<lambda>(code, body).
     if 200 \<le> code \<and> code < 300 then ret body else raise (HTTPError code))"

text \<open>\<open>all\<close> stops at the first rank that did not update, before it looks at the next entry.\<close>

fun ranks_updated :: "json list \<Rightarrow> exn + bool" where
  "ranks_updated [] = Inr True"
| "ranks_updated (e # es) =
     (case e of
        JBool b \<Rightarrow> if b then ranks_updated es else Inr False
      | JObj d \<Rightarrow>
          if truthy (case map_of d ''updated'' of None \<Rightarrow> JNull | Some v \<Rightarrow> v)
          then ranks_updated es else Inr False
      | _ \<Rightarrow> Inl AttributeError)"

definition all_updated :: "json \<Rightarrow> exn + bool" where
  "all_updated body =
     (let entries = (case body of JArr es \<Rightarrow> es | _ \<Rightarrow> [body]) in
      if entries = [] then Inr False else ranks_updated entries)"

definition dget :: "string \<Rightarrow> fields \<Rightarrow> json" where
  "dget k d = (case map_of d k of None \<Rightarrow> JNull | Some v \<Rightarrow> v)"

section \<open>SGLang\<close>

definition sglang_warm :: "string list" where
  "sglang_warm = [''mem_fraction_static'', ''max_total_tokens'', ''kv_cache_dtype'', ''max_running_requests'']"

text \<open>\<open>info.get("internal_states") or []\<close>, then the first state.\<close>

definition internal_states :: "json \<Rightarrow> exn + json list" where
  "internal_states info =
     (case info of
        JObj d \<Rightarrow> (let st = dget ''internal_states'' d in
          if \<not> truthy st then Inr [] else case st of JArr xs \<Rightarrow> Inr xs | _ \<Rightarrow> Inl TypeError)
      | _ \<Rightarrow> Inl AttributeError)"

definition sglang_read_raw :: "'e http \<Rightarrow> ('e, json) stmt" where
  "sglang_read_raw h =
     andthen (get h ''/get_server_info'') (\<lambda>info.
     andthen (of_result (internal_states info)) (\<lambda>states.
     case states of
       [] \<Rightarrow> ret (JObj [])
     | JObj st # _ \<Rightarrow> ret (case map_of st ''trimtab'' of None \<Rightarrow> JObj [] | Some t \<Rightarrow> t)
     | _ \<Rightarrow> raise AttributeError))"

definition sglang_hidden :: "string list" where
  "sglang_hidden = [''ceilings'', ''last_reinit'', ''max_total_num_tokens'']"

definition sglang_read_knobs :: "'e http \<Rightarrow> ('e, fields) stmt" where
  "sglang_read_knobs h =
     andthen (get h ''/get_server_info'') (\<lambda>info.
     andthen (of_result (internal_states info)) (\<lambda>states.
     case states of
       [] \<Rightarrow> ret []
     | JObj st # _ \<Rightarrow>
         (case map_of st ''trimtab'' of
            Some (JObj t) \<Rightarrow> ret (filter (\<lambda>(k, v). k \<notin> set sglang_hidden) t)
          | Some _ \<Rightarrow> raise AttributeError
          | None \<Rightarrow>
              ret [(''max_running_requests'', dget ''effective_max_running_requests_per_dp'' st)])
     | JStr w # _ \<Rightarrow> raise (if contains ''trimtab'' w then TypeError else AttributeError)
     | JArr xs # _ \<Rightarrow> raise (if JStr ''trimtab'' \<in> set xs then TypeError else AttributeError)
     | _ \<Rightarrow> raise TypeError))"

definition engine_rejected :: "fields \<Rightarrow> string \<Rightarrow> fields" where
  "engine_rejected changes why = map (\<lambda>(k, v). (k, JStr why)) changes"

definition confirmed :: "fields \<Rightarrow> fields \<Rightarrow> fields" where
  "confirmed live changes = filter (\<lambda>(k, v). py_eq (dget k live) v) changes"

definition sglang_set_hot :: "'e http \<Rightarrow> fields \<Rightarrow> ('e, apply_result) stmt" where
  "sglang_set_hot h changes =
     andthen (post h ''/set_internal_state'' (JObj [(''server_args'', JObj changes)])) (\<lambda>(code, body).
     andthen (if code = 200 then of_result (all_updated body) else ret False) (\<lambda>ok.
     andthen (if ok then sglang_read_knobs h else ret []) (\<lambda>live.
     ret \<lparr>r_ok = (ok \<and> set (keys (confirmed live changes)) = set (keys changes)),
          r_applied = confirmed live changes,
          r_rejected = (if ok then [] else engine_rejected changes ''engine rejected the update''),
          r_http_status = code\<rparr>)))"

definition not_warm :: "string list \<Rightarrow> fields \<Rightarrow> string list" where
  "not_warm warm flds = sort (filter (\<lambda>k. k \<notin> set warm) (remdups (keys flds)))"

definition refuse_warm :: "string list \<Rightarrow> apply_result" where
  "refuse_warm bad =
     \<lparr>r_ok = False, r_applied = [], r_rejected = map (\<lambda>k. (k, JStr ''not warm-reinitable'')) bad,
      r_http_status = 0\<rparr>"

text \<open>
  \<open>last and "busy" in str(last.get("error", ""))\<close>: a truthy \<open>last\<close> that is no mapping raises.
\<close>

definition reports_busy :: "float_text \<Rightarrow> json \<Rightarrow> exn + bool" where
  "reports_busy fr v =
     (if \<not> truthy v then Inr False
      else case v of
        JObj d \<Rightarrow> Inr (contains ''busy''
          (str_json fr (case map_of d ''error'' of None \<Rightarrow> JStr [] | Some e \<Rightarrow> e)))
      | _ \<Rightarrow> Inl AttributeError)"

definition last_reinit_of :: "json \<Rightarrow> exn + json" where
  "last_reinit_of raw = (case raw of JObj d \<Rightarrow> Inr (dget ''last_reinit'' d) | _ \<Rightarrow> Inl AttributeError)"

text \<open>The retry loop; \<open>n\<close> is the number of attempts left after this one.\<close>

fun sglang_attempts ::
  "'e http \<Rightarrow> float_text \<Rightarrow> fields \<Rightarrow> nat \<Rightarrow> ('e, bool \<times> json \<times> int) stmt" where
  "sglang_attempts h fr flds n =
     andthen (post h ''/set_internal_state''
       (JObj [(''server_args'', JObj (map (\<lambda>(k, v). (''reinit.'' @ k, v)) flds))])) (\<lambda>(code, body).
     andthen (if code = 200 then of_result (all_updated body) else ret False) (\<lambda>ok.
     andthen (sglang_read_raw h) (\<lambda>raw.
     andthen (of_result (last_reinit_of raw)) (\<lambda>lst.
     andthen (if ok then ret False else of_result (reports_busy fr lst)) (\<lambda>busy.
     if \<not> busy then ret (ok, lst, code)
     else andthen (h_sleep h) (\<lambda>_.
       case n of 0 \<Rightarrow> ret (ok, lst, code) | Suc m \<Rightarrow> sglang_attempts h fr flds m))))))"

definition refusal :: "json \<Rightarrow> string \<Rightarrow> fields \<Rightarrow> fields" where
  "refusal lst why flds =
     map (\<lambda>(k, v). (k, case json_get ''error'' lst of None \<Rightarrow> JStr why | Some e \<Rightarrow> e)) flds"

definition sglang_reinit_warm :: "'e http \<Rightarrow> float_text \<Rightarrow> fields \<Rightarrow> ('e, apply_result) stmt" where
  "sglang_reinit_warm h fr flds =
     (let bad = not_warm sglang_warm flds in
      if bad \<noteq> [] then ret (refuse_warm bad)
      else andthen (sglang_attempts h fr flds 19) (\<lambda>(ok, lst, code).
        ret \<lparr>r_ok = ok, r_applied = (if ok then [(''last_reinit'', lst)] else []),
             r_rejected = (if ok then [] else refusal lst ''engine refused, see server log'' flds),
             r_http_status = code\<rparr>))"

definition sglang_adapter :: "'e http \<Rightarrow> float_text \<Rightarrow> 'e adapter" where
  "sglang_adapter h fr =
     \<lparr>a_set_hot = sglang_set_hot h, a_reinit_warm = sglang_reinit_warm h fr,
      a_read_knobs = sglang_read_knobs h, a_warm = sglang_warm\<rparr>"

section \<open>vLLM\<close>

definition vllm_warm :: "string list" where
  "vllm_warm = [''gpu_memory_utilization'', ''max_num_seqs'', ''max_num_batched_tokens'']"

text \<open>
  The bodies of vLLM's answers are read with \<open>body.get\<close>. The engine answers with an object
  whose \<open>applied\<close> and \<open>rejected\<close> are objects; anything else is an exception of the model.
\<close>

definition sub_object :: "string \<Rightarrow> fields \<Rightarrow> exn + fields" where
  "sub_object k body =
     (case map_of body k of None \<Rightarrow> Inr [] | Some (JObj d) \<Rightarrow> Inr d | Some _ \<Rightarrow> Inl AttributeError)"

definition vllm_set_hot :: "'e http \<Rightarrow> fields \<Rightarrow> ('e, apply_result) stmt" where
  "vllm_set_hot h changes =
     andthen (post h ''/trimtab/set_knobs'' (JObj changes)) (\<lambda>(code, body).
     andthen (of_result (object_of body)) (\<lambda>b.
     andthen (of_result (sub_object ''applied'' b)) (\<lambda>applied.
     andthen (of_result (sub_object ''rejected'' b)) (\<lambda>rejected.
     ret \<lparr>r_ok = truthy (dget ''ok'' b), r_applied = applied, r_rejected = rejected,
          r_http_status = code\<rparr>))))"

definition vllm_busy :: "float_text \<Rightarrow> fields \<Rightarrow> bool" where
  "vllm_busy fr b =
     contains ''busy'' (str_json fr (case map_of b ''error'' of None \<Rightarrow> JStr [] | Some e \<Rightarrow> e))"

fun vllm_attempts :: "'e http \<Rightarrow> float_text \<Rightarrow> fields \<Rightarrow> nat \<Rightarrow> ('e, int \<times> fields) stmt" where
  "vllm_attempts h fr flds n =
     andthen (post h ''/trimtab/reinit'' (JObj flds)) (\<lambda>(code, body).
     andthen (of_result (object_of body)) (\<lambda>b.
     if truthy (dget ''ok'' b) \<or> \<not> vllm_busy fr b then ret (code, b)
     else andthen (h_sleep h) (\<lambda>_.
       case n of 0 \<Rightarrow> ret (code, b) | Suc m \<Rightarrow> vllm_attempts h fr flds m)))"

definition vllm_reinit_warm :: "'e http \<Rightarrow> float_text \<Rightarrow> fields \<Rightarrow> ('e, apply_result) stmt" where
  "vllm_reinit_warm h fr flds =
     (let bad = not_warm vllm_warm flds in
      if bad \<noteq> [] then ret (refuse_warm bad)
      else andthen (vllm_attempts h fr flds 19) (\<lambda>(code, b).
        let ok = truthy (dget ''ok'' b) in
        ret \<lparr>r_ok = ok, r_applied = (if ok then [(''last_reinit'', JObj b)] else []),
             r_rejected = (if ok then [] else refusal (JObj b) ''engine refused'' flds),
             r_http_status = code\<rparr>))"

definition vllm_hidden :: "string list" where
  "vllm_hidden = [''ceilings'', ''running'', ''last_reinit'', ''num_gpu_blocks'']"

definition vllm_read_raw :: "'e http \<Rightarrow> ('e, json) stmt" where
  "vllm_read_raw h = get h ''/trimtab/knobs''"

definition vllm_read_knobs :: "'e http \<Rightarrow> ('e, fields) stmt" where
  "vllm_read_knobs h =
     andthen (get h ''/trimtab/knobs'') (\<lambda>body.
     andthen (of_result (object_of body)) (\<lambda>b.
     ret (filter (\<lambda>(k, v). k \<notin> set vllm_hidden) b)))"

definition vllm_adapter :: "'e http \<Rightarrow> float_text \<Rightarrow> 'e adapter" where
  "vllm_adapter h fr =
     \<lparr>a_set_hot = vllm_set_hot h, a_reinit_warm = vllm_reinit_warm h fr,
      a_read_knobs = vllm_read_knobs h, a_warm = vllm_warm\<rparr>"

section \<open>Choosing an adapter\<close>

definition make_adapter :: "'e http \<Rightarrow> float_text \<Rightarrow> string \<Rightarrow> exn + 'e adapter" where
  "make_adapter h fr engine =
     (if engine = ''sglang'' then Inr (sglang_adapter h fr)
      else if engine = ''vllm'' then Inr (vllm_adapter h fr)
      else Inl (ValueError (''unknown engine '' @ repr_str engine @ '', known: ['' @
             repr_str ''sglang'' @ '', '' @ repr_str ''vllm'' @ '']'')))"

definition healthy :: "'e http \<Rightarrow> ('e, bool) stmt" where
  "healthy h s = (case h_get h ''/health'' s of (Inl _, s') \<Rightarrow> (Inr False, s')
                  | (Inr (code, _), s') \<Rightarrow> (Inr (code = 200), s'))"

declare sglang_attempts.simps [simp del] vllm_attempts.simps [simp del]

end
