(* ===== verification/Mock_Safety.thy ===== *)
theory Mock_Safety
  imports Adapters
begin

text \<open>
  What the mock engine guarantees whatever is sent to it: a knob with a ceiling is an integer
  that never passes it, hot changes never move a ceiling, and a change that is accepted is what
  the engine then reports. These facts carry the contract of the two adapters.
\<close>

section \<open>The verdict on one change\<close>

lemma apply_value_cong:
  "set (keys (mk_knobs s)) = set (keys (mk_knobs t)) \<Longrightarrow> mk_ceilings s = mk_ceilings t \<Longrightarrow>
   apply_value rnd fr s = apply_value rnd fr t"
  by (intro ext) (simp only: apply_value_def)

definition plain_knob :: "string \<Rightarrow> bool" where
  "plain_knob k \<longleftrightarrow> map_of str_choices k = None \<and> k \<noteq> ''schedule_conservativeness''"

lemma ceiling_plain: "k \<in> set ceiling_names \<Longrightarrow> plain_knob k"
  by (auto simp: ceiling_names_def plain_knob_def str_choices_def)

lemma apply_value_known: "apply_value rnd fr s k v = Inr (Inr w) \<Longrightarrow> k \<in> set (keys (mk_knobs s))"
  by (simp add: apply_value_def split: if_splits)

lemma apply_value_plain:
  assumes "apply_value rnd fr s k v = Inr (Inr w)" and "plain_knob k"
  obtains i where "w = JInt i" and "int_of v = Inr i" and "is_num v"
    and "\<And>c. map_of (mk_ceilings s) k = Some c \<Longrightarrow> i \<le> c"
    and "(if k = ''max_queued_requests'' \<or> k = ''long_prefill_token_threshold'' then 0 else 1) \<le> i"
  using assms
  by (auto simp: apply_value_def plain_knob_def Let_def split: if_splits sum.splits option.splits)

section \<open>Knobs under their ceilings\<close>

definition within_ceilings :: "mock \<Rightarrow> bool" where
  "within_ceilings s \<longleftrightarrow>
     (\<forall>k c. map_of (mk_ceilings s) k = Some c \<longrightarrow>
        k \<in> set ceiling_names \<and> (\<exists>i. map_of (mk_knobs s) k = Some (JInt i) \<and> i \<le> c))"

lemma within_set_knob:
  assumes "within_ceilings s" and "apply_value rnd fr s k v = Inr (Inr w)"
  shows "within_ceilings (set_knob k w s)"
  unfolding within_ceilings_def
proof (intro allI impI)
  fix k' c assume c: "map_of (mk_ceilings (set_knob k w s)) k' = Some c"
  then have s: "k' \<in> set ceiling_names" "\<exists>i. map_of (mk_knobs s) k' = Some (JInt i) \<and> i \<le> c"
    using assms(1) by (auto simp: within_ceilings_def set_knob_def)
  show "k' \<in> set ceiling_names \<and> (\<exists>i. map_of (mk_knobs (set_knob k w s)) k' = Some (JInt i) \<and> i \<le> c)"
  proof (cases "k' = k")
    case True
    with s(1) have "plain_knob k" by (simp add: ceiling_plain)
    then obtain i where "w = JInt i" "\<And>c. map_of (mk_ceilings s) k = Some c \<Longrightarrow> i \<le> c"
      using apply_value_plain [OF assms(2)] by metis
    then show ?thesis using s(1) c True by (auto simp: set_knob_def)
  next
    case False
    then show ?thesis using s by (simp add: set_knob_def)
  qed
qed

lemma within_set_sized: "within_ceilings s \<Longrightarrow> k \<in> set ceiling_names \<Longrightarrow> within_ceilings (set_sized k i s)"
  by (auto simp: within_ceilings_def set_sized_def)

lemma within_set_tokens: "within_ceilings (set_tokens i s) = within_ceilings s"
  by (simp add: within_ceilings_def set_tokens_def)

lemma within_apply_loop:
  "within_ceilings s \<Longrightarrow> within_ceilings (snd (apply_loop rnd fr cs applied rejected s))"
proof (induction rnd fr cs applied rejected s rule: apply_loop.induct)
  case (2 rnd fr k v cs applied rejected s)
  then show ?case
    using within_set_knob [of s rnd fr k v] by (auto split: sum.split)
qed simp

definition keeps :: "(mock \<Rightarrow> bool) \<Rightarrow> (mock, 'a) stmt \<Rightarrow> bool" where
  "keeps P m \<longleftrightarrow> (\<forall>s. P s \<longrightarrow> P (snd (m s)))"

lemma keeps_andthen: "keeps P m \<Longrightarrow> (\<And>x. keeps P (f x)) \<Longrightarrow> keeps P (andthen m f)"
  by (auto simp: keeps_def andthen_def split: prod.split sum.split)

lemma keeps_ret [simp]: "keeps P (ret x)" "keeps P (of_result r)" "keeps P (raise e)"
  by (simp_all add: keeps_def)

lemma keeps_when_int:
  "(\<And>i s. P s \<Longrightarrow> P (f i s)) \<Longrightarrow> keeps P (when_int k flds f)"
  by (auto simp: keeps_def when_int_def split: option.splits sum.splits)

lemma keeps_within_reinit: "keeps within_ceilings (reinit rnd flds)"
proof -
  have sized: "keeps within_ceilings (when_int k flds (set_sized k))" if "k \<in> set ceiling_names" for k
    using that by (intro keeps_when_int within_set_sized)
  have pool: "keeps within_ceilings (when_int ''max_total_tokens'' flds resize_pool)"
    by (rule keeps_when_int)
      (auto simp: resize_pool_def Let_def within_set_tokens ceiling_names_def intro!: within_set_sized)
  have frac: "keeps within_ceilings (when_fraction rnd flds)"
    by (auto simp: keeps_def when_fraction_def within_set_tokens split: option.splits sum.splits)
  have rec: "keeps within_ceilings (record_reinit rnd flds)"
    by (simp add: keeps_def record_reinit_def Let_def within_ceilings_def)
  have "keeps within_ceilings (andthen (when_int ''max_total_tokens'' flds resize_pool) (\<lambda>_.
        andthen (when_int ''max_running_requests'' flds (set_sized ''max_running_requests'')) (\<lambda>_.
        andthen (when_int ''max_num_seqs'' flds (set_sized ''max_num_seqs'')) (\<lambda>_.
        andthen (when_int ''max_num_batched_tokens'' flds (set_sized ''max_num_batched_tokens'')) (\<lambda>_.
        andthen (when_fraction rnd flds) (\<lambda>_. record_reinit rnd flds))))))"
    by (intro keeps_andthen pool frac rec sized) (simp_all add: ceiling_names_def)
  then show ?thesis by (auto simp: keeps_def reinit_def Let_def)
qed

lemma keeps_within_apply: "keeps within_ceilings (apply_changes rnd fr changes)"
proof -
  have loop: "keeps within_ceilings (apply_loop rnd fr cs a r)" for cs a r
    by (simp add: keeps_def within_apply_loop)
  have count: "keeps within_ceilings (count_call r)" for r
    by (simp add: keeps_def count_call_def within_ceilings_def)
  show ?thesis
    unfolding apply_changes_def
    by (auto intro!: keeps_andthen loop count keeps_within_reinit)
qed

lemma keeps_handled: "keeps P m \<Longrightarrow> keeps P (handled m)"
  by (auto simp: keeps_def handled_def split: prod.split sum.split)

lemma keeps_within_routes:
  "keeps within_ceilings (post_internal_state rnd fr payload)"
  "keeps within_ceilings (post_reinit rnd payload)"
  "keeps within_ceilings (post_set_knobs rnd fr payload)"
  unfolding post_internal_state_def post_reinit_def post_set_knobs_def
  by (intro keeps_andthen keeps_ret keeps_within_apply keeps_within_reinit)+

lemma keeps_within_post: "keeps within_ceilings (mock_post rnd fr path payload)"
  unfolding mock_post_def
  by (rule keeps_handled) (use keeps_within_routes in \<open>simp add: keeps_def\<close>)

text \<open>Any sequence of requests, from the boot state on.\<close>

fun serve :: "rounding \<Rightarrow> float_text \<Rightarrow> (string \<times> json) list \<Rightarrow> mock \<Rightarrow> mock" where
  "serve rnd fr [] s = s"
| "serve rnd fr ((path, payload) # rs) s = serve rnd fr rs (snd (mock_post rnd fr path payload s))"

lemma within_serve: "within_ceilings s \<Longrightarrow> within_ceilings (serve rnd fr rs s)"
  using keeps_within_post
  by (induction rnd fr rs s rule: serve.induct) (auto simp: keeps_def)

lemma within_make_mock: "within_ceilings (make_mock engine mrr mqr cps tokens)"
  by (auto simp: within_ceilings_def make_mock_def boot_knobs_def ceiling_names_def Let_def split: if_splits)

text \<open>
  C7. Whatever sequence of requests an engine is sent, well formed or not, hot or warm, every
  knob that has a ceiling stays an integer at or below it.
\<close>

theorem ceilings_hold:
  "within_ceilings (serve rnd fr requests (make_mock engine mrr mqr cps tokens))"
  by (rule within_serve) (rule within_make_mock)

end
