(* ===== verification/Adapter_Contracts.thy ===== *)
theory Adapter_Contracts
  imports Mock_Safety
begin

text \<open>
  The two adapters against the mock engine: both keep the contract \<open>hot_adapter\<close> of the
  interfaces, so what a daemon proves from the contract holds for either engine.
\<close>

section \<open>What the loop of \<open>apply\<close> leaves behind\<close>

lemma set_knob_keys:
  "k \<in> set (keys (mk_knobs s)) \<Longrightarrow> keys (mk_knobs (set_knob k w s)) = keys (mk_knobs s)"
  by (simp add: set_knob_def keys_dset)

lemma apply_loop_same:
  "mk_engine (snd (apply_loop rnd fr cs a r s)) = mk_engine s \<and>
   mk_ceilings (snd (apply_loop rnd fr cs a r s)) = mk_ceilings s \<and>
   mk_tokens (snd (apply_loop rnd fr cs a r s)) = mk_tokens s \<and>
   keys (mk_knobs (snd (apply_loop rnd fr cs a r s))) = keys (mk_knobs s)"
proof (induction rnd fr cs a r s rule: apply_loop.induct)
  case (2 rnd fr k v cs a r s)
  then show ?case
    using apply_value_known [of rnd fr s k v] set_knob_keys [of k s]
    by (auto split: sum.split) (simp_all add: set_knob_def)
qed simp

lemma apply_loop_frame:
  "k \<notin> set (keys cs) \<Longrightarrow>
   map_of (mk_knobs (snd (apply_loop rnd fr cs a r s))) k = map_of (mk_knobs s) k"
proof (induction rnd fr cs a r s rule: apply_loop.induct)
  case (2 rnd fr k' v cs a r s)
  then show ?case by (auto simp: set_knob_def split: sum.split)
qed simp

lemma apply_loop_rejected:
  "apply_loop rnd fr cs a r s = (Inr (a', r'), s') \<Longrightarrow> set (keys r) \<subseteq> set (keys r')"
proof (induction rnd fr cs a r s rule: apply_loop.induct)
  case (2 rnd fr k v cs a r s)
  then show ?case by (auto simp: keys_dset split: sum.splits if_splits)
qed simp

lemma keys_dset_nonempty: "keys (dset k v d) \<noteq> []"
  by (auto simp: keys_dset)

lemma apply_loop_accepts:
  "apply_loop rnd fr cs a r s = (Inr (a', []), s') \<Longrightarrow> wf_dict cs \<Longrightarrow> map_of cs k = Some v \<Longrightarrow>
   \<exists>w. apply_value rnd fr s k v = Inr (Inr w) \<and> map_of (mk_knobs s') k = Some w"
proof (induction rnd fr cs a r s arbitrary: k v rule: apply_loop.induct)
  case (1 rnd fr a r s)
  then show ?case by simp
next
  case (2 rnd fr k0 v0 cs a r s)
  have ne: "set (keys (dset k0 j r)) \<noteq> {}" for j by (simp add: keys_dset_nonempty)
  obtain w0 where w0: "apply_value rnd fr s k0 v0 = Inr (Inr w0)"
    using "2.prems"(1) apply_loop_rejected [of rnd fr cs a "dset k0 j r" s a' "[]" s' for j] ne
    by (fastforce split: sum.splits)
  have run: "apply_loop rnd fr cs (dset k0 w0 a) r (set_knob k0 w0 s) = (Inr (a', []), s')"
    using "2.prems"(1) w0 by simp
  have same: "apply_value rnd fr (set_knob k0 w0 s) = apply_value rnd fr s"
    by (rule apply_value_cong)
      (simp add: set_knob_keys apply_value_known [OF w0], simp add: set_knob_def)
  show ?case
  proof (cases "k = k0")
    case True
    have "map_of (mk_knobs s') k0 = map_of (mk_knobs (set_knob k0 w0 s)) k0"
      using apply_loop_frame [of k0 cs rnd fr "dset k0 w0 a" r "set_knob k0 w0 s"] run "2.prems"(2) by simp
    then show ?thesis using True w0 "2.prems"(3) by (simp add: set_knob_def)
  next
    case False
    then show ?thesis
      using "2.IH"(2) [OF w0 refl run] "2.prems"(2,3) same by simp
  qed
qed

section \<open>Plain hot changes\<close>

text \<open>What a daemon pushes: distinct knobs, none of them spelled as a reinit request.\<close>

definition hot_changes :: "fields \<Rightarrow> bool" where
  "hot_changes cs \<longleftrightarrow> wf_dict cs \<and> (\<forall>k \<in> set (keys cs). \<not> is_reinit_key k)"

lemma hot_changes_parts: "hot_changes cs \<Longrightarrow> reinit_part cs = [] \<and> hot_part cs = cs"
  by (auto simp: hot_changes_def reinit_part_def hot_part_def filter_empty_conv filter_id_conv keys_def)

lemma apply_changes_hot:
  "hot_changes cs \<Longrightarrow> apply_changes rnd fr cs = andthen (apply_loop rnd fr cs [] []) count_call"
  by (simp add: apply_changes_def hot_changes_parts)

text \<open>The outcome of a hot push: an exception, or what was applied and what was rejected.\<close>

lemma apply_changes_cases:
  assumes "hot_changes cs"
  obtains e t where "apply_changes rnd fr cs s = (Inl e, t)" and "t = snd (apply_loop rnd fr cs [] [] s)"
  | a r t where "apply_changes rnd fr cs s = (Inr (a, r), t\<lparr>mk_applied_calls := Suc (mk_applied_calls t)\<rparr>)"
      and "apply_loop rnd fr cs [] [] s = (Inr (a, r), t)"
proof (cases "apply_loop rnd fr cs [] [] s")
  case (Pair res t)
  then show ?thesis
    using that by (cases res) (auto simp: apply_changes_hot [OF assms] count_call_def andthen_def)
qed

lemma mock_post_sglang:
  assumes "mk_engine s = ''sglang''"
  shows "mock_post rnd fr ''/set_internal_state'' (JObj [(''server_args'', JObj cs)]) s =
    (case apply_changes rnd fr cs s of
       (Inl e, t) \<Rightarrow> (Inl ConnectionError, t)
     | (Inr (a, r), t) \<Rightarrow> (Inr (200, JArr [JBool (r = [])]), t))"
  using assms
  by (auto simp: mock_post_def handled_def post_internal_state_def object_of_def server_args_def
      andthen_def split: prod.split sum.split)

lemma mock_post_vllm:
  assumes "mk_engine s = ''vllm''"
  shows "mock_post rnd fr ''/trimtab/set_knobs'' (JObj cs) s =
    (case apply_changes rnd fr cs s of
       (Inl e, t) \<Rightarrow> (Inl ConnectionError, t)
     | (Inr (a, r), t) \<Rightarrow>
        (Inr (if r = [] then 200 else 400,
           JObj [(''ok'', JBool (r = [])), (''applied'', JObj a), (''rejected'', JObj r)]), t))"
  using assms
  by (auto simp: mock_post_def handled_def post_set_knobs_def object_of_def
      andthen_def split: prod.split sum.split)

section \<open>Reading back from SGLang\<close>

definition sglang_ready :: "mock \<Rightarrow> bool" where
  "sglang_ready s \<longleftrightarrow>
     mk_engine s = ''sglang'' \<and> wf_dict (mk_knobs s) \<and>
     set (keys (mk_knobs s)) \<inter> set sglang_hidden = {}"

lemma wf_dict_update: "wf_dict d \<Longrightarrow> wf_dict (dict_update d e)"
  unfolding dict_update_def by (induction e arbitrary: d) auto

lemma map_of_dict_update:
  "map_of (dict_update d e) k = (case map_of (rev e) k of None \<Rightarrow> map_of d k | Some v \<Rightarrow> Some v)"
  unfolding dict_update_def
  by (induction e arbitrary: d) (auto simp: map_add_def split: option.splits)

lemma dict_update_state: "mk_engine (s\<lparr>mk_applied_calls := n\<rparr>) = mk_engine s"
  by simp

definition sglang_live :: "mock \<Rightarrow> fields" where
  "sglang_live s = filter (\<lambda>(k, v). k \<notin> set sglang_hidden) (dict_update (mk_knobs s)
     [(''ceilings'', ceilings_json s), (''last_reinit'', mk_last_reinit s),
      (''max_total_num_tokens'', JInt (mk_tokens s))])"

lemma sglang_read_knobs_run:
  "mk_engine s = ''sglang'' \<Longrightarrow> sglang_read_knobs (mock_http rnd fr) s = (Inr (sglang_live s), s)"
  by (simp add: sglang_read_knobs_def get_def mock_http_def mock_get_def starts_with_def
      internal_states_def dget_def sglang_live_def)

lemma map_of_sglang_live:
  assumes "sglang_ready s"
  shows "map_of (sglang_live s) k = map_of (mk_knobs s) k"
proof (cases "k \<in> set sglang_hidden")
  case True
  with assms have "map_of (mk_knobs s) k = None"
    by (auto simp: sglang_ready_def map_of_keys_None)
  moreover have "k \<notin> set (keys (sglang_live s))"
    using True by (auto simp: sglang_live_def keys_def)
  ultimately show ?thesis by (metis map_of_keys_None)
next
  case False
  have "wf_dict (mk_knobs s)" using assms by (simp add: sglang_ready_def)
  with False show ?thesis
    by (simp add: sglang_live_def map_of_filter_wf wf_dict_update map_of_dict_update split: option.split)
      (auto simp: sglang_hidden_def)
qed

lemma sglang_ready_cong:
  "mk_engine t = mk_engine s \<Longrightarrow> keys (mk_knobs t) = keys (mk_knobs s) \<Longrightarrow> sglang_ready t = sglang_ready s"
  by (simp add: sglang_ready_def wf_dict_def)

section \<open>SGLang keeps the contract\<close>

text \<open>A push through the SGLang adapter, case by case.\<close>

lemma sglang_set_hot_run:
  assumes "mk_engine s = ''sglang''" and "hot_changes cs"
  shows "sglang_set_hot (mock_http rnd fr) cs s =
    (case apply_changes rnd fr cs s of
       (Inl e, t) \<Rightarrow> (Inl ConnectionError, t)
     | (Inr (a, r), t) \<Rightarrow>
         let live = (if r = [] then sglang_live t else []) in
         (Inr \<lparr>r_ok = (r = [] \<and> set (keys (confirmed live cs)) = set (keys cs)),
            r_applied = confirmed live cs,
            r_rejected = (if r = [] then [] else engine_rejected cs ''engine rejected the update''),
            r_http_status = 200\<rparr>, t))"
proof (rule apply_changes_cases [OF assms(2), of rnd fr s])
  fix e t assume "apply_changes rnd fr cs s = (Inl e, t)"
  then show ?thesis
    by (simp add: sglang_set_hot_def post_def mock_http_def mock_post_sglang [OF assms(1)])
next
  fix a r t
  assume run: "apply_changes rnd fr cs s = (Inr (a, r), t\<lparr>mk_applied_calls := Suc (mk_applied_calls t)\<rparr>)"
    and loop: "apply_loop rnd fr cs [] [] s = (Inr (a, r), t)"
  have "mk_engine t = ''sglang''"
    using apply_loop_same [of rnd fr cs "[]" "[]" s] loop assms(1) by simp
  then have "sglang_read_knobs (mock_http rnd fr) (t\<lparr>mk_applied_calls := n\<rparr>) =
      (Inr (sglang_live (t\<lparr>mk_applied_calls := n\<rparr>)), t\<lparr>mk_applied_calls := n\<rparr>)" for n
    by (intro sglang_read_knobs_run) simp
  then show ?thesis
    using run
    by (simp add: sglang_set_hot_def post_def mock_http_def mock_post_sglang [OF assms(1)] all_updated_def Let_def)
qed

lemma apply_changes_state:
  assumes "hot_changes cs"
  shows "mk_knobs (snd (apply_changes rnd fr cs s)) = mk_knobs (snd (apply_loop rnd fr cs [] [] s)) \<and>
    mk_engine (snd (apply_changes rnd fr cs s)) = mk_engine s"
  using apply_loop_same [of rnd fr cs "[]" "[]" s]
  by (rule_tac apply_changes_cases [OF assms, of rnd fr s]) auto

lemma sglang_set_hot_state:
  assumes "mk_engine s = ''sglang''" and "hot_changes cs"
  shows "snd (sglang_set_hot (mock_http rnd fr) cs s) = snd (apply_changes rnd fr cs s)"
  by (simp add: sglang_set_hot_run [OF assms] Let_def split: prod.split sum.split)

definition equal_value :: "string \<Rightarrow> json \<Rightarrow> json \<Rightarrow> bool" where
  "equal_value k v w \<longleftrightarrow> py_eq w v"

lemma sglang_in_force:
  assumes "sglang_ready s" and "hot_changes cs"
    and run: "sglang_set_hot (mock_http rnd fr) cs s = (Inr res, s')" and ok: "r_ok res"
    and k: "map_of cs k = Some v"
  shows "\<exists>w. map_of (mk_knobs s') k = Some w \<and> equal_value k v w"
proof -
  have eng: "mk_engine s = ''sglang''" using assms(1) by (simp add: sglang_ready_def)
  show ?thesis
  proof (rule apply_changes_cases [OF assms(2), of rnd fr s])
    fix e t assume "apply_changes rnd fr cs s = (Inl e, t)"
    then show ?thesis using run by (simp add: sglang_set_hot_run [OF eng assms(2)])
  next
    fix a r t
    assume ch: "apply_changes rnd fr cs s = (Inr (a, r), t\<lparr>mk_applied_calls := Suc (mk_applied_calls t)\<rparr>)"
      and loop: "apply_loop rnd fr cs [] [] s = (Inr (a, r), t)"
    let ?t = "t\<lparr>mk_applied_calls := Suc (mk_applied_calls t)\<rparr>"
    have r: "r = []" "s' = ?t" and conf: "set (keys (confirmed (sglang_live ?t) cs)) = set (keys cs)"
      using run ok by (auto simp: sglang_set_hot_run [OF eng assms(2)] ch Let_def split: if_splits)
    have ready: "sglang_ready ?t"
      using assms(1) apply_loop_same [of rnd fr cs "[]" "[]" s] loop
      by (simp add: sglang_ready_def wf_dict_def)
    have wf: "wf_dict cs" using assms(2) by (simp add: hot_changes_def)
    obtain w where w: "map_of (mk_knobs t) k = Some w"
      using apply_loop_accepts [of rnd fr cs "[]" "[]" s a t k v] loop r(1) wf k by auto
    have "k \<in> set (keys (confirmed (sglang_live ?t) cs))"
      using conf k by (simp add: set_keys domI)
    then obtain v' where v': "(k, v') \<in> set cs" "py_eq (dget k (sglang_live ?t)) v'"
      by (auto simp: confirmed_def keys_def)
    have "v' = v" using map_of_wf [OF wf v'(1)] k by simp
    moreover have "dget k (sglang_live ?t) = w"
      using map_of_sglang_live [OF ready, of k] w by (simp add: dget_def)
    ultimately show ?thesis using v'(2) w r(2) by (auto simp: equal_value_def)
  qed
qed

interpretation sglang: hot_adapter "sglang_adapter (mock_http rnd fr) fr" mk_knobs equal_value sglang_ready hot_changes
  for rnd fr
proof (unfold_locales, goal_cases)
  case (1 e changes r e' k v)
  then show ?case by (intro sglang_in_force) (simp_all add: sglang_adapter_def)
next
  case (2 e changes k)
  then have "mk_engine e = ''sglang''" by (simp add: sglang_ready_def)
  with 2 show ?case
    by (simp add: sglang_adapter_def sglang_set_hot_state apply_changes_state apply_loop_frame map_of_keys_None)
next
  case (3 e changes)
  then have eng: "mk_engine e = ''sglang''" by (simp add: sglang_ready_def)
  with 3 show ?case
    using sglang_ready_cong [of "snd (apply_changes rnd fr changes e)" e]
    by (simp add: sglang_adapter_def sglang_set_hot_state apply_changes_state apply_loop_same)
qed

section \<open>vLLM keeps the contract\<close>

text \<open>
  vLLM's adapter believes the engine's answer, and the engine stores integers truncated and log
  levels in capitals, so a value in force is the normalised form of the requested one.
\<close>

definition vllm_ready :: "mock \<Rightarrow> bool" where
  "vllm_ready s \<longleftrightarrow>
     mk_engine s = ''vllm'' \<and> wf_dict (mk_knobs s) \<and>
     set (keys (mk_knobs s)) \<subseteq>
       {''max_num_seqs'', ''max_num_batched_tokens'', ''long_prefill_token_threshold'', ''log_level''}"

definition normal_value :: "float_text \<Rightarrow> string \<Rightarrow> json \<Rightarrow> json \<Rightarrow> bool" where
  "normal_value fr k v w \<longleftrightarrow>
     (if k = ''log_level'' then w = JStr (upper (str_json fr v)) else \<exists>i. int_of v = Inr i \<and> w = JInt i)"

lemma vllm_normal:
  assumes "vllm_ready s" and "apply_value rnd fr s k v = Inr (Inr w)"
  shows "normal_value fr k v w"
proof (cases "k = ''log_level''")
  case True
  then show ?thesis
    using assms(2) by (simp add: apply_value_def str_choices_def normal_value_def split: if_splits)
next
  case False
  have "k \<in> set (keys (mk_knobs s))" using assms(2) by (rule apply_value_known)
  with False assms(1) have "plain_knob k"
    by (auto simp: vllm_ready_def plain_knob_def str_choices_def)
  then show ?thesis
    using False apply_value_plain [OF assms(2)] by (metis normal_value_def)
qed

lemma vllm_set_hot_run:
  assumes "mk_engine s = ''vllm''"
  shows "vllm_set_hot (mock_http rnd fr) cs s =
    (case apply_changes rnd fr cs s of
       (Inl e, t) \<Rightarrow> (Inl ConnectionError, t)
     | (Inr (a, r), t) \<Rightarrow>
         (Inr \<lparr>r_ok = (r = []), r_applied = a, r_rejected = r,
            r_http_status = (if r = [] then 200 else 400)\<rparr>, t))"
  by (auto simp: vllm_set_hot_def post_def mock_http_def mock_post_vllm [OF assms] andthen_def
      object_of_def sub_object_def dget_def split: prod.split sum.split)

lemma vllm_in_force:
  assumes "vllm_ready s" and "hot_changes cs"
    and run: "vllm_set_hot (mock_http rnd fr) cs s = (Inr res, s')" and ok: "r_ok res"
    and k: "map_of cs k = Some v"
  shows "\<exists>w. map_of (mk_knobs s') k = Some w \<and> normal_value fr k v w"
proof -
  have eng: "mk_engine s = ''vllm''" using assms(1) by (simp add: vllm_ready_def)
  obtain a t where ch: "apply_changes rnd fr cs s = (Inr (a, []), t)" "s' = t"
    using run ok by (auto simp: vllm_set_hot_run [OF eng] split: prod.splits sum.splits)
  then obtain t' where loop: "apply_loop rnd fr cs [] [] s = (Inr (a, []), t')" "mk_knobs t = mk_knobs t'"
    by (rule_tac apply_changes_cases [OF assms(2), of rnd fr s]) auto
  then obtain w where "apply_value rnd fr s k v = Inr (Inr w)" "map_of (mk_knobs t') k = Some w"
    using apply_loop_accepts [OF loop(1) _ k] assms(2) by (auto simp: hot_changes_def)
  then show ?thesis using vllm_normal [OF assms(1)] ch(2) loop(2) by auto
qed

interpretation vllm: hot_adapter "vllm_adapter (mock_http rnd fr) fr" mk_knobs "normal_value fr" vllm_ready hot_changes
  for rnd fr
proof (unfold_locales, goal_cases)
  case (1 e changes r e' k v)
  then show ?case by (intro vllm_in_force) (simp_all add: vllm_adapter_def)
next
  case (2 e changes k)
  then have eng: "mk_engine e = ''vllm''" by (simp add: vllm_ready_def)
  have "snd (vllm_set_hot (mock_http rnd fr) changes e) = snd (apply_changes rnd fr changes e)"
    by (simp add: vllm_set_hot_run [OF eng] split: prod.split sum.split)
  with 2 show ?case
    by (simp add: vllm_adapter_def apply_changes_state apply_loop_frame map_of_keys_None)
next
  case (3 e changes)
  then have eng: "mk_engine e = ''vllm''" by (simp add: vllm_ready_def)
  have "snd (vllm_set_hot (mock_http rnd fr) changes e) = snd (apply_changes rnd fr changes e)"
    by (simp add: vllm_set_hot_run [OF eng] split: prod.split sum.split)
  with 3 show ?case
    by (simp add: vllm_adapter_def vllm_ready_def apply_changes_state apply_loop_same wf_dict_def)
qed

section \<open>Pushes that succeed\<close>

text \<open>
  An engine accepts a push when its verdict on every change is to store it. The SGLang adapter
  compares what it reads back with what it sent, so there the stored value has to be equal to
  the requested one.
\<close>

definition accepts :: "rounding \<Rightarrow> float_text \<Rightarrow> mock \<Rightarrow> fields \<Rightarrow> bool" where
  "accepts rnd fr s cs \<longleftrightarrow>
     list_all (\<lambda>(k, v). case apply_value rnd fr s k v of Inr (Inr w) \<Rightarrow> True | _ \<Rightarrow> False) cs"

definition accepts_equal :: "rounding \<Rightarrow> float_text \<Rightarrow> mock \<Rightarrow> fields \<Rightarrow> bool" where
  "accepts_equal rnd fr s cs \<longleftrightarrow>
     list_all (\<lambda>(k, v). case apply_value rnd fr s k v of Inr (Inr w) \<Rightarrow> py_eq w v | _ \<Rightarrow> False) cs"

lemma accepts_equal_accepts: "accepts_equal rnd fr s cs \<Longrightarrow> accepts rnd fr s cs"
  unfolding accepts_def accepts_equal_def
  by (rule list.pred_mono_strong, assumption) (auto split: sum.splits)

lemma accepts_Cons: "accepts rnd fr s ((k, v) # cs) \<longleftrightarrow>
    (\<exists>w. apply_value rnd fr s k v = Inr (Inr w)) \<and> accepts rnd fr s cs"
  by (auto simp: accepts_def split: sum.splits)

lemma accepts_equal_value:
  assumes "accepts_equal rnd fr s cs" and "(k, v) \<in> set cs" and "apply_value rnd fr s k v = Inr (Inr w)"
  shows "py_eq w v"
proof -
  have "case apply_value rnd fr s k v of Inr (Inr w) \<Rightarrow> py_eq w v | _ \<Rightarrow> False"
    using assms(1,2) by (auto simp: accepts_equal_def list_all_iff)
  with assms(3) show ?thesis by simp
qed

lemma apply_loop_succeeds:
  "accepts rnd fr s cs \<Longrightarrow> \<exists>a' s'. apply_loop rnd fr cs a r s = (Inr (a', r), s')"
proof (induction cs arbitrary: a s)
  case (Cons c cs)
  obtain k v where c: "c = (k, v)" by (cases c)
  obtain w where w: "apply_value rnd fr s k v = Inr (Inr w)" and rest: "accepts rnd fr s cs"
    using Cons.prems by (auto simp: c accepts_Cons)
  have "apply_value rnd fr (set_knob k w s) = apply_value rnd fr s"
    by (rule apply_value_cong) (simp add: set_knob_keys apply_value_known [OF w], simp add: set_knob_def)
  then have "accepts rnd fr (set_knob k w s) cs" using rest by (simp add: accepts_def)
  then show ?case using Cons.IH w by (simp add: c)
qed simp

lemma apply_changes_succeeds:
  assumes "hot_changes cs" and "accepts rnd fr s cs"
  obtains a t where "apply_loop rnd fr cs [] [] s = (Inr (a, []), t)"
    and "apply_changes rnd fr cs s = (Inr (a, []), t\<lparr>mk_applied_calls := Suc (mk_applied_calls t)\<rparr>)"
  using apply_loop_succeeds [OF assms(2), of "[]" "[]"] that
  by (auto simp: apply_changes_hot [OF assms(1)] count_call_def)

interpretation sglang_live: live_adapter "sglang_adapter (mock_http rnd fr) fr" mk_knobs equal_value
  sglang_ready hot_changes "accepts_equal rnd fr" for rnd fr
proof (unfold_locales, goal_cases)
  case (1 e cs)
  then have eng: "mk_engine e = ''sglang''" by (simp add: sglang_ready_def)
  obtain a t where loop: "apply_loop rnd fr cs [] [] e = (Inr (a, []), t)"
    and ch: "apply_changes rnd fr cs e = (Inr (a, []), t\<lparr>mk_applied_calls := Suc (mk_applied_calls t)\<rparr>)"
    using apply_changes_succeeds [OF 1(2) accepts_equal_accepts [OF 1(3)]] by blast
  let ?t = "t\<lparr>mk_applied_calls := Suc (mk_applied_calls t)\<rparr>"
  have ready: "sglang_ready ?t"
    using 1(1) apply_loop_same [of rnd fr cs "[]" "[]" e] loop by (simp add: sglang_ready_def wf_dict_def)
  have wf: "wf_dict cs" using 1(2) by (simp add: hot_changes_def)
  have "confirmed (sglang_live ?t) cs = cs"
    unfolding confirmed_def filter_id_conv
  proof clarify
    fix k v assume kv: "(k, v) \<in> set cs"
    then obtain w where w: "apply_value rnd fr e k v = Inr (Inr w)" "map_of (mk_knobs t) k = Some w"
      using apply_loop_accepts [OF loop wf map_of_wf [OF wf kv]] by blast
    then show "py_eq (dget k (sglang_live ?t)) v"
      using accepts_equal_value [OF 1(3) kv] map_of_sglang_live [OF ready, of k] by (simp add: dget_def)
  qed
  then show ?case
    by (simp add: sglang_adapter_def sglang_set_hot_run [OF eng 1(2)] ch)
qed

interpretation vllm_live: live_adapter "vllm_adapter (mock_http rnd fr) fr" mk_knobs "normal_value fr"
  vllm_ready hot_changes "accepts rnd fr" for rnd fr
proof (unfold_locales, goal_cases)
  case (1 e cs)
  then have eng: "mk_engine e = ''vllm''" by (simp add: vllm_ready_def)
  show ?case
    by (rule apply_changes_succeeds [OF 1(2,3)])
      (simp add: vllm_adapter_def vllm_set_hot_run [OF eng])
qed

end
