(* ===== verification/Store_Runs.thy ===== *)
theory Store_Runs
  imports Store
begin

text \<open>
  The runs of the config store: one step per public method of \<open>Store\<close>, the states those steps
  reach, the invariant they keep, and what holds of the history over a whole run.
\<close>

section \<open>Steps and reachable states\<close>

inductive store_step :: "store \<Rightarrow> store \<Rightarrow> bool" where
  step_propose: "store_step s (snd (propose g flds by_whom reason s))"
| step_promote: "store_step s (snd (promote g i s))"
| step_rollback: "store_step s (snd (rollback g i s))"
| step_set_overrides: "store_step s (snd (set_overrides rs i c s))"
| step_clear_overrides: "store_step s (snd (clear_overrides c s))"
| step_open_canary: "store_step s (snd (open_canary g i scope gates w s))"
| step_close_canary: "store_step s (snd (close_canary c st dec s))"
| step_record_status: "store_step s (snd (record_status r g a st d s))"

inductive store_run :: "store \<Rightarrow> store \<Rightarrow> bool" where
  run_refl: "store_run s s"
| run_step: "store_run s t \<Longrightarrow> store_step t u \<Longrightarrow> store_run s u"

definition reachable :: "(nat \<Rightarrow> pyfloat) \<Rightarrow> store \<Rightarrow> bool" where
  "reachable clk s \<longleftrightarrow> store_run (empty_store clk) s"

lemma store_run_trans: "store_run t u \<Longrightarrow> store_run s t \<Longrightarrow> store_run s u"
  by (induction rule: store_run.induct) (auto intro: store_run.intros)

section \<open>Every step keeps the invariant\<close>

lemma version_in_append: "version_in s i g \<Longrightarrow> version_in (s\<lparr>t_version := t_version s @ ws\<rparr>) i g"
  by (auto simp: version_in_def)

lemma version_in_cong: "t_version s = t_version t \<Longrightarrow> version_in s i g = version_in t i g"
  by (simp add: version_in_def)

lemma wf_propose:
  assumes "wf_store s"
  shows "wf_store (snd (propose grp flds created_by reason s))"
proof -
  obtain parent where p: "desired grp s = (Inr parent, s)"
    and par: "\<And>v. parent = Some v \<Longrightarrow> v \<in> set (t_version s) \<and> cv_group v = grp"
    using desired_total [OF assms, of grp] by (metis option.inject option.simps(3))
  let ?w = "new_version grp (map_option cv_id parent) flds created_by reason s"
  let ?t = "s\<lparr>version_seq := version_seq s + 1, t_version := t_version s @ [?w],
    clock_reads := Suc (clock_reads s)\<rparr>"
  have grow: "version_in s i g \<Longrightarrow> version_in ?t i g" for i g
    by (auto simp: version_in_def)
  have ids: "\<forall>v \<in> set (t_version s). cv_id v < version_seq s + 1"
    using assms by (force simp: wf_store_def wf_versions_def)
  have "sorted_wrt (<) (map cv_id (t_version ?t))"
    using assms ids by (auto simp: wf_store_def wf_versions_def sorted_wrt_append new_version_def)
  moreover have "q < cv_id ?w \<and> version_in ?t q grp" if "map_option cv_id parent = Some q" for q
    using that par ids by (auto simp: version_in_def new_version_def)
  then have "\<forall>v \<in> set (t_version ?t). 0 < cv_id v \<and> cv_id v \<le> version_seq ?t \<and>
      (\<forall>q. cv_parent v = Some q \<longrightarrow> q < cv_id v \<and> version_in ?t q (cv_group v))"
    using assms grow by (force simp: wf_store_def wf_versions_def new_version_def)
  ultimately have "wf_versions ?t"
    using assms by (simp add: wf_store_def wf_versions_def)
  then show ?thesis
    using assms grow
    by (simp add: propose_run [OF assms p]) (auto simp: wf_store_def wf_desired_def wf_canaries_def wf_status_def)
qed

lemma wf_promote: "wf_store s \<Longrightarrow> wf_store (snd (promote grp i s))"
  by (rule promote_cases [of s i grp])
    (auto simp: wf_store_defs version_in_def split: if_splits)

lemma wf_set_overrides_step: "wf_store s \<Longrightarrow> wf_store (snd (set_overrides rs i c s))"
  by (auto simp: set_overrides_run wf_store_defs version_in_def intro: wf_set_overrides)

lemma wf_clear_overrides: "wf_store s \<Longrightarrow> wf_store (snd (clear_overrides c s))"
  by (auto simp: clear_overrides_def wf_store_defs version_in_def)

lemma wf_open_canary:
  assumes "wf_store s"
  shows "wf_store (snd (open_canary grp cand scope gates w s))"
proof -
  obtain base where "desired grp s = (Inr base, s)"
    using desired_total [OF assms, of grp] by metis
  then show ?thesis
    using assms by (simp add: open_canary_run)
      (force simp: wf_store_defs version_in_def sorted_wrt_append)
qed

lemma wf_close_canary: "wf_store s \<Longrightarrow> wf_store (snd (close_canary cid st dec s))"
proof -
  have ids: "c_id \<circ> (\<lambda>c. if c_id c = cid then c\<lparr>c_status := st, c_decided_at := Some n, c_decision := dec\<rparr>
      else c) = c_id" for n
    by (rule ext) simp
  assume "wf_store s"
  then show ?thesis
    by (auto simp: close_canary_run wf_store_defs version_in_def ids)
qed

lemma wf_record_status: "wf_store s \<Longrightarrow> wf_store (snd (record_status r grp a st d s))"
  by (auto simp: record_status_run wf_store_defs version_in_def split: if_splits)

lemma wf_step: "store_step s t \<Longrightarrow> wf_store s \<Longrightarrow> wf_store t"
  by (induction rule: store_step.induct)
    (auto intro: wf_propose wf_promote wf_set_overrides_step wf_clear_overrides wf_open_canary
      wf_close_canary wf_record_status simp: rollback_def)

lemma wf_run: "store_run s t \<Longrightarrow> wf_store s \<Longrightarrow> wf_store t"
  by (induction rule: store_run.induct) (auto intro: wf_step)

lemma wf_reachable: "reachable clk s \<Longrightarrow> wf_store s"
  by (simp add: reachable_def wf_run wf_empty_store)

section \<open>Every step extends the history\<close>

lemma history_propose: "wf_store s \<Longrightarrow> prefix (t_version s) (t_version (snd (propose g f b why s)))"
  by (rule desired_total [of s g]) (simp_all add: propose_run)

lemma history_others:
  "t_version (snd (promote g i s)) = t_version s"
  "t_version (snd (set_overrides rs i c s)) = t_version s"
  "t_version (snd (clear_overrides c s)) = t_version s"
  "t_version (snd (close_canary c st dec s)) = t_version s"
  "t_version (snd (record_status r g a st d s)) = t_version s"
  by (rule promote_cases [of s i g], simp_all)
    (simp_all add: set_overrides_run clear_overrides_def close_canary_run record_status_run)

lemma history_open_canary: "wf_store s \<Longrightarrow> t_version (snd (open_canary g i scope gates w s)) = t_version s"
  by (rule desired_total [of s g]) (simp_all add: open_canary_run)

lemma history_step: "store_step s t \<Longrightarrow> wf_store s \<Longrightarrow> prefix (t_version s) (t_version t)"
  by (induction rule: store_step.induct)
    (simp_all add: history_propose history_others history_open_canary rollback_def)

lemma history_run: "store_run s t \<Longrightarrow> wf_store s \<Longrightarrow> prefix (t_version s) (t_version t)"
proof (induction rule: store_run.induct)
  case (run_step s t u)
  then have "prefix (t_version s) (t_version t)" "prefix (t_version t) (t_version u)"
    by (auto intro: history_step wf_run)
  then show ?case by (rule prefix_order.trans)
qed simp

lemma reachable_empty: "reachable clk (empty_store clk)"
  by (simp add: reachable_def run_refl)

lemma reachable_step: "reachable clk s \<Longrightarrow> store_step s t \<Longrightarrow> reachable clk t"
  by (simp add: reachable_def run_step)

text \<open>A small store the witnesses run on: one version of group \<open>g\<close>, promoted.\<close>

definition clk0 :: "nat \<Rightarrow> pyfloat" where
  "clk0 n = Fin (of_nat n)"

definition demo_v1 :: config_version where
  "demo_v1 = \<lparr>cv_id = 1, cv_group = ''g'', cv_parent = None,
     cv_fields = [(''max_running_requests'', JInt 16)], cv_created_by = ''t'', cv_reason = ''base'',
     cv_created_at = Fin 0\<rparr>"

definition demo_proposed :: store where
  "demo_proposed = (empty_store clk0)\<lparr>version_seq := 1, t_version := [demo_v1], clock_reads := 1\<rparr>"

definition demo_store :: store where
  "demo_store = demo_proposed\<lparr>t_desired := [(''g'', 1, Fin 1)], clock_reads := 2\<rparr>"

lemma demo_propose:
  "propose ''g'' [(''max_running_requests'', JInt 16)] ''t'' ''base'' (empty_store clk0) =
     (Inr demo_v1, demo_proposed)"
  by (subst propose_run [OF wf_empty_store, where parent = None])
    (simp_all add: desired_def empty_store_def new_version_def demo_v1_def demo_proposed_def
      sorted_fields_def clk0_def)

lemma demo_promote: "promote ''g'' 1 demo_proposed = (Inr (), demo_store)"
  by (simp add: promote_def version_def demo_proposed_def demo_store_def demo_v1_def time_now_def
      upsert_desired_def empty_store_def clk0_def)

lemma reachable_demo_proposed: "reachable clk0 demo_proposed"
  using reachable_step [OF reachable_empty step_propose] demo_propose by (metis snd_conv)

lemma reachable_demo: "reachable clk0 demo_store"
  using reachable_step [OF reachable_demo_proposed step_promote] demo_promote by (metis snd_conv)

lemma demo_desired: "desired ''g'' demo_store = (Inr (Some demo_v1), demo_store)"
  by (simp add: desired_def version_def demo_store_def demo_proposed_def demo_v1_def)

text \<open>A proposal and a promotion that succeed, by the tables they leave.\<close>

lemma propose_local:
  assumes "wf_store s"
  shows "\<exists>v s1. propose g flds who why s = (Inr v, s1) \<and> wf_store s1 \<and> t_version s1 = t_version s @ [v] \<and>
    t_desired s1 = t_desired s \<and> t_status s1 = t_status s \<and> cv_group v = g \<and>
    cv_fields v = sorted_fields flds \<and> cv_created_by v = who \<and> cv_reason v = why \<and>
    t_override s1 = t_override s"
proof -
  obtain parent where "desired g s = (Inr parent, s)"
    using desired_total [OF assms, of g] by metis
  from propose_run [OF assms this, of flds who why] wf_propose [OF assms, of g flds who why]
  show ?thesis by (simp add: new_version_def)
qed

lemma promote_local:
  assumes "wf_store s" and "v \<in> set (t_version s)"
  shows "\<exists>s1. promote (cv_group v) (cv_id v) s = (Inr (), s1) \<and> t_version s1 = t_version s \<and>
    desired (cv_group v) s1 = (Inr (Some v), s1) \<and> wf_store s1 \<and> t_override s1 = t_override s"
proof -
  have wf: "wf_versions s" using assms(1) by (simp add: wf_store_def)
  note run = promote_run [OF wf assms(2)]
  have w: "wf_store (snd (promote (cv_group v) (cv_id v) s))" by (rule wf_promote [OF assms(1)])
  then have "wf_versions (snd (promote (cv_group v) (cv_id v) s))" by (simp add: wf_store_def)
  from version_run [OF this, of v] assms(2) w show ?thesis
    by (simp add: run desired_def)
qed

section \<open>Properties\<close>

text \<open>
  C3. In every reachable state of the store the tables are consistent: version ids increase and
  stay below the counter, parents are older versions of the same group, and the desired version
  of every group exists and belongs to it.
\<close>

theorem reachable_store_consistent:
  assumes "reachable clk s"
  shows "wf_store s"
  using assms by (rule wf_reachable)

theorem reachable_store_consistent_witness: "wf_store demo_store"
  by (rule reachable_store_consistent [OF reachable_demo])

text \<open>
  C4. The history is append-only: whatever methods are called, the versions that were there
  stay there, unchanged and in place, and new ones come after them.
\<close>

theorem history_append_only:
  assumes "reachable clk s" and "store_run s t"
  shows "prefix (t_version s) (t_version t)"
  using assms by (blast intro: history_run wf_reachable)

theorem history_append_only_witness:
  "prefix [demo_v1] (t_version (snd (propose ''g'' [] ''t'' ''r'' demo_store)))"
  using history_append_only [OF reachable_demo run_step [OF run_refl step_propose]]
  by (simp add: demo_store_def demo_proposed_def)

text \<open>
  C5. Promotion moves the group exactly when the version exists and belongs to the group; then
  the group's desired version is that one. Otherwise the call raises and nothing changes.
\<close>

theorem promote_outcome:
  assumes "reachable clk s"
  shows "if version_in s i grp
    then \<exists>v. fst (promote grp i s) = Inr () \<and> cv_id v = i \<and> v \<in> set (t_version s) \<and>
      fst (desired grp (snd (promote grp i s))) = Inr (Some v)
    else (\<exists>e. promote grp i s = (Inl e, s))"
proof -
  have wf: "wf_versions s" using assms wf_reachable wf_store_def by blast
  show ?thesis
  proof (rule promote_cases [of s i grp])
    fix v assume v: "v \<in> set (t_version s)" "cv_id v = i" "cv_group v = grp"
      and run: "promote grp i s = (Inr (), (tick_clock s)\<lparr>t_desired := dset grp (i, now_of s) (t_desired s)\<rparr>)"
    have "version i ((tick_clock s)\<lparr>t_desired := d\<rparr>) = (Inr v, (tick_clock s)\<lparr>t_desired := d\<rparr>)" for d
      using version_run [of "(tick_clock s)\<lparr>t_desired := d\<rparr>" v] wf v
      by (simp add: wf_versions_def version_in_def)
    then show ?thesis using v run by (auto simp: version_in_def desired_def)
  next
    fix v assume v: "v \<in> set (t_version s)" "cv_id v = i" "cv_group v \<noteq> grp"
      and run: "promote grp i s = (Inl (wrong_group i (cv_group v) grp), s)"
    have "u = v" if "u \<in> set (t_version s)" "cv_id u = i" for u
      using version_run [OF wf that(1)] version_run [OF wf v(1)] that(2) v(2) by simp
    with v have "\<not> version_in s i grp" unfolding version_in_def by blast
    with run show ?thesis by simp
  next
    assume "\<forall>v \<in> set (t_version s). cv_id v \<noteq> i"
      and "promote grp i s = (Inl (KeyError (''no config_version '' @ show_int i)), s)"
    then show ?thesis by (auto simp: version_in_def)
  qed
qed

theorem promote_outcome_witness:
  "\<exists>v. fst (promote ''g'' 1 demo_proposed) = Inr () \<and> cv_id v = 1 \<and> v \<in> set (t_version demo_proposed) \<and>
     fst (desired ''g'' (snd (promote ''g'' 1 demo_proposed))) = Inr (Some v)"
  using promote_outcome [OF reachable_demo_proposed, of 1 "''g''"]
  by (simp add: version_in_def demo_proposed_def demo_v1_def)

text \<open>
  C6. Rollback always works: a version that was once desired by its group can be made desired
  again at any later time, whatever happened in between, and reading the group's desired version
  then returns the very record that was proposed, with its fields, author and reason.
\<close>

theorem rollback_restores:
  assumes "reachable clk s" and "fst (desired grp s) = Inr (Some v)" and "store_run s t"
  shows "fst (rollback grp (cv_id v) t) = Inr () \<and>
    fst (desired grp (snd (rollback grp (cv_id v) t))) = Inr (Some v)"
proof -
  have wf: "wf_store s" "wf_store t"
    using assms by (auto intro: wf_reachable wf_run)
  have v: "v \<in> set (t_version s) \<and> cv_group v = grp"
    by (rule desired_total [OF wf(1), of grp]) (use assms(2) in simp_all)
  then have vt: "v \<in> set (t_version t)"
    using history_run [OF assms(3) wf(1)] set_mono_prefix by blast
  have wft: "wf_versions t" using wf(2) by (simp add: wf_store_def)
  show ?thesis
    using promote_run [OF wft vt] v
      version_run [of "(tick_clock t)\<lparr>t_desired := dset grp (cv_id v, now_of t) (t_desired t)\<rparr>" v] wft vt
    by (simp add: rollback_def desired_def wf_versions_def version_in_def)
qed

theorem rollback_restores_witness:
  "fst (desired ''g'' (snd (rollback ''g'' 1 (snd (set_overrides [''r0''] 9 4 demo_store))))) =
     Inr (Some demo_v1)"
  using rollback_restores [OF reachable_demo, of "''g''" demo_v1,
      OF _ run_step [OF run_refl step_set_overrides]]
  by (simp add: demo_desired) (simp add: demo_v1_def)

lemma version_other:
  "t_version s = t_version t \<Longrightarrow> fst (version i s) = fst (version i t)"
  by (simp add: version_def split: option.splits)

text \<open>A read that finds its version returns it, and a version missing from the table raises.\<close>

definition found :: "exn + config_version \<Rightarrow> exn + config_version option" where
  "found r = (case r of Inl e \<Rightarrow> Inl e | Inr v \<Rightarrow> Inr (Some v))"

lemma version_Some: "fst (andthen (version i) (\<lambda>v. ret (Some v)) s) = found (fst (version i s))"
  by (simp add: andthen_def found_def split: prod.splits sum.splits)

lemma desired_cong:
  "t_version s = t_version t \<Longrightarrow> t_desired s = t_desired t \<Longrightarrow> fst (desired g s) = fst (desired g t)"
  by (auto simp: desired_def version_Some split: option.splits intro: arg_cong [where f = found] version_other)

lemma desired_for_eq_desired:
  "fst (desired_for r g s) =
     (case map_of (t_override s) r of None \<Rightarrow> fst (desired g s) | Some p \<Rightarrow> found (fst (version (fst p) s)))"
  by (auto simp: desired_for_def version_Some split: option.splits)

lemma wf_override: "reachable clk s \<Longrightarrow> wf_dict (t_override s)"
  using wf_reachable by (auto simp: wf_store_def wf_status_def)

text \<open>
  Overrides decide what a replica runs. While a canary's overrides are set, the replicas in
  its scope run the canary's version and every other replica runs what it ran before. Clearing
  them sends every replica whose override is the canary's back to the group's desired version
  and leaves all other replicas alone.
\<close>

theorem override_lifecycle:
  assumes "reachable clk s"
  shows "fst (desired_for r grp (snd (set_overrides rs i c s))) =
      (if r \<in> set rs then found (fst (version i s)) else fst (desired_for r grp s)) \<and>
    fst (desired_for r grp (snd (clear_overrides c (snd (set_overrides rs i c s))))) =
      (if r \<in> set rs \<or> (\<exists>j. map_of (t_override s) r = Some (j, c))
       then fst (desired grp s) else fst (desired_for r grp s))"
proof -
  let ?o = "foldl (\<lambda>d r. dset r (i, c) d) (t_override s) rs"
  have wf: "wf_dict ?o" by (intro wf_set_overrides wf_override [OF assms])
  have d: "fst (desired grp (s\<lparr>t_override := x\<rparr>)) = fst (desired grp s)" for x
    by (rule desired_cong) simp_all
  have v: "fst (version j (s\<lparr>t_override := x\<rparr>)) = fst (version j s)" for j x
    by (rule version_other) simp
  have "fst (desired_for r grp (snd (set_overrides rs i c s))) =
      (if r \<in> set rs then found (fst (version i s)) else fst (desired_for r grp s))"
    by (auto simp: desired_for_eq_desired set_overrides_run map_of_set_overrides d v split: option.split)
  moreover have "map_of (filter (\<lambda>(r, v, c'). c' \<noteq> c) ?o) r =
      (if r \<in> set rs \<or> (\<exists>j. map_of (t_override s) r = Some (j, c)) then None else map_of (t_override s) r)"
    by (auto simp: map_of_filter_wf [OF wf] map_of_set_overrides split: option.split)
  then have "fst (desired_for r grp (snd (clear_overrides c (snd (set_overrides rs i c s))))) =
      (if r \<in> set rs \<or> (\<exists>j. map_of (t_override s) r = Some (j, c))
       then fst (desired grp s) else fst (desired_for r grp s))"
    by (cases "map_of (t_override s) r") (auto simp: desired_for_eq_desired set_overrides_run clear_overrides_def d v)
  ultimately show ?thesis by blast
qed

theorem override_lifecycle_witness:
  "fst (desired_for ''r0'' ''g'' (snd (set_overrides [''r0''] 9 4 demo_store))) =
      Inl (KeyError ''no config_version 9'') \<and>
   fst (desired_for ''r0'' ''g'' (snd (clear_overrides 4 (snd (set_overrides [''r0''] 9 4 demo_store))))) =
      Inr (Some demo_v1)"
proof -
  have "show_int 9 = ''9''" by code_simp
  then have "fst (version 9 demo_store) = Inl (KeyError ''no config_version 9'')"
    by (simp add: version_def demo_store_def demo_proposed_def demo_v1_def)
  then show ?thesis
    using override_lifecycle [OF reachable_demo, of "''r0''" "''g''" "[''r0'']" 9 4]
    by (simp add: demo_desired found_def)
qed

end
