(* ===== verification/Local_Store.thy ===== *)
theory Local_Store
  imports Interfaces Store_Runs
begin

text \<open>
  The local store keeps the contract \<open>replica_store\<close>: what a replica's daemon proves from the
  contract holds for a daemon that opens the database itself.
\<close>

definition local_target :: "store \<Rightarrow> string \<Rightarrow> string \<Rightarrow> exn + config_version option" where
  "local_target s r g = fst (desired_for r g s)"

definition report_of :: "status_row \<Rightarrow> report" where
  "report_of row = (s_group row, s_applied row, s_state row, s_detail row)"

definition local_reported :: "store \<Rightarrow> string \<Rightarrow> report option" where
  "local_reported s r = map_option report_of (map_of (t_status s) r)"

text \<open>The tables a target depends on.\<close>

lemma local_target_cong:
  assumes "t_version s = t_version t" and "t_desired s = t_desired t" and "t_override s = t_override t"
  shows "local_target s = local_target t"
  using desired_cong [OF assms(1,2)] version_other [OF assms(1)] assms(3)
  by (intro ext) (simp add: local_target_def desired_for_eq_desired split: option.split)

lemma record_status_local:
  "local_target (snd (record_status r g a st d s)) = local_target s"
  "local_reported (snd (record_status r g a st d s)) = (local_reported s)(r \<mapsto> (g, a, st, d))"
  by (rule local_target_cong)
    (simp_all add: record_status_run local_reported_def report_of_def fun_eq_iff)

interpretation local_plane: replica_store local_store local_target local_reported wf_store "\<lambda>_. True"
proof (unfold_locales, goal_cases)
  case (1 s r g)
  show ?case
    using desired_for_eq [of r g s] by (simp add: local_store_def local_target_def)
next
  case (3 s r g a st d)
  then show ?case by (simp add: local_store_def wf_record_status)
qed (simp_all add: local_store_def record_status_local, simp add: record_status_run)

end
