(* ===== verification/Reconciler.thy ===== *)
theory Reconciler
  imports Adapter_Contracts Local_Store Manifest
begin

text \<open>
  The reconciler (\<open>trimtab/reconciler.py\<close>): one replica, one adapter, one loop. A tick is a
  statement over the store, the engine and the daemon's memory. It is written against the
  interfaces of the store and of the adapter, and its facts are proved once, in the locale
  \<open>daemon\<close>, from the contracts of both; they are then read off for the local store with either
  engine.
\<close>

section \<open>What a daemon runs on\<close>

text \<open>
  The store and the engine belong to others too; a daemon's own memory extends this record.
\<close>

record ('s, 'e) world =
  w_store :: 's
  w_engine :: 'e

definition on_store :: "('s, 'a) stmt \<Rightarrow> (('s, 'e, 'z) world_scheme, 'a) stmt" where
  "on_store m w = (case m (w_store w) of (r, s) \<Rightarrow> (r, w\<lparr>w_store := s\<rparr>))"

definition on_engine :: "('e, 'a) stmt \<Rightarrow> (('s, 'e, 'z) world_scheme, 'a) stmt" where
  "on_engine m w = (case m (w_engine w) of (r, e) \<Rightarrow> (r, w\<lparr>w_engine := e\<rparr>))"

lemma on_store_run: "m (w_store w) = (r, s) \<Longrightarrow> on_store m w = (r, w\<lparr>w_store := s\<rparr>)"
  by (simp add: on_store_def)

lemma on_engine_run: "m (w_engine w) = (r, e) \<Longrightarrow> on_engine m w = (r, w\<lparr>w_engine := e\<rparr>)"
  by (simp add: on_engine_def)

section \<open>The reconciler\<close>

definition HEALTHY :: string where "HEALTHY = ''healthy''"
definition APPLYING :: string where "APPLYING = ''applying''"
definition FAILED :: string where "FAILED = ''failed''"
definition NEEDS_REINIT :: string where "NEEDS_REINIT = ''needs_reinit''"

record ('s, 'e) reconciler = "('s, 'e) world" +
  applied_version_id :: "int option"
  last_result :: "apply_result option"

text \<open>What the constructor is given and never changes.\<close>

record ('s, 'e) reconciler_config =
  rc_api :: "'s store_api"
  rc_manifest :: manifest
  rc_adapter :: "'e adapter"
  rc_replica :: string
  rc_group :: string
  rc_text :: float_text

definition init_reconciler :: "'s \<Rightarrow> 'e \<Rightarrow> ('s, 'e) reconciler" where
  "init_reconciler s e = \<lparr>w_store = s, w_engine = e, applied_version_id = None, last_result = None\<rparr>"

definition is_cold :: "string \<Rightarrow> bool" where
  "is_cold reason \<longleftrightarrow> contains ''cold'' reason \<or> contains ''warm'' reason"

definition cold_part :: "string dict \<Rightarrow> string dict" where
  "cold_part rejected = filter (\<lambda>(k, r). is_cold r) rejected"

definition bad_part :: "string dict \<Rightarrow> string dict" where
  "bad_part rejected = filter (\<lambda>(k, r). k \<notin> set (keys (cold_part rejected))) rejected"

text \<open>\<open>self.store.record_status(self.replica_id, self.group, \<dots>)\<close>, then the tick's own result.\<close>

definition report ::
  "('s, 'e) reconciler_config \<Rightarrow> int option \<Rightarrow> string \<Rightarrow> string \<Rightarrow> (('s, 'e) reconciler, unit) stmt" where
  "report c applied state detail =
     on_store (api_record_status (rc_api c) (rc_replica c) (rc_group c) applied state detail)"

definition set_applied :: "int \<Rightarrow> (('s, 'e) reconciler, unit) stmt" where
  "set_applied i w = (Inr (), w\<lparr>applied_version_id := Some i\<rparr>)"

definition keep_result :: "apply_result \<Rightarrow> (('s, 'e) reconciler, unit) stmt" where
  "keep_result r w = (Inr (), w\<lparr>last_result := Some r\<rparr>)"

definition push_hot :: "('s, 'e) reconciler_config \<Rightarrow> fields \<Rightarrow> (('s, 'e) reconciler, apply_result) stmt" where
  "push_hot c hot = (if hot \<noteq> [] then on_engine (a_set_hot (rc_adapter c) hot) else ret applied_nothing)"

definition finish :: "('s, 'e) reconciler_config \<Rightarrow> int \<Rightarrow> string dict \<Rightarrow> (('s, 'e) reconciler, string) stmt" where
  "finish c vid cold =
     andthen (set_applied vid) (\<lambda>_.
     if cold \<noteq> [] then
       andthen (report c (Some vid) NEEDS_REINIT (''cold fields pending '' @ repr_str_list (sort (keys cold))))
         (\<lambda>_. ret NEEDS_REINIT)
     else andthen (report c (Some vid) HEALTHY []) (\<lambda>_. ret HEALTHY))"

definition apply_version :: "('s, 'e) reconciler_config \<Rightarrow> config_version \<Rightarrow> (('s, 'e) reconciler, string) stmt" where
  "apply_version c v w =
     (let applied = applied_version_id w;
          (hot, rejected) = validate (rc_text c) (rc_manifest c) (cv_fields v);
          cold = cold_part rejected;
          bad = bad_part rejected
      in if bad \<noteq> [] then
           andthen (report c applied FAILED (''manifest rejected '' @ repr_str_dict bad)) (\<lambda>_. ret FAILED) w
         else
           andthen (report c applied APPLYING []) (\<lambda>_.
           andthen (push_hot c hot) (\<lambda>result.
           andthen (keep_result result) (\<lambda>_.
           if \<not> r_ok result then
             andthen (report c applied FAILED (''engine rejected '' @ repr_dict (rc_text c) (r_rejected result)))
               (\<lambda>_. ret FAILED)
           else finish c (cv_id v) cold))) w)"

definition tick :: "('s, 'e) reconciler_config \<Rightarrow> (('s, 'e) reconciler, string) stmt" where
  "tick c =
     andthen (on_store (api_desired_for (rc_api c) (rc_replica c) (rc_group c))) (\<lambda>d.
     \<lambda>w. case d of
       None \<Rightarrow> andthen (report c (applied_version_id w) HEALTHY []) (\<lambda>_. ret HEALTHY) w
     | Some v \<Rightarrow>
         if applied_version_id w = Some (cv_id v)
         then andthen (report c (applied_version_id w) HEALTHY []) (\<lambda>_. ret HEALTHY) w
         else apply_version c v w)"

text \<open>\<open>run\<close> repeats the tick until it is told to stop; a tick that raises ends it.\<close>

fun run_ticks :: "nat \<Rightarrow> ('s, 'e) reconciler_config \<Rightarrow> (('s, 'e) reconciler, string list) stmt" where
  "run_ticks 0 c = ret []"
| "run_ticks (Suc n) c = andthen (tick c) (\<lambda>r. andthen (run_ticks n c) (\<lambda>rs. ret (r # rs)))"

section \<open>The reasons of the manifest, told apart\<close>

lemma keys_cold_bad: "wf_dict d \<Longrightarrow> bad_part d = filter (\<lambda>(k, r). \<not> is_cold r) d"
proof -
  assume wf: "wf_dict d"
  have "k \<notin> set (keys (cold_part d)) \<longleftrightarrow> \<not> is_cold r" if "(k, r) \<in> set d" for k r
  proof
    assume "k \<notin> set (keys (cold_part d))"
    then show "\<not> is_cold r" using that by (force simp: cold_part_def keys_def)
  next
    assume n: "\<not> is_cold r"
    show "k \<notin> set (keys (cold_part d))"
    proof
      assume "k \<in> set (keys (cold_part d))"
      then obtain r' where "(k, r') \<in> set d" "is_cold r'" by (auto simp: cold_part_def keys_def)
      with that n wf show False by (metis map_of_wf option.inject)
    qed
  qed
  then show ?thesis unfolding bad_part_def by (auto intro: filter_cong)
qed

section \<open>Ticks from the contracts\<close>

text \<open>What the daemon pushes to the engine, an empty push being no call at all.\<close>

definition engine_push :: "'e adapter \<Rightarrow> fields \<Rightarrow> ('e, apply_result) stmt" where
  "engine_push ad hot = (if hot \<noteq> [] then a_set_hot ad hot else ret applied_nothing)"

lemma push_hot_engine: "push_hot c hot w = on_engine (engine_push (rc_adapter c) hot) w"
  by (simp add: push_hot_def engine_push_def on_engine_def)

definition wired :: "'s store_api \<Rightarrow> (string \<Rightarrow> bool) \<Rightarrow> ('s, 'e) reconciler_config \<Rightarrow> bool" where
  "wired api named c \<longleftrightarrow> rc_api c = api \<and> named (rc_replica c) \<and> named (rc_group c)"

definition hot_of :: "('s, 'e) reconciler_config \<Rightarrow> config_version \<Rightarrow> fields" where
  "hot_of c v = fst (validate (rc_text c) (rc_manifest c) (cv_fields v))"

definition cold_of :: "('s, 'e) reconciler_config \<Rightarrow> config_version \<Rightarrow> string dict" where
  "cold_of c v = cold_part (snd (validate (rc_text c) (rc_manifest c) (cv_fields v)))"

definition bad_of :: "('s, 'e) reconciler_config \<Rightarrow> config_version \<Rightarrow> string dict" where
  "bad_of c v = bad_part (snd (validate (rc_text c) (rc_manifest c) (cv_fields v)))"

context replica_store begin

lemma report_run:
  assumes "wired api named c" and "inv (w_store w)"
  obtains s where "report c a st d w = (Inr (), w\<lparr>w_store := s\<rparr>)" and "inv s"
    and "target s = target (w_store w)"
    and "reported s = (reported (w_store w))(rc_replica c \<mapsto> (rc_group c, a, st, d))"
proof -
  let ?m = "api_record_status api (rc_replica c) (rc_group c) a st d"
  have n: "named (rc_replica c)" "named (rc_group c)" and api: "rc_api c = api"
    using assms(1) by (simp_all add: wired_def)
  have "?m (w_store w) = (Inr (), snd (?m (w_store w)))"
    using record_ok [OF assms(2) n] by (metis prod.collapse)
  then have "report c a st d w = (Inr (), w\<lparr>w_store := snd (?m (w_store w))\<rparr>)"
    unfolding report_def api by (rule on_store_run)
  then show ?thesis
    using that record_inv [OF assms(2) n] record_target [OF assms(2) n] record_reported [OF assms(2) n]
    by blast
qed

lemma read_target:
  assumes "wired api named c" and "inv (w_store w)"
  shows "on_store (api_desired_for (rc_api c) (rc_replica c) (rc_group c)) w =
    (target (w_store w) (rc_replica c) (rc_group c), w)"
  using assms desired_for_target [of "w_store w" "rc_replica c" "rc_group c"]
  by (simp add: on_store_def wired_def)

lemma report_at:
  assumes "wired api named c" and "inv s" and "w_store w = s"
  shows "\<exists>s'. report c a st d w = (Inr (), w\<lparr>w_store := s'\<rparr>) \<and> inv s' \<and> target s' = target s \<and>
    reported s' (rc_replica c) = Some (rc_group c, a, st, d)"
  using report_run [OF assms(1), of w a st d] assms(2,3) by (metis fun_upd_same)

text \<open>A tick whose target is gone raises and does nothing else.\<close>

lemma tick_lost:
  assumes "wired api named c" and "inv (w_store w)"
    and "target (w_store w) (rc_replica c) (rc_group c) = Inl e"
  shows "tick c w = (Inl e, w)"
  using read_target [OF assms(1,2)] assms(3) by (simp add: tick_def)

text \<open>A tick with nothing to do reports healthy and touches neither the engine nor the memory.\<close>

lemma tick_settled:
  assumes "wired api named c" and "inv (w_store w)"
    and "target (w_store w) (rc_replica c) (rc_group c) = Inr d"
    and "d = None \<or> applied_version_id w = map_option cv_id d"
  obtains s where "tick c w = (Inr HEALTHY, w\<lparr>w_store := s\<rparr>)" and "inv s"
    and "target s = target (w_store w)"
    and "reported s = (reported (w_store w))(rc_replica c \<mapsto> (rc_group c, applied_version_id w, HEALTHY, []))"
proof -
  obtain s where s: "report c (applied_version_id w) HEALTHY [] w = (Inr (), w\<lparr>w_store := s\<rparr>)" "inv s"
      "target s = target (w_store w)"
      "reported s = (reported (w_store w))(rc_replica c \<mapsto> (rc_group c, applied_version_id w, HEALTHY, []))"
    using report_run [OF assms(1,2)] by blast
  then have "tick c w = (Inr HEALTHY, w\<lparr>w_store := s\<rparr>)"
    using read_target [OF assms(1,2)] assms(3,4) by (cases d) (simp_all add: tick_def)
  with s that show ?thesis by blast
qed

lemma tick_apply:
  assumes "wired api named c" and "inv (w_store w)"
    and "target (w_store w) (rc_replica c) (rc_group c) = Inr (Some v)"
    and "applied_version_id w \<noteq> Some (cv_id v)"
  shows "tick c w = apply_version c v w"
  using read_target [OF assms(1,2)] assms(3,4) by (simp add: tick_def)

lemma tick_rejected:
  assumes "wired api named c" and "inv (w_store w)"
    and "target (w_store w) (rc_replica c) (rc_group c) = Inr (Some v)"
    and "applied_version_id w \<noteq> Some (cv_id v)" and "bad_of c v \<noteq> []"
  obtains s where "tick c w = (Inr FAILED, w\<lparr>w_store := s\<rparr>)" and "inv s"
    and "target s = target (w_store w)"
    and "reported s (rc_replica c) = Some (rc_group c, applied_version_id w, FAILED,
      ''manifest rejected '' @ repr_str_dict (bad_of c v))"
proof -
  obtain s where s: "report c (applied_version_id w) FAILED (''manifest rejected '' @ repr_str_dict (bad_of c v)) w =
      (Inr (), w\<lparr>w_store := s\<rparr>)" "inv s" "target s = target (w_store w)"
      "reported s (rc_replica c) = Some (rc_group c, applied_version_id w, FAILED,
        ''manifest rejected '' @ repr_str_dict (bad_of c v))"
    using report_run [OF assms(1,2)] by (metis fun_upd_same)
  then have "tick c w = (Inr FAILED, w\<lparr>w_store := s\<rparr>)"
    using assms(5) unfolding tick_apply [OF assms(1-4)]
    by (simp add: apply_version_def bad_of_def Let_def case_prod_beta)
  with s that show ?thesis by blast
qed

text \<open>A tick that pushes: what the engine answers decides.\<close>

lemma tick_pushed:
  assumes "wired api named c" and "inv (w_store w)"
    and "target (w_store w) (rc_replica c) (rc_group c) = Inr (Some v)"
    and "applied_version_id w \<noteq> Some (cv_id v)" and "bad_of c v = []"
    and push: "engine_push (rc_adapter c) (hot_of c v) (w_engine w) = (Inr res, e)" and "r_ok res"
  obtains s where "tick c w = (Inr (if cold_of c v = [] then HEALTHY else NEEDS_REINIT),
      w\<lparr>w_store := s, w_engine := e, last_result := Some res, applied_version_id := Some (cv_id v)\<rparr>)"
    and "inv s" and "target s = target (w_store w)"
    and "reported s (rc_replica c) = Some (rc_group c, Some (cv_id v),
      if cold_of c v = [] then HEALTHY else NEEDS_REINIT,
      if cold_of c v = [] then [] else ''cold fields pending '' @ repr_str_list (sort (keys (cold_of c v))))"
proof -
  obtain s where s: "report c (applied_version_id w) APPLYING [] w = (Inr (), w\<lparr>w_store := s\<rparr>)"
      "inv s" "target s = target (w_store w)"
    using report_run [OF assms(1,2)] by metis
  let ?w = "w\<lparr>w_store := s, w_engine := e, last_result := Some res, applied_version_id := Some (cv_id v)\<rparr>"
  have "push_hot c (hot_of c v) (w\<lparr>w_store := s\<rparr>) = (Inr res, w\<lparr>w_store := s, w_engine := e\<rparr>)"
    using push by (simp add: push_hot_engine on_engine_def)
  then have tick: "tick c w = finish c (cv_id v) (cold_of c v)
      (w\<lparr>w_store := s, w_engine := e, last_result := Some res\<rparr>)"
    unfolding tick_apply [OF assms(1-4)]
    using s assms(5,7)
    by (simp add: apply_version_def bad_of_def hot_of_def cold_of_def Let_def case_prod_beta keep_result_def)
  let ?st = "if cold_of c v = [] then HEALTHY else NEEDS_REINIT"
  let ?d = "if cold_of c v = [] then [] else ''cold fields pending '' @ repr_str_list (sort (keys (cold_of c v)))"
  obtain s' where s': "report c (Some (cv_id v)) ?st ?d ?w = (Inr (), ?w\<lparr>w_store := s'\<rparr>)"
      "inv s'" "target s' = target s"
      "reported s' (rc_replica c) = Some (rc_group c, Some (cv_id v), ?st, ?d)"
    using report_at [OF assms(1) s(2), of ?w "Some (cv_id v)" ?st ?d] by auto
  show ?thesis
  proof (rule that [of s'])
    show "tick c w = (Inr ?st, w\<lparr>w_store := s', w_engine := e, last_result := Some res, applied_version_id := Some (cv_id v)\<rparr>)"
      using s'(1) by (cases "cold_of c v = []") (simp_all add: tick finish_def set_applied_def)
  qed (use s' s in auto)
qed

lemma tick_refused:
  assumes "wired api named c" and "inv (w_store w)"
    and "target (w_store w) (rc_replica c) (rc_group c) = Inr (Some v)"
    and "applied_version_id w \<noteq> Some (cv_id v)" and "bad_of c v = []"
    and push: "engine_push (rc_adapter c) (hot_of c v) (w_engine w) = (Inr res, e)" and "\<not> r_ok res"
  obtains s where "tick c w = (Inr FAILED, w\<lparr>w_store := s, w_engine := e, last_result := Some res\<rparr>)"
    and "inv s" and "target s = target (w_store w)"
    and "reported s (rc_replica c) = Some (rc_group c, applied_version_id w, FAILED,
      ''engine rejected '' @ repr_dict (rc_text c) (r_rejected res))"
proof -
  obtain s where s: "report c (applied_version_id w) APPLYING [] w = (Inr (), w\<lparr>w_store := s\<rparr>)"
      "inv s" "target s = target (w_store w)"
    using report_run [OF assms(1,2)] by metis
  let ?w = "w\<lparr>w_store := s, w_engine := e, last_result := Some res\<rparr>"
  have push': "push_hot c (hot_of c v) (w\<lparr>w_store := s\<rparr>) = (Inr res, w\<lparr>w_store := s, w_engine := e\<rparr>)"
    using push by (simp add: push_hot_engine on_engine_def)
  let ?d = "''engine rejected '' @ repr_dict (rc_text c) (r_rejected res)"
  obtain s' where s': "report c (applied_version_id w) FAILED ?d ?w = (Inr (), ?w\<lparr>w_store := s'\<rparr>)"
      "inv s'" "target s' = target s"
      "reported s' (rc_replica c) = Some (rc_group c, applied_version_id w, FAILED, ?d)"
    using report_at [OF assms(1) s(2), of ?w "applied_version_id w" FAILED ?d] by auto
  have "tick c w = (Inr FAILED, w\<lparr>w_store := s', w_engine := e, last_result := Some res\<rparr>)"
    unfolding tick_apply [OF assms(1-4)]
    using s push' s' assms(5,7)
    by (simp add: apply_version_def bad_of_def hot_of_def cold_of_def Let_def case_prod_beta keep_result_def)
  then show ?thesis using that s s' by metis
qed

text \<open>A push that raises ends the tick with the status at \<open>applying\<close> and nothing applied.\<close>

lemma tick_raised:
  assumes "wired api named c" and "inv (w_store w)"
    and "target (w_store w) (rc_replica c) (rc_group c) = Inr (Some v)"
    and "applied_version_id w \<noteq> Some (cv_id v)" and "bad_of c v = []"
    and push: "engine_push (rc_adapter c) (hot_of c v) (w_engine w) = (Inl x, e)"
  obtains s where "tick c w = (Inl x, w\<lparr>w_store := s, w_engine := e\<rparr>)" and "inv s"
    and "target s = target (w_store w)"
    and "reported s (rc_replica c) = Some (rc_group c, applied_version_id w, APPLYING, [])"
proof -
  obtain s where s: "report c (applied_version_id w) APPLYING [] w = (Inr (), w\<lparr>w_store := s\<rparr>)" "inv s"
      "target s = target (w_store w)"
      "reported s (rc_replica c) = Some (rc_group c, applied_version_id w, APPLYING, [])"
    using report_at [OF assms(1,2) refl] by blast
  have "push_hot c (hot_of c v) (w\<lparr>w_store := s\<rparr>) = (Inl x, w\<lparr>w_store := s, w_engine := e\<rparr>)"
    using push by (simp add: push_hot_engine on_engine_def)
  then have "tick c w = (Inl x, w\<lparr>w_store := s, w_engine := e\<rparr>)"
    unfolding tick_apply [OF assms(1-4)] using s assms(5)
    by (simp add: apply_version_def bad_of_def hot_of_def Let_def case_prod_beta)
  with s that show ?thesis by blast
qed

text \<open>Once a version is applied, further ticks report and do nothing else.\<close>

lemma run_ticks_settled:
  assumes "wired api named c" and "inv (w_store w)"
    and "target (w_store w) (rc_replica c) (rc_group c) = Inr d"
    and "d = None \<or> applied_version_id w = map_option cv_id d"
  shows "\<exists>s. run_ticks n c w = (Inr (replicate n HEALTHY), w\<lparr>w_store := s\<rparr>) \<and> inv s \<and>
    target s = target (w_store w) \<and>
    (0 < n \<longrightarrow> reported s (rc_replica c) = Some (rc_group c, applied_version_id w, HEALTHY, []))"
  using assms(2,3,4)
proof (induction n arbitrary: w)
  case 0
  then show ?case by (intro exI [of _ "w_store w"]) simp
next
  case (Suc n)
  obtain s where s: "tick c w = (Inr HEALTHY, w\<lparr>w_store := s\<rparr>)" "inv s" "target s = target (w_store w)"
      "reported s (rc_replica c) = Some (rc_group c, applied_version_id w, HEALTHY, [])"
    using tick_settled [OF assms(1) Suc.prems] by (metis fun_upd_same)
  obtain s' where s': "run_ticks n c (w\<lparr>w_store := s\<rparr>) = (Inr (replicate n HEALTHY), w\<lparr>w_store := s'\<rparr>)"
      "inv s'" "target s' = target s"
      "0 < n \<longrightarrow> reported s' (rc_replica c) = Some (rc_group c, applied_version_id w, HEALTHY, [])"
    using Suc.IH [of "w\<lparr>w_store := s\<rparr>"] s Suc.prems by auto
  have "reported s' (rc_replica c) = Some (rc_group c, applied_version_id w, HEALTHY, [])"
    using s s' by (cases n) (auto dest: arg_cong [where f = w_store])
  then show ?case using s s' by (intro exI [of _ s']) simp
qed

text \<open>A status that says a reinit is needed lasts until the next tick.\<close>

lemma needs_reinit_then_healthy:
  assumes "wired api named c" and "inv (w_store w)" and "tick c w = (Inr NEEDS_REINIT, w')"
  shows "\<exists>w''. tick c w' = (Inr HEALTHY, w'') \<and> w_engine w'' = w_engine w' \<and>
    reported (w_store w'') (rc_replica c) = Some (rc_group c, applied_version_id w', HEALTHY, [])"
proof -
  obtain d where d: "target (w_store w) (rc_replica c) (rc_group c) = Inr d"
    using tick_lost [OF assms(1,2)] assms(3)
    by (cases "target (w_store w) (rc_replica c) (rc_group c)") auto
  have ne: "NEEDS_REINIT \<noteq> HEALTHY" "NEEDS_REINIT \<noteq> FAILED"
    by (simp_all add: HEALTHY_def NEEDS_REINIT_def FAILED_def)
  obtain v where v: "d = Some v" "applied_version_id w \<noteq> Some (cv_id v)"
    using tick_settled [OF assms(1,2) d] assms(3) ne(1)
    by (metis Inr_inject option.collapse option.map(2) prod.inject)
  note at = assms(1,2) d [unfolded v(1)] v(2)
  have bad: "bad_of c v = []"
    using tick_rejected [OF at] assms(3) ne(2) by (metis Inr_inject prod.inject)
  obtain r e where push: "engine_push (rc_adapter c) (hot_of c v) (w_engine w) = (r, e)" by fastforce
  have "r \<noteq> Inl x" for x
    using tick_raised [OF at bad, of x e] push assms(3) by (metis fst_conv sum.distinct(1))
  then obtain res where res: "r = Inr res" by (metis sum.exhaust)
  have ok: "r_ok res"
    using tick_refused [OF at bad push [unfolded res]] assms(3) ne(2) by (metis Inr_inject prod.inject)
  obtain s where "w' = w\<lparr>w_store := s, w_engine := e, last_result := Some res, applied_version_id := Some (cv_id v)\<rparr>"
      "inv s" "target s = target (w_store w)"
    using tick_pushed [OF at bad push [unfolded res] ok] assms(3) by (metis prod.inject)
  then have w': "inv (w_store w')" "target (w_store w') (rc_replica c) (rc_group c) = Inr (Some v)"
      "applied_version_id w' = map_option cv_id (Some v)"
    using at(3) by simp_all
  then obtain s' where "tick c w' = (Inr HEALTHY, w'\<lparr>w_store := s'\<rparr>)"
      "reported s' (rc_replica c) = Some (rc_group c, applied_version_id w', HEALTHY, [])"
    using tick_settled [OF assms(1), of w' "Some v"] by (metis fun_upd_same)
  then show ?thesis by (intro exI [of _ "w'\<lparr>w_store := s'\<rparr>"]) simp
qed

end

text \<open>What a daemon gains from an adapter that keeps its contract.\<close>

locale daemon =
  replica_store api target reported inv named +
  hot_adapter ad knobs_of in_force einv pushable
  for api :: "'s store_api" and target reported inv named
    and ad :: "'e adapter" and knobs_of in_force einv pushable
begin

text \<open>
  A tick that neither fails nor raises has put the version in force: every field the manifest
  admits is live in the engine, every other knob is where it was, and the version is recorded
  as applied.
\<close>

lemma tick_in_force:
  assumes "wired api named c" and ad: "rc_adapter c = ad" and "inv (w_store w)" and "einv (w_engine w)"
    and "pushable (hot_of c v)"
    and "target (w_store w) (rc_replica c) (rc_group c) = Inr (Some v)"
    and "applied_version_id w \<noteq> Some (cv_id v)"
    and "tick c w = (Inr st, w')" and "st \<noteq> FAILED"
  shows "applied_version_id w' = Some (cv_id v) \<and>
    (\<forall>k x. map_of (hot_of c v) k = Some x \<longrightarrow>
      (\<exists>y. map_of (knobs_of (w_engine w')) k = Some y \<and> in_force k x y)) \<and>
    (\<forall>k. map_of (hot_of c v) k = None \<longrightarrow>
      map_of (knobs_of (w_engine w')) k = map_of (knobs_of (w_engine w)) k) \<and>
    einv (w_engine w') \<and> inv (w_store w') \<and> target (w_store w') = target (w_store w)"
proof -
  have bad: "bad_of c v = []"
    using tick_rejected [OF assms(1,3,6,7)] assms(8,9) by (metis Inr_inject prod.inject)
  obtain r e where push: "engine_push (rc_adapter c) (hot_of c v) (w_engine w) = (r, e)" by fastforce
  show ?thesis
  proof (cases r)
    case (Inl x)
    then have "fst (tick c w) = Inl x"
      using tick_raised [OF assms(1,3,6,7) bad, of x e] push ad by (metis fst_conv)
    with assms(8) show ?thesis by simp
  next
    case (Inr res)
    have ok: "r_ok res"
      using tick_refused [OF assms(1,3,6,7) bad push [unfolded Inr]] assms(8,9) by (metis Inr_inject prod.inject)
    obtain s where "w' = w\<lparr>w_store := s, w_engine := e, last_result := Some res, applied_version_id := Some (cv_id v)\<rparr>"
        "inv s" "target s = target (w_store w)"
      using tick_pushed [OF assms(1,3,6,7) bad push [unfolded Inr] ok] assms(8) by (metis prod.inject)
    moreover have "(map_of (hot_of c v) k = Some x \<longrightarrow>
        (\<exists>y. map_of (knobs_of e) k = Some y \<and> in_force k x y)) \<and>
      (map_of (hot_of c v) k = None \<longrightarrow> map_of (knobs_of e) k = map_of (knobs_of (w_engine w)) k) \<and> einv e" for k x
    proof (cases "hot_of c v = []")
      case True
      then show ?thesis using push assms(4) by (simp add: engine_push_def)
    next
      case False
      then have run: "a_set_hot ad (hot_of c v) (w_engine w) = (Inr res, e)"
        using push Inr by (simp add: engine_push_def ad)
      then show ?thesis
        using set_hot_in_force [OF assms(4,5) run ok, of k] set_hot_frame [OF assms(4,5), of k]
          set_hot_inv [OF assms(4,5)] by auto
    qed
    ultimately show ?thesis by auto
  qed
qed

end

section \<open>Convergence\<close>

locale live_daemon =
  daemon api target reported inv named ad knobs_of in_force einv pushable +
  live_adapter ad knobs_of in_force einv pushable acceptable
  for api :: "'s store_api" and target reported inv named
    and ad :: "'e adapter" and knobs_of in_force einv pushable acceptable
begin

text \<open>
  If the manifest rejects nothing but cold fields and the engine finds the rest acceptable, the
  first tick puts the version in force and every later tick only reports.
\<close>

lemma converges:
  assumes "wired api named c" and ad: "rc_adapter c = ad" and "inv (w_store w)" and "einv (w_engine w)"
    and "pushable (hot_of c v)"
    and "target (w_store w) (rc_replica c) (rc_group c) = Inr (Some v)"
    and "applied_version_id w \<noteq> Some (cv_id v)" and "bad_of c v = []"
    and "acceptable (w_engine w) (hot_of c v)"
  shows "\<exists>w'. run_ticks (Suc n) c w =
      (Inr ((if cold_of c v = [] then HEALTHY else NEEDS_REINIT) # replicate n HEALTHY), w') \<and>
    applied_version_id w' = Some (cv_id v) \<and>
    (\<forall>k x. map_of (hot_of c v) k = Some x \<longrightarrow>
      (\<exists>y. map_of (knobs_of (w_engine w')) k = Some y \<and> in_force k x y)) \<and>
    (\<forall>k. map_of (hot_of c v) k = None \<longrightarrow>
      map_of (knobs_of (w_engine w')) k = map_of (knobs_of (w_engine w)) k) \<and>
    (0 < n \<longrightarrow> reported (w_store w') (rc_replica c) = Some (rc_group c, Some (cv_id v), HEALTHY, []))"
proof -
  have "\<exists>res e. engine_push (rc_adapter c) (hot_of c v) (w_engine w) = (Inr res, e) \<and> r_ok res"
    using set_hot_accepts [OF assms(4,5,9)] by (auto simp: engine_push_def ad applied_nothing_def)
  then obtain res e where push: "engine_push (rc_adapter c) (hot_of c v) (w_engine w) = (Inr res, e)" "r_ok res"
    by blast
  let ?st = "if cold_of c v = [] then HEALTHY else NEEDS_REINIT"
  obtain s where tick: "tick c w = (Inr ?st,
      w\<lparr>w_store := s, w_engine := e, last_result := Some res, applied_version_id := Some (cv_id v)\<rparr>)"
      and s: "inv s" "target s = target (w_store w)"
    using tick_pushed [OF assms(1,3,6,7,8) push] by metis
  let ?w = "w\<lparr>w_store := s, w_engine := e, last_result := Some res, applied_version_id := Some (cv_id v)\<rparr>"
  have "?st \<noteq> FAILED" by (simp add: HEALTHY_def NEEDS_REINIT_def FAILED_def)
  note force = tick_in_force [OF assms(1,2,3,4,5,6,7) tick this]
  obtain s' where run: "run_ticks n c ?w = (Inr (replicate n HEALTHY), ?w\<lparr>w_store := s'\<rparr>)"
      and rep: "0 < n \<longrightarrow> reported s' (rc_replica c) = Some (rc_group c, Some (cv_id v), HEALTHY, [])"
    using run_ticks_settled [OF assms(1), of ?w "Some v" n] s assms(6) by auto
  have "run_ticks (Suc n) c w = (Inr (?st # replicate n HEALTHY), ?w\<lparr>w_store := s'\<rparr>)"
    using tick run by simp
  then show ?thesis
    using force rep by (intro exI [of _ "?w\<lparr>w_store := s'\<rparr>"]) simp
qed

end

end
