(* ===== verification/Daemons.thy ===== *)
theory Daemons
  imports Reconciler
begin

text \<open>
  The reconciler on the local store, with either engine. The contracts of the store and of the
  adapters discharge the assumptions of the locales, so each property is read off a fact of
  \<open>daemon\<close>, \<open>live_daemon\<close> or \<open>replica_store\<close>.
\<close>

interpretation sglang_daemon: live_daemon local_store local_target local_reported wf_store "\<lambda>_. True"
  "sglang_adapter (mock_http rnd fr) fr" mk_knobs equal_value sglang_ready hot_changes "accepts_equal rnd fr"
  for rnd fr ..

interpretation vllm_daemon: live_daemon local_store local_target local_reported wf_store "\<lambda>_. True"
  "vllm_adapter (mock_http rnd fr) fr" mk_knobs "normal_value fr" vllm_ready hot_changes "accepts rnd fr"
  for rnd fr ..

definition replica_on :: "'e adapter \<Rightarrow> manifest \<Rightarrow> string \<Rightarrow> string \<Rightarrow> float_text \<Rightarrow> (store, 'e) reconciler_config" where
  "replica_on ad m r g fr =
     \<lparr>rc_api = local_store, rc_manifest = m, rc_adapter = ad, rc_replica = r, rc_group = g, rc_text = fr\<rparr>"

lemma replica_on_sel [simp]:
  "rc_api (replica_on ad m r g fr) = local_store" "rc_manifest (replica_on ad m r g fr) = m"
  "rc_adapter (replica_on ad m r g fr) = ad" "rc_replica (replica_on ad m r g fr) = r"
  "rc_group (replica_on ad m r g fr) = g" "rc_text (replica_on ad m r g fr) = fr"
  by (simp_all add: replica_on_def)

lemma wired_replica [simp]: "wired local_store (\<lambda>_. True) (replica_on ad m r g fr)"
  by (simp add: wired_def)

text \<open>A manifest none of whose knobs is spelled like a request for a reinit.\<close>

definition plain_manifest :: "manifest \<Rightarrow> bool" where
  "plain_manifest m \<longleftrightarrow> list_all (\<lambda>(k, kn). \<not> is_reinit_key k) (knobs m)"

lemma hot_of_replica: "wf_dict (cv_fields v) \<Longrightarrow>
    hot_of (replica_on ad m r g fr) v = filter (admissible m) (cv_fields v)"
  by (simp add: hot_of_def validate_eq)

lemma hot_changes_admissible:
  assumes "plain_manifest m" and "wf_dict flds"
  shows "hot_changes (filter (admissible m) flds)"
  unfolding hot_changes_def
proof
  show "\<forall>k \<in> set (keys (filter (admissible m) flds)). \<not> is_reinit_key k"
  proof
    fix k assume "k \<in> set (keys (filter (admissible m) flds))"
    then obtain kn where "map_of (knobs m) k = Some kn" by (auto simp: keys_def admissible_def)
    then have "(k, kn) \<in> set (knobs m)" by (rule map_of_SomeD)
    with assms(1) show "\<not> is_reinit_key k" by (auto simp: plain_manifest_def list_all_iff)
  qed
qed (use assms(2) in auto)

text \<open>Every rejection of the fields is of a cold, warm or similarly worded kind.\<close>

definition only_cold :: "float_text \<Rightarrow> manifest \<Rightarrow> fields \<Rightarrow> bool" where
  "only_cold fr m flds \<longleftrightarrow> list_all (\<lambda>(k, r). is_cold r) (rejections fr m flds)"

lemma bad_of_replica: "wf_dict (cv_fields v) \<Longrightarrow>
    bad_of (replica_on ad m r g fr) v = [] \<longleftrightarrow> only_cold fr m (cv_fields v)"
  by (auto simp: bad_of_def validate_eq keys_cold_bad wf_rejections only_cold_def list_all_iff filter_empty_conv)

lemma cold_of_replica: "wf_dict (cv_fields v) \<Longrightarrow> only_cold fr m (cv_fields v) \<Longrightarrow>
    cold_of (replica_on ad m r g fr) v = rejections fr m (cv_fields v)"
  by (auto simp: cold_of_def validate_eq cold_part_def only_cold_def list_all_iff filter_id_conv)

lemma map_of_filter_admissible: "wf_dict flds \<Longrightarrow> map_of (filter (admissible m) flds) k =
    (case map_of flds k of None \<Rightarrow> None | Some x \<Rightarrow> if admissible m (k, x) then Some x else None)"
  by (rule map_of_filter_wf)

text \<open>A small plane for the witnesses: one replica of group \<open>g\<close> on a booted engine.\<close>

definition demo_world :: "string \<Rightarrow> (store, mock) reconciler" where
  "demo_world engine = init_reconciler demo_store (make_mock engine 128 1024 8192 16384)"

definition demo_text :: float_text where
  "demo_text f = ''1''"

lemma demo_sglang_ready: "sglang_ready (w_engine (demo_world ''sglang''))"
  by (simp add: sglang_ready_def demo_world_def init_reconciler_def make_mock_def boot_knobs_def sglang_hidden_def Let_def)

lemma demo_vllm_ready: "vllm_ready (w_engine (demo_world ''vllm''))"
  by (simp add: vllm_ready_def demo_world_def init_reconciler_def make_mock_def boot_knobs_def Let_def)

lemma demo_target: "local_target (w_store (demo_world e)) ''r0'' ''g'' = Inr (Some demo_v1)"
  using demo_desired
  by (simp add: local_target_def desired_for_eq_desired demo_world_def init_reconciler_def)
    (simp add: demo_store_def demo_proposed_def empty_store_def)

lemma demo_plain: "plain_manifest demo_manifest"
  by (simp add: plain_manifest_def demo_knobs is_reinit_key_def starts_with_def)

lemma demo_fields: "cv_fields demo_v1 = [(''max_running_requests'', JInt 16)]"
  by (simp add: demo_v1_def)

text \<open>The same plane with other fields in its one version.\<close>

definition demo_v :: "fields \<Rightarrow> config_version" where
  "demo_v flds = demo_v1\<lparr>cv_fields := flds\<rparr>"

definition demo_plane :: "string \<Rightarrow> fields \<Rightarrow> (store, mock) reconciler" where
  "demo_plane engine flds =
     init_reconciler (demo_store\<lparr>t_version := [demo_v flds]\<rparr>) (make_mock engine 128 1024 8192 16384)"

lemma demo_plane_sel [simp]:
  "applied_version_id (demo_plane e flds) = None"
  "w_engine (demo_plane e flds) = w_engine (demo_world e)"
  "cv_fields (demo_v flds) = flds" "cv_id (demo_v flds) = 1"
  by (simp_all add: demo_plane_def demo_world_def init_reconciler_def demo_v_def demo_v1_def)

lemma demo_plane_wf: "wf_store (w_store (demo_plane e flds))"
  by (simp add: demo_plane_def init_reconciler_def wf_store_defs version_in_def demo_store_def
      demo_proposed_def empty_store_def demo_v_def demo_v1_def)

lemma demo_plane_target: "local_target (w_store (demo_plane e flds)) ''r0'' ''g'' = Inr (Some (demo_v flds))"
  by (simp add: demo_plane_def init_reconciler_def local_target_def desired_for_def desired_def version_def
      demo_store_def demo_proposed_def empty_store_def demo_v_def demo_v1_def)

definition demo_seqs :: manifest where
  "demo_seqs = make_manifest ''vllm'' ''c0adee9'' [demo_cap\<lparr>k_field := ''max_num_seqs''\<rparr>]"

lemma demo_seqs_knobs: "knobs demo_seqs = [(''max_num_seqs'', demo_cap\<lparr>k_field := ''max_num_seqs''\<rparr>)]"
  by (simp add: demo_seqs_def make_manifest_def)

section \<open>Properties\<close>



text \<open>
  C9. On a vLLM engine, whatever the state of the plane: a tick that meets a new version and
  does not fail has put in force every field the manifest admits (in the engine's normal form),
  has moved no other knob and no replica's target, and the next tick finds nothing to do.
\<close>

theorem reported_success_is_true:
  assumes "plain_manifest m" and "wf_store (w_store w)" and "vllm_ready (w_engine w)"
    and "local_target (w_store w) r g = Inr (Some v)" and "wf_dict (cv_fields v)"
    and "applied_version_id w \<noteq> Some (cv_id v)"
    and "tick (replica_on (vllm_adapter (mock_http rnd fr) fr) m r g fr) w = (Inr st, w')" and "st \<noteq> FAILED"
  shows "applied_version_id w' = Some (cv_id v) \<and>
    (\<forall>k x. map_of (cv_fields v) k = Some x \<and> admissible m (k, x) \<longrightarrow>
      (\<exists>y. map_of (mk_knobs (w_engine w')) k = Some y \<and> normal_value fr k x y)) \<and>
    (\<forall>k. (\<forall>x. map_of (cv_fields v) k = Some x \<longrightarrow> \<not> admissible m (k, x)) \<longrightarrow>
      map_of (mk_knobs (w_engine w')) k = map_of (mk_knobs (w_engine w)) k) \<and>
    local_target (w_store w') = local_target (w_store w) \<and>
    fst (tick (replica_on (vllm_adapter (mock_http rnd fr) fr) m r g fr) w') = Inr HEALTHY"
proof -
  let ?c = "replica_on (vllm_adapter (mock_http rnd fr) fr) m r g fr"
  have hot: "hot_of ?c v = filter (admissible m) (cv_fields v)" by (rule hot_of_replica [OF assms(5)])
  have push: "hot_changes (hot_of ?c v)" unfolding hot by (rule hot_changes_admissible [OF assms(1,5)])
  have admitted: "map_of (filter (admissible m) (cv_fields v)) k = Some x \<longleftrightarrow>
      map_of (cv_fields v) k = Some x \<and> admissible m (k, x)" for k x
    using assms(5) by (auto simp: map_of_filter_admissible split: option.split)
  have unnamed: "map_of (filter (admissible m) (cv_fields v)) k = None \<longleftrightarrow>
      (\<forall>x. map_of (cv_fields v) k = Some x \<longrightarrow> \<not> admissible m (k, x))" for k
    using assms(5) by (auto simp: map_of_filter_admissible split: option.split)
  note force = vllm_daemon.tick_in_force [OF wired_replica replica_on_sel(3) assms(2,3) push, of st w']
  have t: "local_target (w_store w) (rc_replica ?c) (rc_group ?c) = Inr (Some v)" using assms(4) by simp
  note facts = force [OF t assms(6,7,8)]
  have "wf_store (w_store w')" and "local_target (w_store w') (rc_replica ?c) (rc_group ?c) = Inr (Some v)"
    and "Some v = None \<or> applied_version_id w' = map_option cv_id (Some v)"
    using facts t by simp_all
  then have "fst (tick ?c w') = Inr HEALTHY"
    using local_plane.tick_settled [OF wired_replica] by (metis fst_conv)
  with facts show ?thesis unfolding hot admitted unnamed by simp
qed

theorem reported_success_is_true_witness:
  "\<exists>w' y. applied_version_id w' = Some 1 \<and>
    map_of (mk_knobs (w_engine (w' :: (store, mock) reconciler))) ''max_num_seqs'' = Some y \<and>
    normal_value demo_text ''max_num_seqs'' (JInt 8) y"
proof -
  let ?f = "[(''max_num_seqs'', JInt 8)]"
  let ?c = "replica_on (vllm_adapter (mock_http Fin demo_text) demo_text) demo_seqs ''r0'' ''g'' demo_text"
  let ?w = "demo_plane ''vllm'' ?f"
  have "fst (tick ?c ?w) = Inr HEALTHY" by code_simp
  then obtain w' where tick: "tick ?c ?w = (Inr HEALTHY, w')" by (metis prod.collapse)
  have "HEALTHY \<noteq> FAILED" by (simp add: HEALTHY_def FAILED_def)
  moreover have "plain_manifest demo_seqs"
    by (simp add: plain_manifest_def demo_seqs_knobs is_reinit_key_def starts_with_def)
  moreover have "admissible demo_seqs (''max_num_seqs'', JInt 8)"
    by (simp add: admissible_def demo_seqs_knobs admits_def demo_cap_def HOT_def COLD_def WARM_def DEFERRED_def)
  ultimately show ?thesis
    using reported_success_is_true [OF _ demo_plane_wf _ demo_plane_target _ _ tick] demo_vllm_ready
    by (intro exI [of _ w']) auto
qed

text \<open>
  A version with a field the manifest rejects for a reason other than being cold fails on
  every replica, whatever its adapter: the engine is not called, the applied version stays, and
  the reasons are reported.
\<close>

theorem manifest_rejection_untouched:
  assumes "wf_store (w_store w)" and "local_target (w_store w) r g = Inr (Some v)"
    and "wf_dict (cv_fields v)" and "applied_version_id w \<noteq> Some (cv_id v)"
    and "\<not> only_cold fr m (cv_fields v)"
  shows "\<exists>s. tick (replica_on ad m r g fr) w = (Inr FAILED, w\<lparr>w_store := s\<rparr>) \<and>
    local_target s = local_target (w_store w) \<and>
    local_reported s r = Some (g, applied_version_id w, FAILED, ''manifest rejected '' @
      repr_str_dict (filter (\<lambda>(k, r). \<not> is_cold r) (rejections fr m (cv_fields v))))"
proof -
  let ?c = "replica_on ad m r g fr"
  have bad: "bad_of ?c v = filter (\<lambda>(k, r). \<not> is_cold r) (rejections fr m (cv_fields v))"
    using assms(3) by (simp add: bad_of_def validate_eq keys_cold_bad wf_rejections)
  have "bad_of ?c v \<noteq> []" using assms(3,5) bad_of_replica [of v ad m r g fr] by blast
  moreover have "local_target (w_store w) (rc_replica ?c) (rc_group ?c) = Inr (Some v)"
    using assms(2) by simp
  ultimately obtain s where "tick ?c w = (Inr FAILED, w\<lparr>w_store := s\<rparr>)"
      "local_target s = local_target (w_store w)"
      "local_reported s (rc_replica ?c) = Some (rc_group ?c, applied_version_id w, FAILED,
        ''manifest rejected '' @ repr_str_dict (bad_of ?c v))"
    using local_plane.tick_rejected [OF wired_replica assms(1) _ assms(4)] by metis
  then show ?thesis unfolding bad by auto
qed

theorem manifest_rejection_untouched_witness:
  "\<exists>s. tick (replica_on (sglang_adapter (mock_http Fin demo_text) demo_text) demo_manifest ''r0'' ''g'' demo_text)
      (demo_plane ''sglang'' [(''max_running_requests'', JInt 0)]) =
    (Inr FAILED, (demo_plane ''sglang'' [(''max_running_requests'', JInt 0)])\<lparr>w_store := s\<rparr>)"
proof -
  have "\<not> only_cold demo_text demo_manifest [(''max_running_requests'', JInt 0)]"
    by (simp add: only_cold_def rejections_def demo_admissible check_field_def demo_knobs demo_cap_def HOT_def
        COLD_def WARM_def DEFERRED_def right_number_def below_min_def demo_text_def is_cold_def contains_def
        sublist_code)
  then show ?thesis
    using manifest_rejection_untouched
      [OF demo_plane_wf [of "''sglang''" "[(''max_running_requests'', JInt 0)]"] demo_plane_target, where m = demo_manifest and fr = demo_text
        and ad = "sglang_adapter (mock_http Fin demo_text) demo_text"] by auto
qed

text \<open>
  A reinit that is needed is reported for one tick only: the tick after it reports the
  replica healthy, with no detail, although the cold fields are still pending.
\<close>

theorem needs_reinit_forgotten:
  assumes "wf_store (w_store w)" and "tick (replica_on ad m r g fr) w = (Inr NEEDS_REINIT, w')"
  shows "\<exists>w''. tick (replica_on ad m r g fr) w' = (Inr HEALTHY, w'') \<and> w_engine w'' = w_engine w' \<and>
    local_reported (w_store w'') r = Some (g, applied_version_id w', HEALTHY, [])"
  using local_plane.needs_reinit_then_healthy [OF wired_replica assms] by simp

theorem needs_reinit_forgotten_witness:
  "\<exists>w''. fst (tick (replica_on (sglang_adapter (mock_http Fin demo_text) demo_text) demo_manifest ''r0'' ''g''
      demo_text) w'') = Inr HEALTHY \<and> applied_version_id (w'' :: (store, mock) reconciler) = Some 1"
proof -
  let ?c = "replica_on (sglang_adapter (mock_http Fin demo_text) demo_text) demo_manifest ''r0'' ''g'' demo_text"
  let ?w = "demo_plane ''sglang'' [(''tp_size'', JInt 2)]"
  have "fst (tick ?c ?w) = Inr NEEDS_REINIT" and a: "applied_version_id (snd (tick ?c ?w)) = Some 1"
    by code_simp+
  then have "tick ?c ?w = (Inr NEEDS_REINIT, snd (tick ?c ?w))" by (metis prod.collapse)
  then show ?thesis
    using needs_reinit_forgotten [OF demo_plane_wf] a by (metis fst_conv)
qed

end
