(* ===== verification/Canary.thy ===== *)
theory Canary
  imports Reconciler
begin

text \<open>
  The canary orchestrator (\<open>trimtab/canary.py\<close>): the gates, the means of the samples, and the
  four operations of \<open>Canary\<close> over a store and a metrics source. The second component of the
  world is what the metrics source observes; it changes when it is sampled and while the
  orchestrator sleeps. Samples are floats. The two float formats of the findings, \<open>.4g\<close> and
  \<open>.3f\<close>, are arguments, like \<open>repr\<close>.
\<close>

section \<open>Gates\<close>

record gate_text =
  gt_repr :: float_text
  gt_4g :: float_text
  gt_3f :: float_text

type_synonym metrics = "pyfloat dict"

definition PASS :: string where "PASS = ''promoted''"
definition FAIL :: string where "FAIL = ''reverted''"

text \<open>
  \<open>g["metric"]\<close>, and the sample under it: the text of the metric and its value. A key that is no
  string is in no sample; a list or a mapping cannot be a key.
\<close>

definition gate_metric :: "float_text \<Rightarrow> fields \<Rightarrow> exn + (json \<times> string)" where
  "gate_metric fr g =
     (case map_of g ''metric'' of
        None \<Rightarrow> Inl (KeyError ''metric'')
      | Some (JArr _) \<Rightarrow> Inl TypeError
      | Some (JObj _) \<Rightarrow> Inl TypeError
      | Some j \<Rightarrow> Inr (j, str_json fr j))"

definition metric_value :: "metrics \<Rightarrow> json \<Rightarrow> pyfloat option" where
  "metric_value d j = (case j of JStr m \<Rightarrow> map_of d m | _ \<Rightarrow> None)"

text \<open>\<open>name in g and beyond(x, g[name])\<close>: comparing with something that is no number raises.\<close>

definition gate_bound :: "string \<Rightarrow> (pyfloat \<Rightarrow> bool) \<Rightarrow> fields \<Rightarrow> exn + bool" where
  "gate_bound name beyond g =
     (case map_of g name of
        None \<Rightarrow> Inr False
      | Some j \<Rightarrow> (case num_of j of None \<Rightarrow> Inl TypeError | Some x \<Rightarrow> Inr (beyond x)))"

definition has_ratio :: "fields \<Rightarrow> bool" where
  "has_ratio g \<longleftrightarrow> map_of g ''max_ratio'' \<noteq> None \<or> map_of g ''min_ratio'' \<noteq> None"

definition bound_text :: "gate_text \<Rightarrow> string \<Rightarrow> fields \<Rightarrow> string" where
  "bound_text tx name g = (case map_of g name of None \<Rightarrow> [] | Some j \<Rightarrow> str_json (gt_repr tx) j)"

definition gate_ok :: "gate_text \<Rightarrow> string \<Rightarrow> pyfloat \<Rightarrow> pyfloat option \<Rightarrow> bool \<times> string" where
  "gate_ok tx m c b =
     (True, m @ '': ok (canary '' @ gt_4g tx c @ '', baseline '' @
        (case b of None \<Rightarrow> ''None'' | Some x \<Rightarrow> gt_4g tx x) @ '')'')"

definition ratio_check ::
  "rounding \<Rightarrow> gate_text \<Rightarrow> fields \<Rightarrow> string \<Rightarrow> pyfloat \<Rightarrow> pyfloat option \<Rightarrow> exn + (bool \<times> string)" where
  "ratio_check rnd tx g m c b =
     (if b = None \<or> f_eq (the b) (Fin 0)
      then Inr (False, m @ '': no usable baseline for a ratio gate'')
      else case f_div rnd c (the b) of Inl e \<Rightarrow> Inl e | Inr r \<Rightarrow>
      case gate_bound ''max_ratio'' (\<lambda>x. f_lt x r) g of Inl e \<Rightarrow> Inl e | Inr over \<Rightarrow>
      if over then Inr (False, m @ '': ratio '' @ gt_3f tx r @ '' above max_ratio '' @ bound_text tx ''max_ratio'' g)
      else case gate_bound ''min_ratio'' (\<lambda>x. f_lt r x) g of Inl e \<Rightarrow> Inl e | Inr below \<Rightarrow>
      if below then Inr (False, m @ '': ratio '' @ gt_3f tx r @ '' below min_ratio '' @ bound_text tx ''min_ratio'' g)
      else Inr (gate_ok tx m c b))"

text \<open>The body of the loop of \<open>evaluate\<close>: whether the gate passed, and its finding.\<close>

definition gate_check ::
  "rounding \<Rightarrow> gate_text \<Rightarrow> metrics \<Rightarrow> metrics \<Rightarrow> fields \<Rightarrow> exn + (bool \<times> string)" where
  "gate_check rnd tx canary_metrics baseline_metrics g =
     (case gate_metric (gt_repr tx) g of Inl e \<Rightarrow> Inl e | Inr (j, m) \<Rightarrow>
      case metric_value canary_metrics j of
        None \<Rightarrow> Inr (False, m @ '': no canary sample, gate cannot pass'')
      | Some c \<Rightarrow>
      case gate_bound ''max_abs'' (\<lambda>x. f_lt x c) g of Inl e \<Rightarrow> Inl e | Inr over \<Rightarrow>
      if over then Inr (False, m @ '': canary '' @ gt_4g tx c @ '' above max_abs '' @ bound_text tx ''max_abs'' g)
      else case gate_bound ''min_abs'' (\<lambda>x. f_lt c x) g of Inl e \<Rightarrow> Inl e | Inr below \<Rightarrow>
      if below then Inr (False, m @ '': canary '' @ gt_4g tx c @ '' below min_abs '' @ bound_text tx ''min_abs'' g)
      else if has_ratio g then ratio_check rnd tx g m c (metric_value baseline_metrics j)
      else Inr (gate_ok tx m c (metric_value baseline_metrics j)))"

fun evaluate ::
  "rounding \<Rightarrow> gate_text \<Rightarrow> fields list \<Rightarrow> metrics \<Rightarrow> metrics \<Rightarrow> exn + (bool \<times> string list)" where
  "evaluate rnd tx [] cm bm = Inr (True, [])"
| "evaluate rnd tx (g # gs) cm bm =
     (case gate_check rnd tx cm bm g of Inl e \<Rightarrow> Inl e | Inr (p, f) \<Rightarrow>
      case evaluate rnd tx gs cm bm of Inl e \<Rightarrow> Inl e | Inr (ps, fs) \<Rightarrow> Inr (p \<and> ps, f # fs))"

section \<open>Means\<close>

text \<open>\<open>out\<close> and \<open>n\<close> have the same keys in the same order; here one dictionary holds both.\<close>

definition add_value :: "rounding \<Rightarrow> (pyfloat \<times> nat) dict \<Rightarrow> string \<times> pyfloat \<Rightarrow> (pyfloat \<times> nat) dict" where
  "add_value rnd acc kv =
     (let (s, n) = (case map_of acc (fst kv) of None \<Rightarrow> (Fin 0, 0) | Some p \<Rightarrow> p)
      in dset (fst kv) (f_add rnd s (snd kv), Suc n) acc)"

definition totals :: "rounding \<Rightarrow> metrics list \<Rightarrow> (pyfloat \<times> nat) dict" where
  "totals rnd dicts = foldl (foldl (add_value rnd)) [] dicts"

definition mean_of :: "rounding \<Rightarrow> pyfloat \<times> nat \<Rightarrow> pyfloat" where
  "mean_of rnd p = (case f_div rnd (fst p) (Fin (of_nat (snd p))) of Inl e \<Rightarrow> NaN | Inr x \<Rightarrow> x)"

definition mean :: "rounding \<Rightarrow> metrics list \<Rightarrow> metrics" where
  "mean rnd dicts = map (\<lambda>(k, p). (k, mean_of rnd p)) (totals rnd dicts)"

section \<open>The orchestrator\<close>

record ('s, 'm) canary_config =
  cc_api :: "'s store_api"
  cc_sample :: "string \<Rightarrow> ('m, metrics) stmt"
  cc_sleep :: "pyfloat \<Rightarrow> ('m, unit) stmt"
  cc_group :: string
  cc_all :: "string list"
  cc_rounding :: rounding
  cc_text :: gate_text

definition bad_scope :: "string list \<Rightarrow> string list \<Rightarrow> exn" where
  "bad_scope scope all_replicas =
     ValueError (''scope '' @ repr_str_list (sort scope) @ '' not within replicas '' @
       repr_str_list (sort all_replicas))"

definition no_baseline :: exn where
  "no_baseline = ValueError ''canary scope must leave at least one baseline replica''"

definition start ::
  "('s, 'm) canary_config \<Rightarrow> int \<Rightarrow> string list \<Rightarrow> fields list \<Rightarrow> pyfloat \<Rightarrow> (('s, 'm) world, int) stmt" where
  "start cf candidate scope gates window_s =
     (if \<not> set scope \<subseteq> set (cc_all cf) then raise (bad_scope scope (cc_all cf))
      else if set scope = set (cc_all cf) then raise no_baseline
      else andthen (on_store (api_open_canary (cc_api cf) (cc_group cf) candidate scope gates window_s)) (\<lambda>cid.
        andthen (on_store (api_set_overrides (cc_api cf) scope candidate cid)) (\<lambda>_. ret cid)))"

definition decide ::
  "('s, 'm) canary_config \<Rightarrow> int \<Rightarrow> metrics \<Rightarrow> metrics \<Rightarrow> (('s, 'm) world, string \<times> string list) stmt" where
  "decide cf cid canary_metrics baseline_metrics =
     andthen (on_store (api_canary (cc_api cf) cid)) (\<lambda>c.
     andthen (of_result (evaluate (cc_rounding cf) (cc_text cf) (c_gates c) canary_metrics baseline_metrics))
       (\<lambda>(passed, findings).
     andthen (on_store (api_clear_overrides (cc_api cf) cid)) (\<lambda>_.
     andthen (if passed then on_store (api_promote (cc_api cf) (cc_group cf) (c_candidate c)) else ret ()) (\<lambda>_.
     andthen (on_store (api_close_canary (cc_api cf) cid (if passed then PASS else FAIL)
                (join [CHR 0x0A] findings))) (\<lambda>_.
     ret (if passed then PASS else FAIL, findings))))))"

text \<open>One round of the window: every replica of the scope, then of the baseline, then the sleep.\<close>

definition sample_round ::
  "('s, 'm) canary_config \<Rightarrow> string list \<Rightarrow> string list \<Rightarrow> pyfloat \<Rightarrow>
    (('s, 'm) world, metrics list \<times> metrics list) stmt" where
  "sample_round cf scope base gap =
     andthen (map_stmt (\<lambda>r. on_engine (cc_sample cf r)) scope) (\<lambda>cs.
     andthen (map_stmt (\<lambda>r. on_engine (cc_sample cf r)) base) (\<lambda>bs.
     andthen (on_engine (cc_sleep cf gap)) (\<lambda>_. ret (cs, bs))))"

fun sample_window ::
  "('s, 'm) canary_config \<Rightarrow> string list \<Rightarrow> string list \<Rightarrow> pyfloat \<Rightarrow> nat \<Rightarrow> metrics list \<Rightarrow> metrics list \<Rightarrow>
    (('s, 'm) world, metrics list \<times> metrics list) stmt" where
  "sample_window cf scope base gap 0 cs bs = ret (cs, bs)"
| "sample_window cf scope base gap (Suc n) cs bs =
     andthen (sample_round cf scope base gap) (\<lambda>(cs', bs').
     sample_window cf scope base gap n (cs @ cs') (bs @ bs'))"

definition already :: "int \<Rightarrow> string \<Rightarrow> exn" where
  "already cid st = ValueError (''canary '' @ show_int cid @ '' already '' @ st)"

text \<open>\<open>set(c["scope"])\<close> is visited in some order; here in the order of its text.\<close>

definition observe ::
  "('s, 'm) canary_config \<Rightarrow> int \<Rightarrow> int \<Rightarrow> (('s, 'm) world, string \<times> string list) stmt" where
  "observe cf cid samples =
     andthen (on_store (api_canary (cc_api cf) cid)) (\<lambda>c.
     if c_status c \<noteq> ''observing'' then raise (already cid (c_status c))
     else let scope = remdups (c_scope c); base = filter (\<lambda>r. r \<notin> set scope) (cc_all cf) in
       andthen (of_result (f_div (cc_rounding cf) (c_window_s c) (Fin (of_int (max samples 1))))) (\<lambda>gap.
       andthen (sample_window cf scope base gap (nat samples) [] []) (\<lambda>(cs, bs).
       decide cf cid (mean (cc_rounding cf) cs) (mean (cc_rounding cf) bs))))"

definition abort :: "('s, 'm) canary_config \<Rightarrow> int \<Rightarrow> string \<Rightarrow> (('s, 'm) world, unit) stmt" where
  "abort cf cid reason =
     andthen (on_store (api_clear_overrides (cc_api cf) cid)) (\<lambda>_.
     on_store (api_close_canary (cc_api cf) cid FAIL reason))"

end
