(* ===== verification/Canary_Facts.thy ===== *)
theory Canary_Facts
  imports Canary
begin

text \<open>
  What the canary orchestrator guarantees: the gates decide exactly what they say, every gate
  leaves a finding, a mean is the sum of the samples over their number, and the four operations
  move replicas and the group the way their comments promise, on the local store.
\<close>

section \<open>What a gate says\<close>

definition num_bound :: "fields \<Rightarrow> string \<Rightarrow> pyfloat option" where
  "num_bound g name = (case map_of g name of None \<Rightarrow> None | Some j \<Rightarrow> num_of j)"

text \<open>A gate as the documentation has it: a metric name, and bounds that are numbers.\<close>

definition gate_wf :: "fields \<Rightarrow> bool" where
  "gate_wf g \<longleftrightarrow> (\<exists>m. map_of g ''metric'' = Some (JStr m)) \<and>
     list_all (\<lambda>name. case map_of g name of None \<Rightarrow> True | Some j \<Rightarrow> is_num j)
       [''max_abs'', ''min_abs'', ''max_ratio'', ''min_ratio'']"

definition metric_name :: "fields \<Rightarrow> string" where
  "metric_name g = (case map_of g ''metric'' of Some (JStr m) \<Rightarrow> m | _ \<Rightarrow> [])"

definition between :: "pyfloat option \<Rightarrow> pyfloat option \<Rightarrow> pyfloat \<Rightarrow> bool" where
  "between lo hi x \<longleftrightarrow> (\<forall>b. hi = Some b \<longrightarrow> \<not> f_lt b x) \<and> (\<forall>b. lo = Some b \<longrightarrow> \<not> f_lt x b)"

definition gate_holds :: "rounding \<Rightarrow> metrics \<Rightarrow> metrics \<Rightarrow> fields \<Rightarrow> bool" where
  "gate_holds rnd cm bm g \<longleftrightarrow>
     (\<exists>c. map_of cm (metric_name g) = Some c \<and>
       between (num_bound g ''min_abs'') (num_bound g ''max_abs'') c \<and>
       (has_ratio g \<longrightarrow>
         (\<exists>b r. map_of bm (metric_name g) = Some b \<and> \<not> f_eq b (Fin 0) \<and> f_div rnd c b = Inr r \<and>
           between (num_bound g ''min_ratio'') (num_bound g ''max_ratio'') r)))"

lemma gate_bound_wf:
  assumes "gate_wf g" and "name \<in> {''max_abs'', ''min_abs'', ''max_ratio'', ''min_ratio''}"
  shows "gate_bound name P g = Inr (\<exists>x. num_bound g name = Some x \<and> P x)"
  using assms by (auto simp: gate_wf_def gate_bound_def num_bound_def is_num_def split: option.splits)

lemma gate_metric_wf: "gate_wf g \<Longrightarrow> gate_metric fr g = Inr (JStr (metric_name g), metric_name g)"
  by (auto simp: gate_wf_def gate_metric_def metric_name_def str_json_def)

lemma f_div_nonzero: "\<not> f_eq b (Fin 0) \<Longrightarrow> \<exists>r. f_div rnd c b = Inr r"
  by (cases b) auto

lemma between_not: "between lo hi x \<longleftrightarrow> \<not> (\<exists>b. hi = Some b \<and> f_lt b x) \<and> \<not> (\<exists>b. lo = Some b \<and> f_lt x b)"
  by (auto simp: between_def)

definition finding_of :: "fields \<Rightarrow> string \<Rightarrow> bool" where
  "finding_of g f \<longleftrightarrow> prefix (metric_name g @ '': '') f"

lemma finding_ofI: "finding_of g (metric_name g @ '': '' @ t)"
  unfolding finding_of_def by (simp only: append_assoc [symmetric] prefixI)

lemma finding_simps:
  "finding_of g (metric_name g @ CHR '':'' # CHR '' '' # t)"
  using finding_ofI [of g t] by simp

lemma ratio_check_wf:
  assumes "gate_wf g"
  shows "\<exists>f. ratio_check rnd tx g (metric_name g) c b =
    Inr ((\<exists>x r. b = Some x \<and> \<not> f_eq x (Fin 0) \<and> f_div rnd c x = Inr r \<and>
      between (num_bound g ''min_ratio'') (num_bound g ''max_ratio'') r), f) \<and> finding_of g f"
proof (cases "b = None \<or> f_eq (the b) (Fin 0)")
  case True
  then show ?thesis by (auto simp: ratio_check_def finding_simps)
next
  case False
  then obtain x where x: "b = Some x" "\<not> f_eq x (Fin 0)" by auto
  then obtain r where r: "f_div rnd c x = Inr r" using f_div_nonzero by blast
  show ?thesis
    using x r by (simp add: ratio_check_def gate_bound_wf [OF assms] between_not gate_ok_def finding_simps)
qed

lemma gate_check_wf:
  assumes "gate_wf g"
  shows "\<exists>f. gate_check rnd tx cm bm g = Inr (gate_holds rnd cm bm g, f) \<and> finding_of g f"
proof (cases "map_of cm (metric_name g)")
  case None
  then show ?thesis
    by (simp add: gate_check_def gate_metric_wf [OF assms] metric_value_def gate_holds_def finding_simps)
next
  case (Some c)
  show ?thesis
  proof (cases "between (num_bound g ''min_abs'') (num_bound g ''max_abs'') c")
    case False
    then show ?thesis
      using Some
      by (auto simp: gate_check_def gate_metric_wf [OF assms] metric_value_def gate_holds_def
          gate_bound_wf [OF assms] between_not finding_simps)
  next
    case True
    then have ok: "(\<exists>x. num_bound g ''max_abs'' = Some x \<and> f_lt x c) = False"
      "(\<exists>x. num_bound g ''min_abs'' = Some x \<and> f_lt c x) = False"
      by (simp_all only: between_not simp_thms)
    have run: "gate_check rnd tx cm bm g =
        (if has_ratio g then ratio_check rnd tx g (metric_name g) c (map_of bm (metric_name g))
         else Inr (gate_ok tx (metric_name g) c (map_of bm (metric_name g))))"
      by (simp add: Some gate_check_def gate_metric_wf [OF assms] metric_value_def gate_bound_wf [OF assms] ok)
    show ?thesis
      using ratio_check_wf [OF assms, of rnd tx c "map_of bm (metric_name g)"] Some True
      by (auto simp: run gate_holds_def gate_ok_def finding_simps)
  qed
qed

lemma evaluate_wf:
  "list_all gate_wf gates \<Longrightarrow> \<exists>findings.
     evaluate rnd tx gates cm bm = Inr (list_all (gate_holds rnd cm bm) gates, findings) \<and>
     list_all2 finding_of gates findings"
proof (induction gates)
  case (Cons g gs)
  then obtain f fs where "gate_check rnd tx cm bm g = Inr (gate_holds rnd cm bm g, f)" "finding_of g f"
      "evaluate rnd tx gs cm bm = Inr (list_all (gate_holds rnd cm bm) gs, fs)" "list_all2 finding_of gs fs"
    using gate_check_wf [of g rnd tx cm bm] by auto
  then show ?case by simp
qed simp

section \<open>Means\<close>

text \<open>The samples of a metric, in the order they were taken.\<close>

definition samples_of :: "string \<Rightarrow> metrics list \<Rightarrow> pyfloat list" where
  "samples_of k dicts = map snd (filter (\<lambda>kv. fst kv = k) (concat dicts))"

definition sum_rounded :: "rounding \<Rightarrow> pyfloat list \<Rightarrow> pyfloat" where
  "sum_rounded rnd xs = foldl (f_add rnd) (Fin 0) xs"

lemma foldl_foldl: "foldl (foldl f) a xss = foldl f a (concat xss)"
  by (induction xss arbitrary: a) simp_all

lemma add_value_lookup:
  "map_of (foldl (add_value rnd) [] kvs) k =
     (let xs = map snd (filter (\<lambda>kv. fst kv = k) kvs)
      in if xs = [] then None else Some (sum_rounded rnd xs, length xs))"
proof (induction kvs rule: rev_induct)
  case (snoc kv kvs)
  then show ?case
    by (auto simp: add_value_def sum_rounded_def Let_def split: option.splits prod.splits if_splits)
qed simp

lemma map_of_totals: "map_of (totals rnd dicts) k =
    (if samples_of k dicts = [] then None
     else Some (sum_rounded rnd (samples_of k dicts), length (samples_of k dicts)))"
  by (simp add: totals_def foldl_foldl add_value_lookup samples_of_def Let_def)

lemma map_of_map_snd: "map_of (map (\<lambda>(k, p). (k, f p)) d) k = map_option f (map_of d k)"
  by (induction d) auto

lemma sum_rounded_exact: "sum_rounded Fin (map Fin qs) = Fin (sum_list qs)"
proof -
  have "foldl (f_add Fin) (Fin a) (map Fin qs) = Fin (a + sum_list qs)" for a
    by (induction qs arbitrary: a) (simp_all add: add.assoc)
  then show ?thesis by (simp add: sum_rounded_def)
qed

section \<open>The store operations the orchestrator calls\<close>

lemma on_store_Inr: "on_store m w = (Inr x, w\<lparr>w_store := s\<rparr>) \<longleftrightarrow> m (w_store w) = (Inr x, s)"
  by (cases "m (w_store w)") (auto simp: on_store_def dest: arg_cong [where f = w_store])

lemma open_canary_local:
  assumes "wf_store s"
  obtains base where "desired g s = (Inr base, s)"
    and "open_canary g cand scope gates win s = (Inr (canary_seq s + 1),
      (tick_clock s)\<lparr>canary_seq := canary_seq s + 1, t_canary := t_canary s @
         [\<lparr>c_id = canary_seq s + 1, c_group = g, c_candidate = cand, c_baseline = map_option cv_id base,
           c_scope = sort scope, c_gates = gates, c_window_s = win, c_status = ''observing'',
           c_started_at = now_of s, c_decided_at = None, c_decision = []\<rparr>]\<rparr>)"
proof -
  obtain base where "desired g s = (Inr base, s)" using desired_total [OF assms, of g] by metis
  with that open_canary_run show ?thesis by blast
qed

lemma new_canary_found:
  assumes "wf_store s" and "c_id c = canary_seq s + 1"
  shows "canary (canary_seq s + 1) (t\<lparr>t_canary := t_canary s @ [c], t_override := ov\<rparr>) =
    (Inr c, t\<lparr>t_canary := t_canary s @ [c], t_override := ov\<rparr>)"
proof -
  have "\<forall>d \<in> set (t_canary s). c_id d \<noteq> canary_seq s + 1"
    using assms(1) by (force simp: wf_store_def wf_canaries_def)
  then show ?thesis using find_append_new [of _ c_id, OF _ assms(2)] by (simp add: canary_def)
qed

lemma local_target_overrides:
  "local_target s r g = (case map_of (t_override s) r of None \<Rightarrow> fst (desired g s)
     | Some p \<Rightarrow> found (fst (version (fst p) s)))"
  by (simp add: local_target_def desired_for_eq_desired)

lemma start_run:
  assumes "cc_api cf = local_store" and "wf_store (w_store w)"
    and "set scope \<subset> set (cc_all cf)"
  obtains base s where "desired (cc_group cf) (w_store w) = (Inr base, w_store w)"
    and "start cf cand scope gates win w = (Inr (canary_seq (w_store w) + 1), w\<lparr>w_store := s\<rparr>)"
    and "t_version s = t_version (w_store w)" and "t_desired s = t_desired (w_store w)"
    and "map_of (t_override s) = map_of (foldl (\<lambda>d r. dset r (cand, canary_seq (w_store w) + 1) d)
      (t_override (w_store w)) scope)"
    and "canary (canary_seq (w_store w) + 1) s = (Inr
      \<lparr>c_id = canary_seq (w_store w) + 1, c_group = cc_group cf, c_candidate = cand,
        c_baseline = map_option cv_id base, c_scope = sort scope, c_gates = gates, c_window_s = win,
        c_status = ''observing'', c_started_at = now_of (w_store w), c_decided_at = None, c_decision = []\<rparr>, s)"
    and "wf_store s"
proof -
  let ?s = "w_store w"
  obtain base where base: "desired (cc_group cf) ?s = (Inr base, ?s)"
    and opn: "open_canary (cc_group cf) cand scope gates win ?s = (Inr (canary_seq ?s + 1),
      (tick_clock ?s)\<lparr>canary_seq := canary_seq ?s + 1, t_canary := t_canary ?s @
         [\<lparr>c_id = canary_seq ?s + 1, c_group = cc_group cf, c_candidate = cand, c_baseline = map_option cv_id base,
           c_scope = sort scope, c_gates = gates, c_window_s = win, c_status = ''observing'',
           c_started_at = now_of ?s, c_decided_at = None, c_decision = []\<rparr>]\<rparr>)"
    by (rule open_canary_local [OF assms(2)])
  let ?c = "\<lparr>c_id = canary_seq ?s + 1, c_group = cc_group cf, c_candidate = cand, c_baseline = map_option cv_id base,
           c_scope = sort scope, c_gates = gates, c_window_s = win, c_status = ''observing'',
           c_started_at = now_of ?s, c_decided_at = None, c_decision = []\<rparr>"
  let ?t = "snd (open_canary (cc_group cf) cand scope gates win ?s)"
  let ?u = "snd (set_overrides scope cand (canary_seq ?s + 1) ?t)"
  have run: "start cf cand scope gates win w = (Inr (canary_seq ?s + 1), w\<lparr>w_store := ?u\<rparr>)"
    using assms(1,3) by (simp add: start_def local_store_def on_store_def opn set_overrides_run) blast
  have "canary (canary_seq ?s + 1) ?u = (Inr ?c, ?u)"
    using new_canary_found [OF assms(2), of ?c] by (simp add: opn set_overrides_run canary_def)
  moreover have "wf_store ?u"
    using assms(2) by (intro wf_set_overrides_step wf_open_canary)
  ultimately show ?thesis
    using that [OF base run] by (simp add: opn set_overrides_run)
qed

text \<open>What a replica runs after a canary's overrides are cleared and perhaps a version promoted.\<close>

definition canary_replica :: "store \<Rightarrow> int \<Rightarrow> string \<Rightarrow> bool" where
  "canary_replica s cid r \<longleftrightarrow> (case map_of (t_override s) r of None \<Rightarrow> False | Some p \<Rightarrow> snd p = cid)"

lemma version_cong: "t_version s = t_version t \<Longrightarrow> fst (version i s) = fst (version i t)"
  by (rule version_other)

lemma target_cleared:
  assumes "wf_store s" and "t_version t = t_version s"
    and "t_override t = filter (\<lambda>(r, (v, c)). c \<noteq> cid) (t_override s)"
  shows "local_target t r g =
    (if canary_replica s cid r \<or> map_of (t_override s) r = None then fst (desired g t) else local_target s r g)"
proof -
  have "wf_dict (t_override s)" using assms(1) by (simp add: wf_store_def wf_status_def)
  then have "map_of (t_override t) r =
      (if canary_replica s cid r then None else map_of (t_override s) r)"
    by (simp add: assms(3) map_of_filter_wf canary_replica_def split: option.split prod.split)
  then show ?thesis
    using version_cong [OF assms(2)] by (auto simp: local_target_overrides split: option.split)
qed

lemma close_canary_found:
  assumes "wf_canaries s" and "c \<in> set (t_canary s)"
  shows "\<exists>t. canary (c_id c) (snd (close_canary (c_id c) st dec s)) =
    (Inr (c\<lparr>c_status := st, c_decided_at := Some t, c_decision := dec\<rparr>), snd (close_canary (c_id c) st dec s))"
proof -
  let ?f = "\<lambda>d :: canary_row. if c_id d = c_id c
    then d\<lparr>c_status := st, c_decided_at := Some (now_of s), c_decision := dec\<rparr> else d"
  have "find (\<lambda>d. c_id d = c_id c) (map ?f xs) = map_option ?f (find (\<lambda>d. c_id d = c_id c) xs)" for xs
    by (induction xs) auto
  moreover have "find (\<lambda>d. c_id d = c_id c) (t_canary s) = Some c"
    using canary_run [OF assms] by (simp add: canary_def split: option.splits)
  ultimately have "find (\<lambda>d. c_id d = c_id c) (map ?f (t_canary s)) = Some (?f c)" by simp
  then show ?thesis
    unfolding close_canary_run canary_def by (intro exI [of _ "now_of s"]) simp
qed

lemma close_canary_tables:
  "t_version (snd (close_canary cid st dec s)) = t_version s"
  "t_desired (snd (close_canary cid st dec s)) = t_desired s"
  "t_override (snd (close_canary cid st dec s)) = t_override s"
  by (simp_all add: close_canary_run)

text \<open>
  The decision on a canary, when its gates are well formed: what it returns and what it leaves
  in the tables.
\<close>

definition decided :: "('s, 'm) canary_config \<Rightarrow> canary_row \<Rightarrow> metrics \<Rightarrow> metrics \<Rightarrow> bool" where
  "decided cf c cm bm = list_all (gate_holds (cc_rounding cf) cm bm) (c_gates c)"

lemma decide_run:
  assumes "cc_api cf = local_store" and "wf_store (w_store w)" and "c \<in> set (t_canary (w_store w))"
    and "list_all gate_wf (c_gates c)"
    and "decided cf c cm bm \<longrightarrow> version_in (w_store w) (c_candidate c) (cc_group cf)"
  obtains fs s where "decide cf (c_id c) cm bm w =
      (Inr (if decided cf c cm bm then PASS else FAIL, fs), w\<lparr>w_store := s\<rparr>)"
    and "list_all2 finding_of (c_gates c) fs"
    and "t_version s = t_version (w_store w)"
    and "t_override s = filter (\<lambda>(r, (v, k)). k \<noteq> c_id c) (t_override (w_store w))"
    and "if decided cf c cm bm
      then t_desired s = dset (cc_group cf) (c_candidate c, now_of (w_store w)) (t_desired (w_store w))
      else t_desired s = t_desired (w_store w)"
    and "\<exists>t. canary (c_id c) s = (Inr (c\<lparr>c_status := if decided cf c cm bm then PASS else FAIL,
      c_decided_at := Some t, c_decision := join [CHR 0x0A] fs\<rparr>), s)"
    and "wf_store s"
proof -
  let ?s = "w_store w" and ?ok = "decided cf c cm bm"
  obtain fs where ev: "evaluate (cc_rounding cf) (cc_text cf) (c_gates c) cm bm = Inr (?ok, fs)"
      and fs: "list_all2 finding_of (c_gates c) fs"
    using evaluate_wf [OF assms(4)] unfolding decided_def by blast
  have row: "canary (c_id c) ?s = (Inr c, ?s)"
    using assms(2,3) by (intro canary_run) (simp_all add: wf_store_def)
  let ?t = "snd (clear_overrides (c_id c) ?s)"
  let ?u = "if ?ok then snd (promote (cc_group cf) (c_candidate c) ?t) else ?t"
  have "promote (cc_group cf) (c_candidate c) ?t =
      (Inr (), (tick_clock ?t)\<lparr>t_desired := dset (cc_group cf) (c_candidate c, now_of ?t) (t_desired ?t)\<rparr>)" if ok: ?ok
  proof -
    obtain v where v: "v \<in> set (t_version ?t)" "cv_id v = c_candidate c" "cv_group v = cc_group cf"
      using assms(5) ok by (auto simp: version_in_def clear_overrides_def)
    have "wf_versions ?t" using wf_clear_overrides [OF assms(2)] by (simp add: wf_store_def)
    from promote_run [OF this v(1)] show ?thesis by (simp add: v)
  qed
  note promoted = this
  let ?st = "if ?ok then PASS else FAIL" and ?dec = "join [CHR 0x0A] fs"
  let ?v = "snd (close_canary (c_id c) ?st ?dec ?u)"
  have run: "decide cf (c_id c) cm bm w = (Inr (?st, fs), w\<lparr>w_store := ?v\<rparr>)"
    using assms(1) row promoted
    by (simp add: decide_def local_store_def on_store_def ev clear_overrides_def close_canary_run)
  have wfu: "wf_store ?u" using assms(2) by (simp add: wf_clear_overrides wf_promote)
  have cu: "c \<in> set (t_canary ?u)" using assms(3) promoted by (simp add: clear_overrides_def)
  show ?thesis
  proof (rule that [OF run fs])
    show "\<exists>t. canary (c_id c) ?v = (Inr (c\<lparr>c_status := ?st, c_decided_at := Some t, c_decision := ?dec\<rparr>), ?v)"
      using close_canary_found [OF _ cu] wfu by (simp add: wf_store_def)
    show "wf_store ?v" by (rule wf_close_canary [OF wfu])
  qed (use promoted in \<open>simp_all add: close_canary_tables clear_overrides_def\<close>)
qed

lemma desired_same:
  "t_version s = t_version t \<Longrightarrow> t_desired s = t_desired t \<Longrightarrow> fst (desired g s) = fst (desired g t)"
  by (rule desired_cong)

lemma desired_moved:
  "t_version s = t_version t \<Longrightarrow> t_desired s = dset g (i, n) (t_desired t) \<Longrightarrow>
   fst (desired h s) = (if h = g then found (fst (version i t)) else fst (desired h t))"
  using version_cong [of s t] by (simp add: desired_def version_Some split: option.split)

section \<open>Properties\<close>

text \<open>
  C10. The gates decide what they say. For well-formed gates \<open>evaluate\<close> returns, it passes
  exactly when every gate holds (a sample is there, inside the absolute bounds, and, for a ratio
  gate, with a usable baseline and the ratio inside its bounds), and every gate leaves one
  finding, which starts with the name of its metric.
\<close>

theorem evaluate_exact:
  assumes "list_all gate_wf gates"
  shows "\<exists>findings. evaluate rnd tx gates cm bm = Inr (list_all (gate_holds rnd cm bm) gates, findings) \<and>
    list_all2 finding_of gates findings"
  using assms by (rule evaluate_wf)

definition demo_gates :: "fields list" where
  "demo_gates = [[(''metric'', JStr ''error_rate''), (''max_abs'', JFloat (Fin (1 / 100)))],
     [(''metric'', JStr ''p99_ttft_ms''), (''max_ratio'', JFloat (Fin (5 / 4)))]]"

definition demo_gate_text :: gate_text where
  "demo_gate_text = \<lparr>gt_repr = \<lambda>_. ''1'', gt_4g = \<lambda>_. ''1'', gt_3f = \<lambda>_. ''1''\<rparr>"

lemma demo_gates_wf: "list_all gate_wf demo_gates"
  by (simp add: demo_gates_def gate_wf_def is_num_def)

theorem evaluate_exact_witness:
  "\<exists>findings. evaluate Fin demo_gate_text demo_gates
      [(''error_rate'', Fin 0), (''p99_ttft_ms'', Fin 130)] [(''error_rate'', Fin 0), (''p99_ttft_ms'', Fin 100)] =
    Inr (False, findings) \<and> length findings = 2"
  using evaluate_exact [OF demo_gates_wf, of Fin demo_gate_text
      "[(''error_rate'', Fin 0), (''p99_ttft_ms'', Fin 130)]" "[(''error_rate'', Fin 0), (''p99_ttft_ms'', Fin 100)]"]
  by (auto simp: demo_gates_def gate_holds_def metric_name_def has_ratio_def between_def num_bound_def
      dest: list_all2_lengthD)

text \<open>
  The mean of a side is the mean of its samples: for every metric some sample has, the sum
  of its values in the order they were taken, rounded at each step, divided by their number; a
  metric no sample has is missing, not zero. With exact arithmetic it is the arithmetic mean.
\<close>

theorem mean_of_samples:
  "map_of (mean rnd dicts) k =
     (if samples_of k dicts = [] then None
      else Some (mean_of rnd (sum_rounded rnd (samples_of k dicts), length (samples_of k dicts)))) \<and>
   (samples_of k dicts = map Fin qs \<and> qs \<noteq> [] \<longrightarrow>
      map_of (mean Fin dicts) k = Some (Fin (sum_list qs / of_nat (length qs))))"
proof -
  have "map_of (mean r dicts) k = (if samples_of k dicts = [] then None
      else Some (mean_of r (sum_rounded r (samples_of k dicts), length (samples_of k dicts))))" for r
    by (simp add: mean_def map_of_map_snd map_of_totals)
  moreover have "mean_of Fin (sum_rounded Fin (map Fin qs), length qs) = Fin (sum_list qs / of_nat (length qs))"
    if "qs \<noteq> []"
    using that by (simp add: mean_of_def sum_rounded_exact)
  ultimately show ?thesis by simp
qed

theorem mean_of_samples_witness:
  "map_of (mean Fin [[(''e'', Fin 1), (''t'', Fin 5)], [(''e'', Fin 2)]]) ''e'' = Some (Fin (3 / 2))"
proof -
  have "map_of (mean Fin [[(''e'', Fin 1), (''t'', Fin 5)], [(''e'', Fin 2)]]) ''e'' =
      Some (Fin (sum_list [1, 2] / of_nat (length [1, 2 :: rat])))"
    by (rule mean_of_samples [THEN conjunct2, THEN mp]) (simp add: samples_of_def)
  then show ?thesis by simp
qed

text \<open>
  C11. Starting a canary. If the scope is a proper part of the replicas, the call returns a new
  canary that is observing, with the group's desired version as its baseline; the replicas of
  the scope then run the candidate, all others run what they ran, and a baseline replica is
  left. Otherwise the call raises and nothing changes.
\<close>

theorem start_outcome:
  assumes "cc_api cf = local_store" and "wf_store (w_store w)"
  shows "if set scope \<subset> set (cc_all cf)
    then \<exists>s c. start cf cand scope gates win w = (Inr (c_id c), w\<lparr>w_store := s\<rparr>) \<and>
      canary (c_id c) s = (Inr c, s) \<and> c_status c = ''observing'' \<and> c_candidate c = cand \<and>
      c_gates c = gates \<and> set (c_scope c) = set scope \<and>
      (\<exists>d. fst (desired (cc_group cf) (w_store w)) = Inr d \<and> c_baseline c = map_option cv_id d) \<and>
      (\<forall>r g. local_target s r g =
        (if r \<in> set scope then found (fst (version cand (w_store w))) else local_target (w_store w) r g)) \<and>
      (\<exists>r \<in> set (cc_all cf). r \<notin> set scope)
    else \<exists>msg. start cf cand scope gates win w = (Inl (ValueError msg), w)"
proof (cases "set scope \<subset> set (cc_all cf)")
  case True
  obtain base s where run: "desired (cc_group cf) (w_store w) = (Inr base, w_store w)"
    "start cf cand scope gates win w = (Inr (canary_seq (w_store w) + 1), w\<lparr>w_store := s\<rparr>)"
    and tv: "t_version s = t_version (w_store w)" and td: "t_desired s = t_desired (w_store w)"
    and ov: "map_of (t_override s) = map_of (foldl (\<lambda>d r. dset r (cand, canary_seq (w_store w) + 1) d)
      (t_override (w_store w)) scope)"
    and row: "canary (canary_seq (w_store w) + 1) s = (Inr
      \<lparr>c_id = canary_seq (w_store w) + 1, c_group = cc_group cf, c_candidate = cand,
        c_baseline = map_option cv_id base, c_scope = sort scope, c_gates = gates, c_window_s = win,
        c_status = ''observing'', c_started_at = now_of (w_store w), c_decided_at = None, c_decision = []\<rparr>, s)"
    by (rule start_run [OF assms True]) blast
  have "local_target s r g =
      (if r \<in> set scope then found (fst (version cand (w_store w))) else local_target (w_store w) r g)" for r g
    using version_cong [OF tv] desired_same [OF tv td]
    by (simp add: local_target_overrides ov map_of_set_overrides split: option.split)
  moreover have "\<exists>r \<in> set (cc_all cf). r \<notin> set scope" using True by blast
  moreover note run(2) row
  ultimately show ?thesis
    unfolding if_P [OF True] using run(1)
    by (intro exI [of _ s] exI [of _ "\<lparr>c_id = canary_seq (w_store w) + 1, c_group = cc_group cf, c_candidate = cand,
        c_baseline = map_option cv_id base, c_scope = sort scope, c_gates = gates, c_window_s = win,
        c_status = ''observing'', c_started_at = now_of (w_store w), c_decided_at = None, c_decision = []\<rparr>"]) simp
next
  case False
  then show ?thesis by (auto simp: start_def bad_scope_def no_baseline_def)
qed

definition demo_canary :: "(store, unit) canary_config" where
  "demo_canary = \<lparr>cc_api = local_store, cc_sample = \<lambda>r. ret [], cc_sleep = \<lambda>_. ret (), cc_group = ''g'',
     cc_all = [''r0'', ''r1''], cc_rounding = Fin, cc_text = demo_gate_text\<rparr>"

definition demo_side :: "(store, unit) world" where
  "demo_side = \<lparr>w_store = demo_store, w_engine = ()\<rparr>"

lemma demo_canary_sel [simp]:
  "cc_api demo_canary = local_store" "cc_all demo_canary = [''r0'', ''r1'']" "cc_group demo_canary = ''g''"
  "w_store demo_side = demo_store"
  by (simp_all add: demo_canary_def demo_side_def)

lemma demo_store_wf: "wf_store demo_store"
  using wf_reachable [OF reachable_demo] .

theorem start_outcome_witness:
  "\<exists>s (c :: canary_row). start demo_canary 1 [''r0''] demo_gates (Fin 1) demo_side = (Inr (c_id c), demo_side\<lparr>w_store := s\<rparr>) \<and>
    c_status c = ''observing'' \<and> local_target s ''r0'' ''g'' = found (fst (version 1 demo_store))"
proof -
  have sub: "set [''r0''] \<subset> set (cc_all demo_canary)" by auto
  have "wf_store (w_store demo_side)" by (simp add: demo_store_wf)
  from start_outcome [OF demo_canary_sel(1) this, of "[''r0'']" 1 demo_gates "Fin 1"]
  obtain s and c :: canary_row where "start demo_canary 1 [''r0''] demo_gates (Fin 1) demo_side =
      (Inr (c_id c), demo_side\<lparr>w_store := s\<rparr>)" "c_status c = ''observing''"
    "\<forall>r g. local_target s r g = (if r \<in> set [''r0''] then found (fst (version 1 (w_store demo_side)))
      else local_target (w_store demo_side) r g)"
    unfolding if_P [OF sub] by blast
  then show ?thesis by (intro exI [of _ s] exI [of _ c]) simp
qed

text \<open>A canary of version 1 on replica \<open>r0\<close>, for the witnesses.\<close>

definition demo_row :: canary_row where
  "demo_row = \<lparr>c_id = 1, c_group = ''g'', c_candidate = 1, c_baseline = Some 1, c_scope = [''r0''],
     c_gates = demo_gates, c_window_s = Fin 1, c_status = ''observing'', c_started_at = Fin 0,
     c_decided_at = None, c_decision = []\<rparr>"

definition demo_observing :: "(store, unit) world" where
  "demo_observing = \<lparr>w_store = demo_store\<lparr>t_override := [(''r0'', 1, 1)], t_canary := [demo_row], canary_seq := 1\<rparr>,
     w_engine = ()\<rparr>"

definition good_side :: metrics where
  "good_side = [(''error_rate'', Fin 0), (''p99_ttft_ms'', Fin 100)]"

definition slow_side :: metrics where
  "slow_side = [(''error_rate'', Fin 0), (''p99_ttft_ms'', Fin 130)]"

lemma demo_observing_wf: "wf_store (w_store demo_observing)"
  by (simp add: demo_observing_def wf_store_defs version_in_def demo_store_def demo_proposed_def
      empty_store_def demo_v1_def demo_row_def)

lemma demo_row_in: "demo_row \<in> set (t_canary (w_store demo_observing))"
  by (simp add: demo_observing_def)

lemma demo_row_gates: "c_gates demo_row = demo_gates" "c_candidate demo_row = 1" "c_id demo_row = 1"
  by (simp_all add: demo_row_def)

lemma demo_slow: "\<not> list_all (gate_holds rnd slow_side good_side) demo_gates" if "rnd = Fin"
  using that by (simp add: demo_gates_def gate_holds_def metric_name_def has_ratio_def between_def num_bound_def
      slow_side_def good_side_def)

lemma demo_good: "list_all (gate_holds rnd good_side good_side) demo_gates" if "rnd = Fin"
  using that by (simp add: demo_gates_def gate_holds_def metric_name_def has_ratio_def between_def num_bound_def
      good_side_def)

lemma demo_canary_rounding [simp]: "cc_rounding demo_canary = Fin"
  by (simp add: demo_canary_def)

text \<open>
  C12. Deciding a canary whose gates are well formed and whose candidate, if it passes, is a
  version of the group: the call returns the verdict of the gates with their findings and writes
  it on the canary; every replica the canary held, and every replica without an override, then
  runs the group's desired version, all others run what they ran; the group moves to the
  candidate if the gates passed and stays where it was if not.
\<close>

theorem decide_outcome:
  assumes "cc_api cf = local_store" and "wf_store (w_store w)" and "c \<in> set (t_canary (w_store w))"
    and "list_all gate_wf (c_gates c)"
    and "list_all (gate_holds (cc_rounding cf) cm bm) (c_gates c) \<longrightarrow>
      version_in (w_store w) (c_candidate c) (cc_group cf)"
  shows "\<exists>fs s t. decide cf (c_id c) cm bm w =
      (Inr (if list_all (gate_holds (cc_rounding cf) cm bm) (c_gates c) then PASS else FAIL, fs),
       w\<lparr>w_store := s\<rparr>) \<and>
    list_all2 finding_of (c_gates c) fs \<and>
    fst (canary (c_id c) s) = Inr (c\<lparr>c_status :=
      if list_all (gate_holds (cc_rounding cf) cm bm) (c_gates c) then PASS else FAIL,
      c_decided_at := Some t, c_decision := join [CHR 0x0A] fs\<rparr>) \<and>
    (\<forall>r g. local_target s r g =
      (if canary_replica (w_store w) (c_id c) r \<or> map_of (t_override (w_store w)) r = None
       then fst (desired g s) else local_target (w_store w) r g)) \<and>
    (\<forall>g. fst (desired g s) =
      (if list_all (gate_holds (cc_rounding cf) cm bm) (c_gates c) \<and> g = cc_group cf
       then found (fst (version (c_candidate c) (w_store w))) else fst (desired g (w_store w))))"
proof -
  obtain fs s where run: "decide cf (c_id c) cm bm w =
      (Inr (if decided cf c cm bm then PASS else FAIL, fs), w\<lparr>w_store := s\<rparr>)"
    and fs: "list_all2 finding_of (c_gates c) fs" and tv: "t_version s = t_version (w_store w)"
    and ov: "t_override s = filter (\<lambda>(r, (v, k)). k \<noteq> c_id c) (t_override (w_store w))"
    and td: "if decided cf c cm bm
      then t_desired s = dset (cc_group cf) (c_candidate c, now_of (w_store w)) (t_desired (w_store w))
      else t_desired s = t_desired (w_store w)"
    and row: "\<exists>t. canary (c_id c) s = (Inr (c\<lparr>c_status := if decided cf c cm bm then PASS else FAIL,
      c_decided_at := Some t, c_decision := join [CHR 0x0A] fs\<rparr>), s)"
    by (rule decide_run [OF assms(1-4) assms(5) [folded decided_def]]) (rule that)
  obtain t where row': "canary (c_id c) s = (Inr (c\<lparr>c_status := if decided cf c cm bm then PASS else FAIL,
      c_decided_at := Some t, c_decision := join [CHR 0x0A] fs\<rparr>), s)"
    using row by blast
  have des: "fst (desired g s) = (if decided cf c cm bm \<and> g = cc_group cf
      then found (fst (version (c_candidate c) (w_store w))) else fst (desired g (w_store w)))" for g
    using desired_moved [OF tv] desired_same [OF tv] td by (cases "decided cf c cm bm") auto
  show ?thesis
    unfolding decided_def [symmetric]
    using run fs row' des target_cleared [OF assms(2) tv ov]
    by (intro exI [of _ fs] exI [of _ s] exI [of _ t] conjI allI) simp_all
qed

theorem decide_outcome_witness:
  "\<exists>fs s. decide demo_canary 1 slow_side good_side demo_observing = (Inr (FAIL, fs), demo_observing\<lparr>w_store := s\<rparr>) \<and>
    length fs = 2 \<and> local_target s ''r0'' ''g'' = fst (desired ''g'' s)"
proof -
  have held: "canary_replica (w_store demo_observing) 1 ''r0''"
    by (simp add: canary_replica_def demo_observing_def)
  have gates: "list_all gate_wf (c_gates demo_row)" by (simp only: demo_row_gates demo_gates_wf)
  have fails: "\<not> list_all (gate_holds (cc_rounding demo_canary) slow_side good_side) (c_gates demo_row)"
    by (simp only: demo_row_gates demo_canary_rounding demo_slow simp_thms)
  obtain fs s where "decide demo_canary (c_id demo_row) slow_side good_side demo_observing =
      (Inr (FAIL, fs), demo_observing\<lparr>w_store := s\<rparr>)" "list_all2 finding_of (c_gates demo_row) fs"
    "\<forall>r g. local_target s r g =
      (if canary_replica (w_store demo_observing) (c_id demo_row) r \<or> map_of (t_override (w_store demo_observing)) r = None
       then fst (desired g s) else local_target (w_store demo_observing) r g)"
    using decide_outcome [OF demo_canary_sel(1) demo_observing_wf demo_row_in gates, of slow_side good_side] fails
    unfolding if_not_P [OF fails] by blast
  then show ?thesis
    using held by (intro exI [of _ fs] exI [of _ s])
      (auto simp: demo_row_gates demo_gates_def dest!: list_all2_lengthD)
qed

text \<open>
  C13. A failed canary leaves no trace on what runs. If no replica of the scope was held by
  another canary, and the gates fail, then after \<open>start\<close> and \<open>decide\<close> every replica of every
  group runs what it ran before the canary was started.
\<close>

theorem failed_canary_reverts:
  assumes "cc_api cf = local_store" and "wf_store (w_store w)"
    and "set scope \<subset> set (cc_all cf)" and "list_all gate_wf gates"
    and "\<not> list_all (gate_holds (cc_rounding cf) cm bm) gates"
    and "\<forall>r \<in> set scope. map_of (t_override (w_store w)) r = None"
    and "\<forall>r. \<not> canary_replica (w_store w) (canary_seq (w_store w) + 1) r"
    and start: "start cf cand scope gates win w = (Inr cid, w')"
  shows "\<exists>fs w''. decide cf cid cm bm w' = (Inr (FAIL, fs), w'') \<and>
    local_target (w_store w'') = local_target (w_store w)"
proof -
  obtain s where cid: "cid = canary_seq (w_store w) + 1" "w' = w\<lparr>w_store := s\<rparr>"
    and tv: "t_version s = t_version (w_store w)" and td: "t_desired s = t_desired (w_store w)"
    and ov: "map_of (t_override s) = map_of (foldl (\<lambda>d r. dset r (cand, cid) d) (t_override (w_store w)) scope)"
    and row: "\<exists>c. canary cid s = (Inr c, s) \<and> c_id c = cid \<and> c_gates c = gates"
    and wf: "wf_store s"
  proof (rule start_run [OF assms(1-3), of cand gates win], goal_cases)
    case (1 base s)
    then have cid: "cid = canary_seq (w_store w) + 1" and w': "w' = w\<lparr>w_store := s\<rparr>" using start by simp_all
    show ?case by (rule 1(1) [OF cid w']) (use 1 cid in simp_all)
  qed
  then obtain c where c: "c \<in> set (t_canary s)" "c_id c = cid" "c_gates c = gates"
    using canary_Inr by blast
  have fail: "\<not> decided cf c cm bm" using assms(5) c(3) by (simp add: decided_def)
  obtain fs u where run: "decide cf cid cm bm w' = (Inr (FAIL, fs), w'\<lparr>w_store := u\<rparr>)"
    and tv': "t_version u = t_version s" and td': "t_desired u = t_desired s"
    and ov': "t_override u = filter (\<lambda>(r, (v, k)). k \<noteq> cid) (t_override s)"
  proof (rule decide_run [OF assms(1), of w' c cm bm], goal_cases)
    case (5 fs u)
    then show ?case using fail c cid(2) by (intro 5(1) [of fs u]) simp_all
  qed (use wf c fail assms(4) cid(2) in simp_all)
  have "local_target u r g = local_target (w_store w) r g" for r g
  proof -
    have "fst (desired g u) = fst (desired g (w_store w))"
      by (rule desired_same) (simp_all add: tv tv' td td')
    then show ?thesis
      using target_cleared [OF wf tv' ov'] version_cong [OF tv] desired_same [OF tv td]
        assms(6) spec [OF assms(7), of r] cid(1)
      by (auto simp: local_target_overrides canary_replica_def ov map_of_set_overrides split: option.splits if_splits)
  qed
  then show ?thesis using run by (intro exI [of _ fs] exI [of _ "w'\<lparr>w_store := u\<rparr>"]) (simp add: fun_eq_iff)
qed

theorem failed_canary_reverts_witness:
  "\<exists>cid w' w'' fs. start demo_canary 1 [''r0''] demo_gates (Fin 1) demo_side = (Inr cid, w') \<and>
    decide demo_canary cid slow_side good_side w' = (Inr (FAIL, fs), w'') \<and>
    local_target (w_store w'') = local_target demo_store"
proof -
  have sub: "set [''r0''] \<subset> set (cc_all demo_canary)" by auto
  have wf: "wf_store (w_store demo_side)" by (simp add: demo_store_wf)
  obtain cid w' where st: "start demo_canary 1 [''r0''] demo_gates (Fin 1) demo_side = (Inr cid, w')"
    using start_run [OF demo_canary_sel(1) wf sub] by metis
  have fails: "\<not> list_all (gate_holds (cc_rounding demo_canary) slow_side good_side) demo_gates"
    by (simp only: demo_canary_rounding demo_slow simp_thms)
  have free: "t_override (w_store demo_side) = []"
    by (simp add: demo_store_def demo_proposed_def empty_store_def)
  then have "\<forall>r \<in> set [''r0'']. map_of (t_override (w_store demo_side)) r = None"
    and "\<forall>r. \<not> canary_replica (w_store demo_side) (canary_seq (w_store demo_side) + 1) r"
    by (simp_all add: canary_replica_def)
  from failed_canary_reverts [OF demo_canary_sel(1) wf sub demo_gates_wf fails this st] st show ?thesis
    by simp blast
qed

text \<open>
  A canary whose candidate belongs to another group can be started; when its gates pass the
  decision raises after the overrides are gone, so the canary replicas fall back to the desired
  version, the group does not move, and the canary keeps the status it had.
\<close>

theorem foreign_candidate_stuck:
  assumes "cc_api cf = local_store" and "wf_store (w_store w)" and "c \<in> set (t_canary (w_store w))"
    and "list_all gate_wf (c_gates c)" and "list_all (gate_holds (cc_rounding cf) cm bm) (c_gates c)"
    and "v \<in> set (t_version (w_store w))" and "cv_id v = c_candidate c" and "cv_group v \<noteq> cc_group cf"
  shows "\<exists>s. decide cf (c_id c) cm bm w =
      (Inl (wrong_group (c_candidate c) (cv_group v) (cc_group cf)), w\<lparr>w_store := s\<rparr>) \<and>
    fst (canary (c_id c) s) = Inr c \<and> fst (desired (cc_group cf) s) = fst (desired (cc_group cf) (w_store w)) \<and>
    (\<forall>r. \<not> canary_replica s (c_id c) r)"
proof -
  let ?s = "w_store w"
  obtain fs where ev: "evaluate (cc_rounding cf) (cc_text cf) (c_gates c) cm bm = Inr (True, fs)"
    using evaluate_wf [OF assms(4)] assms(5) by metis
  have row: "canary (c_id c) ?s = (Inr c, ?s)"
    using assms(2,3) by (intro canary_run) (simp_all add: wf_store_def)
  let ?t = "snd (clear_overrides (c_id c) ?s)"
  have "wf_versions ?t" using wf_clear_overrides [OF assms(2)] by (simp add: wf_store_def)
  then have "version (c_candidate c) ?t = (Inr v, ?t)"
    using version_run [of ?t v] assms(6,7) by (simp add: clear_overrides_def)
  then have "promote (cc_group cf) (c_candidate c) ?t =
      (Inl (wrong_group (c_candidate c) (cv_group v) (cc_group cf)), ?t)"
    using assms(8) by (simp add: promote_def)
  then have "decide cf (c_id c) cm bm w =
      (Inl (wrong_group (c_candidate c) (cv_group v) (cc_group cf)), w\<lparr>w_store := ?t\<rparr>)"
    using assms(1) row by (simp add: decide_def local_store_def on_store_def ev clear_overrides_def)
  moreover have "canary (c_id c) ?t = (Inr c, ?t)"
    using row by (simp add: canary_def clear_overrides_def split: option.splits)
  moreover have "fst (desired (cc_group cf) ?t) = fst (desired (cc_group cf) ?s)"
    by (rule desired_same) (simp_all add: clear_overrides_def)
  moreover have "\<not> canary_replica ?t (c_id c) r" for r
    by (auto simp: canary_replica_def clear_overrides_def split: option.splits dest!: map_of_SomeD)
  ultimately show ?thesis by (intro exI [of _ ?t]) simp
qed

theorem foreign_candidate_stuck_witness:
  "\<exists>s. decide (demo_canary\<lparr>cc_group := ''h''\<rparr>) 1 good_side good_side demo_observing =
      (Inl (wrong_group 1 ''g'' ''h''), demo_observing\<lparr>w_store := s\<rparr>) \<and>
    fst (canary 1 s) = Inr demo_row"
proof -
  let ?cf = "demo_canary\<lparr>cc_group := ''h''\<rparr>"
  have gates: "list_all gate_wf (c_gates demo_row)" by (simp only: demo_row_gates demo_gates_wf)
  have api: "cc_api ?cf = local_store" by simp
  have pass: "list_all (gate_holds (cc_rounding ?cf) good_side good_side) (c_gates demo_row)"
    using demo_good by (simp add: demo_row_gates)
  have v: "demo_v1 \<in> set (t_version (w_store demo_observing))" "cv_id demo_v1 = c_candidate demo_row"
      "cv_group demo_v1 \<noteq> cc_group ?cf"
    by (simp_all add: demo_observing_def demo_store_def demo_proposed_def empty_store_def demo_v1_def demo_row_def)
  have g: "cv_group demo_v1 = ''g''" "cc_group ?cf = ''h''" by (simp_all add: demo_v1_def)
  show ?thesis
    using foreign_candidate_stuck [OF api demo_observing_wf demo_row_in gates pass v]
    unfolding g demo_row_gates by blast
qed

text \<open>
  A sample that is NaN satisfies every bound: an absolute gate passes on it, and so does a
  ratio gate as soon as the baseline is usable.
\<close>

theorem nan_sample_passes:
  assumes "map_of cm (metric_name g) = Some NaN"
    and "has_ratio g \<longrightarrow> (\<exists>q. map_of bm (metric_name g) = Some (Fin q) \<and> q \<noteq> 0)"
  shows "gate_holds rnd cm bm g"
  using assms by (auto simp: gate_holds_def between_def)

theorem nan_sample_passes_witness:
  "gate_holds Fin [(''p99_ttft_ms'', NaN)] good_side [(''metric'', JStr ''p99_ttft_ms''), (''max_ratio'', JFloat (Fin 1))]"
  by (rule nan_sample_passes) (simp_all add: metric_name_def good_side_def)

text \<open>
  A canary is decided once: observing one that is no longer observing raises, without
  taking a sample and without a change to the store. Observing one that is takes the samples of
  its window first, and then decides on the means of the two sides.
\<close>

theorem observe_once:
  assumes "cc_api cf = local_store" and "wf_store (w_store w)" and "c \<in> set (t_canary (w_store w))"
  shows "if c_status c = ''observing''
    then \<exists>gap. f_div (cc_rounding cf) (c_window_s c) (Fin (of_int (max samples 1))) = Inr gap \<and>
      observe cf (c_id c) samples w =
        andthen (sample_window cf (remdups (c_scope c))
            (filter (\<lambda>r. r \<notin> set (c_scope c)) (cc_all cf)) gap (nat samples) [] [])
          (\<lambda>(cs, bs). decide cf (c_id c) (mean (cc_rounding cf) cs) (mean (cc_rounding cf) bs)) w
    else observe cf (c_id c) samples w = (Inl (already (c_id c) (c_status c)), w)"
proof -
  have "canary (c_id c) (w_store w) = (Inr c, w_store w)"
    using assms(2,3) by (intro canary_run) (simp_all add: wf_store_def)
  then have row: "on_store (api_canary (cc_api cf) (c_id c)) w = (Inr c, w)"
    by (simp add: assms(1) local_store_def on_store_def)
  have "\<exists>gap. f_div (cc_rounding cf) (c_window_s c) (Fin (of_int (max samples 1))) = Inr gap"
    by (rule f_div_nonzero) (simp add: max_def)
  then show ?thesis by (auto simp: observe_def row Let_def)
qed

theorem observe_once_witness:
  "observe demo_canary 1 5 (demo_observing\<lparr>w_store := (w_store demo_observing)\<lparr>t_canary := [demo_row\<lparr>c_status := PASS\<rparr>]\<rparr>\<rparr>) =
    (Inl (already 1 PASS),
     demo_observing\<lparr>w_store := (w_store demo_observing)\<lparr>t_canary := [demo_row\<lparr>c_status := PASS\<rparr>]\<rparr>\<rparr>)"
proof -
  let ?w = "demo_observing\<lparr>w_store := (w_store demo_observing)\<lparr>t_canary := [demo_row\<lparr>c_status := PASS\<rparr>]\<rparr>\<rparr>"
  have "wf_store (w_store ?w)"
    by (simp add: demo_observing_def wf_store_defs version_in_def demo_store_def demo_proposed_def
        empty_store_def demo_v1_def demo_row_def)
  from observe_once [OF demo_canary_sel(1) this, of "demo_row\<lparr>c_status := PASS\<rparr>" 5] show ?thesis
    by (simp add: PASS_def demo_row_def)
qed

end
