(* ===== verification/Server.thy ===== *)
theory Server
  imports Local_Store
begin

text \<open>
  The network API of the store and its client (\<open>trimtab/server.py\<close>). A request carries a
  method, a path, a query, an authorisation header and a JSON body; the handler checks the token,
  dispatches to the store and turns \<open>KeyError\<close> and \<open>ValueError\<close> into 404 and 400. Any other
  exception ends the handler without an answer, which its client sees as a broken connection.
  \<open>json.loads\<close> of \<open>json.dumps\<close> gives the value back, so a body is the value itself. The types
  a database driver would coerce are not: an argument of another type than the store's methods
  take is a \<open>TypeError\<close> here.
\<close>

section \<open>Values on the wire\<close>

definition opt_int :: "int option \<Rightarrow> json" where
  "opt_int x = (case x of None \<Rightarrow> JNull | Some i \<Rightarrow> JInt i)"

definition version_json :: "config_version \<Rightarrow> json" where
  "version_json v =
     JObj [(''id'', JInt (cv_id v)), (''replica_group'', JStr (cv_group v)), (''parent_id'', opt_int (cv_parent v)),
       (''fields'', JObj (cv_fields v)), (''created_by'', JStr (cv_created_by v)), (''reason'', JStr (cv_reason v)),
       (''created_at'', JFloat (cv_created_at v))]"

definition opt_version_json :: "config_version option \<Rightarrow> json" where
  "opt_version_json v = (case v of None \<Rightarrow> JNull | Some x \<Rightarrow> version_json x)"

definition status_json :: "status_row \<Rightarrow> json" where
  "status_json r =
     JObj [(''replica_id'', JStr (s_replica_id r)), (''applied_version_id'', opt_int (s_applied r)),
       (''state'', JStr (s_state r)), (''detail'', JStr (s_detail r)), (''last_heartbeat'', JFloat (s_heartbeat r))]"

definition canary_json :: "canary_row \<Rightarrow> json" where
  "canary_json c =
     JObj [(''id'', JInt (c_id c)), (''replica_group'', JStr (c_group c)),
       (''candidate_version_id'', JInt (c_candidate c)), (''baseline_version_id'', opt_int (c_baseline c)),
       (''scope'', JArr (map JStr (c_scope c))), (''gates'', JArr (map JObj (c_gates c))),
       (''window_s'', JFloat (c_window_s c)), (''status'', JStr (c_status c)),
       (''started_at'', JFloat (c_started_at c)),
       (''decided_at'', case c_decided_at c of None \<Rightarrow> JNull | Some t \<Rightarrow> JFloat t),
       (''decision'', JStr (c_decision c))]"

definition ok_json :: json where
  "ok_json = JObj [(''ok'', JBool True)]"

section \<open>Reading arguments\<close>

definition need :: "string \<Rightarrow> fields \<Rightarrow> exn + json" where
  "need k b = (case map_of b k of None \<Rightarrow> Inl (KeyError k) | Some v \<Rightarrow> Inr v)"

fun as_str :: "json \<Rightarrow> exn + string" where
  "as_str (JStr s) = Inr s"
| "as_str _ = Inl TypeError"

fun as_obj :: "json \<Rightarrow> exn + fields" where
  "as_obj (JObj d) = Inr d"
| "as_obj _ = Inl TypeError"

fun as_opt_int :: "json \<Rightarrow> exn + int option" where
  "as_opt_int JNull = Inr None"
| "as_opt_int (JInt i) = Inr (Some i)"
| "as_opt_int _ = Inl TypeError"

fun all_of :: "(json \<Rightarrow> exn + 'a) \<Rightarrow> json list \<Rightarrow> exn + 'a list" where
  "all_of f [] = Inr []"
| "all_of f (x # xs) =
     (case f x of Inl e \<Rightarrow> Inl e | Inr y \<Rightarrow> (case all_of f xs of Inl e \<Rightarrow> Inl e | Inr ys \<Rightarrow> Inr (y # ys)))"

fun as_list :: "(json \<Rightarrow> exn + 'a) \<Rightarrow> json \<Rightarrow> exn + 'a list" where
  "as_list f (JArr xs) = all_of f xs"
| "as_list f _ = Inl TypeError"

definition rbind :: "exn + 'a \<Rightarrow> ('a \<Rightarrow> exn + 'b) \<Rightarrow> exn + 'b" where
  "rbind r f = (case r of Inl e \<Rightarrow> Inl e | Inr x \<Rightarrow> f x)"

definition arg :: "(json \<Rightarrow> exn + 'a) \<Rightarrow> string \<Rightarrow> fields \<Rightarrow> (store, 'a) stmt" where
  "arg f k b = of_result (rbind (need k b) f)"

definition arg_or :: "(json \<Rightarrow> exn + 'a) \<Rightarrow> 'a \<Rightarrow> string \<Rightarrow> fields \<Rightarrow> (store, 'a) stmt" where
  "arg_or f dflt k b = (case map_of b k of None \<Rightarrow> ret dflt | Some v \<Rightarrow> of_result (f v))"

text \<open>\<open>q["id"]\<close> and \<open>int(q["id"])\<close>.\<close>

definition qarg :: "string \<Rightarrow> string dict \<Rightarrow> (store, string) stmt" where
  "qarg k q = (case map_of q k of None \<Rightarrow> raise (KeyError k) | Some s \<Rightarrow> ret s)"

definition qint :: "string \<Rightarrow> string dict \<Rightarrow> (store, int) stmt" where
  "qint k q = andthen (qarg k q) (\<lambda>s. of_result (int_of (JStr s)))"

section \<open>The handler\<close>

datatype verb = GET | POST | DELETE

definition verb_text :: "verb \<Rightarrow> string" where
  "verb_text m = (case m of GET \<Rightarrow> ''GET'' | POST \<Rightarrow> ''POST'' | DELETE \<Rightarrow> ''DELETE'')"

record request =
  q_verb :: verb
  q_path :: string
  q_query :: "string dict"
  q_auth :: "string option"
  q_body :: json

definition done_ok :: "unit \<Rightarrow> (store, json) stmt" where
  "done_ok u = ret ok_json"

definition dispatch_post :: "rounding \<Rightarrow> string \<Rightarrow> fields \<Rightarrow> (store, json) stmt" where
  "dispatch_post rnd path b =
     (if path = ''/v1/propose'' then
        andthen (arg as_str ''group'' b) (\<lambda>g. andthen (arg as_obj ''fields'' b) (\<lambda>f.
        andthen (arg_or as_str ''api'' ''created_by'' b) (\<lambda>who. andthen (arg_or as_str [] ''reason'' b) (\<lambda>why.
        andthen (propose g f who why) (\<lambda>v. ret (version_json v))))))
      else if path = ''/v1/promote'' then
        andthen (arg as_str ''group'' b) (\<lambda>g. andthen (arg int_of ''version_id'' b) (\<lambda>i.
        andthen (promote g i) done_ok))
      else if path = ''/v1/rollback'' then
        andthen (arg as_str ''group'' b) (\<lambda>g. andthen (arg int_of ''version_id'' b) (\<lambda>i.
        andthen (rollback g i) done_ok))
      else if path = ''/v1/status'' then
        andthen (arg as_str ''replica_id'' b) (\<lambda>r. andthen (arg as_str ''group'' b) (\<lambda>g.
        andthen (arg_or as_opt_int None ''applied_version_id'' b) (\<lambda>a. andthen (arg as_str ''state'' b) (\<lambda>st.
        andthen (arg_or as_str [] ''detail'' b) (\<lambda>d.
        andthen (record_status r g a st d) done_ok)))))
      else if path = ''/v1/canary/open'' then
        andthen (arg as_str ''group'' b) (\<lambda>g. andthen (arg int_of ''candidate_id'' b) (\<lambda>i.
        andthen (arg (as_list as_str) ''scope'' b) (\<lambda>scope. andthen (arg (as_list as_obj) ''gates'' b) (\<lambda>gates.
        andthen (arg (float_of rnd) ''window_s'' b) (\<lambda>w.
        andthen (open_canary g i scope gates w) (\<lambda>cid. ret (JObj [(''id'', JInt cid)])))))))
      else if path = ''/v1/canary/close'' then
        andthen (arg int_of ''id'' b) (\<lambda>i. andthen (arg as_str ''status'' b) (\<lambda>st.
        andthen (arg_or as_str [] ''decision'' b) (\<lambda>dec.
        andthen (close_canary i st dec) done_ok)))
      else if path = ''/v1/overrides'' then
        andthen (arg (as_list as_str) ''replica_ids'' b) (\<lambda>rs. andthen (arg int_of ''version_id'' b) (\<lambda>i.
        andthen (arg int_of ''canary_id'' b) (\<lambda>c.
        andthen (set_overrides rs i c) done_ok)))
      else raise (KeyError (''no route POST '' @ path)))"

definition dispatch_get :: "string \<Rightarrow> string dict \<Rightarrow> (store, json) stmt" where
  "dispatch_get path q =
     (if path = ''/v1/desired'' then
        (case map_of q ''replica'' of
           Some r \<Rightarrow> if r \<noteq> []
             then andthen (qarg ''group'' q) (\<lambda>g. andthen (desired_for r g) (\<lambda>v. ret (opt_version_json v)))
             else andthen (qarg ''group'' q) (\<lambda>g. andthen (desired g) (\<lambda>v. ret (opt_version_json v)))
         | None \<Rightarrow> andthen (qarg ''group'' q) (\<lambda>g. andthen (desired g) (\<lambda>v. ret (opt_version_json v))))
      else if path = ''/v1/version'' then
        andthen (qint ''id'' q) (\<lambda>i. andthen (version i) (\<lambda>v. ret (version_json v)))
      else if path = ''/v1/versions'' then
        andthen (qarg ''group'' q) (\<lambda>g. andthen (versions g) (\<lambda>vs. ret (JArr (map version_json vs))))
      else if path = ''/v1/status'' then
        andthen (qarg ''group'' q) (\<lambda>g. andthen (status g) (\<lambda>rs. ret (JArr (map status_json rs))))
      else if path = ''/v1/canary'' then
        andthen (qint ''id'' q) (\<lambda>i. andthen (canary i) (\<lambda>c. ret (canary_json c)))
      else raise (KeyError (''no route GET '' @ path)))"

definition dispatch_delete :: "string \<Rightarrow> string dict \<Rightarrow> (store, json) stmt" where
  "dispatch_delete path q =
     (if path = ''/v1/overrides'' then
        andthen (qint ''canary_id'' q) (\<lambda>c. andthen (clear_overrides c) done_ok)
      else raise (KeyError (''no route DELETE '' @ path)))"

text \<open>A body that is no object has no \<open>get\<close> and cannot be indexed by a string.\<close>

definition dispatch :: "rounding \<Rightarrow> verb \<Rightarrow> string \<Rightarrow> string dict \<Rightarrow> json \<Rightarrow> (store, json) stmt" where
  "dispatch rnd m path q b =
     (if path = ''/health'' then ret ok_json
      else case m of
        POST \<Rightarrow> andthen (of_result (as_obj b)) (dispatch_post rnd path)
      | GET \<Rightarrow> dispatch_get path q
      | DELETE \<Rightarrow> dispatch_delete path q)"

definition error_json :: "string \<Rightarrow> json" where
  "error_json msg = JObj [(''error'', JStr msg)]"

definition bearer :: "string \<Rightarrow> string" where
  "bearer token = ''Bearer '' @ token"

definition authorised :: "string \<Rightarrow> request \<Rightarrow> bool" where
  "authorised token r \<longleftrightarrow> (q_path r = ''/health'' \<and> q_query r = []) \<or> q_auth r = Some (bearer token)"

text \<open>\<open>parse_qs\<close> drops a parameter whose value is blank.\<close>

definition parsed_query :: "string dict \<Rightarrow> string dict" where
  "parsed_query q = filter (\<lambda>(k, v). v \<noteq> []) q"

definition route :: "rounding \<Rightarrow> string \<Rightarrow> request \<Rightarrow> (store, int \<times> json) stmt" where
  "route rnd token r s =
     (if \<not> authorised token r then (Inr (401, error_json ''bad token''), s)
      else case dispatch rnd (q_verb r) (q_path r) (parsed_query (q_query r)) (q_body r) s of
          (Inl (KeyError m), s') \<Rightarrow> (Inr (404, error_json (repr_str m)), s')
        | (Inl (ValueError m), s') \<Rightarrow> (Inr (400, error_json m), s')
        | (Inl e, s') \<Rightarrow> (Inl ConnectionError, s')
        | (Inr j, s') \<Rightarrow> (Inr (200, j), s'))"

end
