(* ===== verification/Remote_Store.thy ===== *)
theory Remote_Store
  imports Server
begin

text \<open>
  \<open>RemoteStore\<close>, the client of the server with the methods of \<open>Store\<close> (\<open>trimtab/server.py\<close>). The
  two ends are one statement over the server's store: the client builds the request, the handler
  routes it, the client reads the answer or turns the error status back into an exception. After
  the methods: each of them is the method of the local store, up to the text of a \<open>KeyError\<close>,
  which \<open>str\<close> puts in quotes.
\<close>

section \<open>The client\<close>

record remote =
  rm_rounding :: rounding
  rm_server_token :: string
  rm_token :: string

definition error_of :: "int \<Rightarrow> string \<Rightarrow> exn" where
  "error_of code msg =
     (if code = 400 then ValueError msg else if code = 404 then KeyError msg
      else if code = 401 then PermissionError msg else RuntimeError msg)"

text \<open>\<open>json.loads(e.read() or b"{}").get("error", str(e))\<close>; the server always sends an error.\<close>

definition error_text :: "int \<Rightarrow> json \<Rightarrow> string" where
  "error_text code body =
     (case json_get ''error'' body of Some (JStr m) \<Rightarrow> m | _ \<Rightarrow> ''HTTP Error '' @ show_int code)"

definition call :: "remote \<Rightarrow> verb \<Rightarrow> string \<Rightarrow> string dict \<Rightarrow> json \<Rightarrow> (store, json) stmt" where
  "call rm m path q body =
     andthen (route (rm_rounding rm) (rm_server_token rm)
       \<lparr>q_verb = m, q_path = path, q_query = q, q_auth = Some (bearer (rm_token rm)), q_body = body\<rparr>)
       (\<lambda>(code, answer).
          if 200 \<le> code \<and> code < 300 then ret answer else raise (error_of code (error_text code answer)))"

text \<open>\<open>ConfigVersion(**d)\<close> takes exactly the fields of the class.\<close>

fun decode_version :: "json \<Rightarrow> exn + config_version" where
  "decode_version (JObj d) =
     (if set (keys d) \<noteq> {''id'', ''replica_group'', ''parent_id'', ''fields'', ''created_by'', ''reason'', ''created_at''}
      then Inl TypeError
      else case (map_of d ''id'', map_of d ''replica_group'', map_of d ''parent_id'', map_of d ''fields'',
          map_of d ''created_by'', map_of d ''reason'', map_of d ''created_at'') of
        (Some (JInt i), Some (JStr g), Some p, Some (JObj f), Some (JStr who), Some (JStr why), Some (JFloat t)) \<Rightarrow>
          (case as_opt_int p of Inl e \<Rightarrow> Inl e | Inr parent \<Rightarrow>
            Inr \<lparr>cv_id = i, cv_group = g, cv_parent = parent, cv_fields = f, cv_created_by = who,
                 cv_reason = why, cv_created_at = t\<rparr>)
      | _ \<Rightarrow> Inl TypeError)"
| "decode_version _ = Inl TypeError"

definition decode_opt_version :: "json \<Rightarrow> exn + config_version option" where
  "decode_opt_version d = (if truthy d then (case decode_version d of Inl e \<Rightarrow> Inl e | Inr v \<Rightarrow> Inr (Some v)) else Inr None)"

fun decode_status :: "string \<Rightarrow> json \<Rightarrow> exn + status_row" where
  "decode_status g (JObj d) =
     (case (map_of d ''replica_id'', map_of d ''applied_version_id'', map_of d ''state'', map_of d ''detail'',
         map_of d ''last_heartbeat'') of
        (Some (JStr r), Some a, Some (JStr st), Some (JStr det), Some (JFloat t)) \<Rightarrow>
          (case as_opt_int a of Inl e \<Rightarrow> Inl e | Inr applied \<Rightarrow>
            Inr \<lparr>s_replica_id = r, s_group = g, s_applied = applied, s_state = st, s_detail = det, s_heartbeat = t\<rparr>)
      | _ \<Rightarrow> Inl TypeError)"
| "decode_status g _ = Inl TypeError"

fun as_opt_float :: "json \<Rightarrow> exn + pyfloat option" where
  "as_opt_float JNull = Inr None"
| "as_opt_float (JFloat f) = Inr (Some f)"
| "as_opt_float _ = Inl TypeError"

fun as_float :: "json \<Rightarrow> exn + pyfloat" where
  "as_float (JFloat f) = Inr f"
| "as_float _ = Inl TypeError"

fun as_int :: "json \<Rightarrow> exn + int" where
  "as_int (JInt i) = Inr i"
| "as_int _ = Inl TypeError"

definition getting :: "(json \<Rightarrow> exn + 'a) \<Rightarrow> string \<Rightarrow> fields \<Rightarrow> ('a \<Rightarrow> exn + 'b) \<Rightarrow> exn + 'b" where
  "getting f k d g = rbind (rbind (need k d) f) g"

definition decode_canary :: "json \<Rightarrow> exn + canary_row" where
  "decode_canary j = rbind (as_obj j) (\<lambda>d.
     getting as_int ''id'' d (\<lambda>i. getting as_str ''replica_group'' d (\<lambda>g.
     getting as_int ''candidate_version_id'' d (\<lambda>cand. getting as_opt_int ''baseline_version_id'' d (\<lambda>base.
     getting (as_list as_str) ''scope'' d (\<lambda>scope. getting (as_list as_obj) ''gates'' d (\<lambda>gates.
     getting as_float ''window_s'' d (\<lambda>w. getting as_str ''status'' d (\<lambda>st.
     getting as_float ''started_at'' d (\<lambda>t. getting as_opt_float ''decided_at'' d (\<lambda>u.
     getting as_str ''decision'' d (\<lambda>dec.
       Inr \<lparr>c_id = i, c_group = g, c_candidate = cand, c_baseline = base, c_scope = scope, c_gates = gates,
            c_window_s = w, c_status = st, c_started_at = t, c_decided_at = u, c_decision = dec\<rparr>))))))))))))"

definition remote_propose :: "remote \<Rightarrow> string \<Rightarrow> fields \<Rightarrow> string \<Rightarrow> string \<Rightarrow> (store, config_version) stmt" where
  "remote_propose rm g f who why =
     andthen (call rm POST ''/v1/propose'' []
       (JObj [(''group'', JStr g), (''fields'', JObj f), (''created_by'', JStr who), (''reason'', JStr why)]))
       (\<lambda>j. of_result (decode_version j))"

definition remote_promote :: "remote \<Rightarrow> string \<Rightarrow> int \<Rightarrow> (store, unit) stmt" where
  "remote_promote rm g i =
     andthen (call rm POST ''/v1/promote'' [] (JObj [(''group'', JStr g), (''version_id'', JInt i)])) (\<lambda>_. ret ())"

definition remote_rollback :: "remote \<Rightarrow> string \<Rightarrow> int \<Rightarrow> (store, unit) stmt" where
  "remote_rollback rm g i =
     andthen (call rm POST ''/v1/rollback'' [] (JObj [(''group'', JStr g), (''version_id'', JInt i)])) (\<lambda>_. ret ())"

definition remote_desired :: "remote \<Rightarrow> string \<Rightarrow> (store, config_version option) stmt" where
  "remote_desired rm g =
     andthen (call rm GET ''/v1/desired'' [(''group'', g)] (JObj [])) (\<lambda>j. of_result (decode_opt_version j))"

definition remote_desired_for :: "remote \<Rightarrow> string \<Rightarrow> string \<Rightarrow> (store, config_version option) stmt" where
  "remote_desired_for rm r g =
     andthen (call rm GET ''/v1/desired'' [(''group'', g), (''replica'', r)] (JObj []))
       (\<lambda>j. of_result (decode_opt_version j))"

definition remote_version :: "remote \<Rightarrow> int \<Rightarrow> (store, config_version) stmt" where
  "remote_version rm i =
     andthen (call rm GET ''/v1/version'' [(''id'', show_int i)] (JObj [])) (\<lambda>j. of_result (decode_version j))"

definition remote_versions :: "remote \<Rightarrow> string \<Rightarrow> (store, config_version list) stmt" where
  "remote_versions rm g =
     andthen (call rm GET ''/v1/versions'' [(''group'', g)] (JObj [])) (\<lambda>j. of_result (as_list decode_version j))"

definition remote_record_status ::
  "remote \<Rightarrow> string \<Rightarrow> string \<Rightarrow> int option \<Rightarrow> string \<Rightarrow> string \<Rightarrow> (store, unit) stmt" where
  "remote_record_status rm r g a st d =
     andthen (call rm POST ''/v1/status'' []
       (JObj [(''replica_id'', JStr r), (''group'', JStr g), (''applied_version_id'', opt_int a),
         (''state'', JStr st), (''detail'', JStr d)])) (\<lambda>_. ret ())"

definition remote_status :: "remote \<Rightarrow> string \<Rightarrow> (store, status_row list) stmt" where
  "remote_status rm g =
     andthen (call rm GET ''/v1/status'' [(''group'', g)] (JObj [])) (\<lambda>j. of_result (as_list (decode_status g) j))"

definition remote_open_canary ::
  "remote \<Rightarrow> string \<Rightarrow> int \<Rightarrow> string list \<Rightarrow> fields list \<Rightarrow> pyfloat \<Rightarrow> (store, int) stmt" where
  "remote_open_canary rm g i scope gates w =
     andthen (call rm POST ''/v1/canary/open'' []
       (JObj [(''group'', JStr g), (''candidate_id'', JInt i), (''scope'', JArr (map JStr scope)),
         (''gates'', JArr (map JObj gates)), (''window_s'', JFloat w)]))
       (\<lambda>j. of_result (rbind (as_obj j) (\<lambda>d. rbind (need ''id'' d) as_int)))"

definition remote_canary :: "remote \<Rightarrow> int \<Rightarrow> (store, canary_row) stmt" where
  "remote_canary rm i =
     andthen (call rm GET ''/v1/canary'' [(''id'', show_int i)] (JObj [])) (\<lambda>j. of_result (decode_canary j))"

definition remote_close_canary :: "remote \<Rightarrow> int \<Rightarrow> string \<Rightarrow> string \<Rightarrow> (store, unit) stmt" where
  "remote_close_canary rm i st dec =
     andthen (call rm POST ''/v1/canary/close'' []
       (JObj [(''id'', JInt i), (''status'', JStr st), (''decision'', JStr dec)])) (\<lambda>_. ret ())"

definition remote_set_overrides :: "remote \<Rightarrow> string list \<Rightarrow> int \<Rightarrow> int \<Rightarrow> (store, unit) stmt" where
  "remote_set_overrides rm rs i c =
     andthen (call rm POST ''/v1/overrides'' []
       (JObj [(''replica_ids'', JArr (map JStr rs)), (''version_id'', JInt i), (''canary_id'', JInt c)])) (\<lambda>_. ret ())"

definition remote_clear_overrides :: "remote \<Rightarrow> int \<Rightarrow> (store, unit) stmt" where
  "remote_clear_overrides rm c =
     andthen (call rm DELETE ''/v1/overrides'' [(''canary_id'', show_int c)] (JObj [])) (\<lambda>_. ret ())"

definition remote_store :: "remote \<Rightarrow> store store_api" where
  "remote_store rm =
     \<lparr>api_propose = remote_propose rm, api_promote = remote_promote rm, api_rollback = remote_rollback rm,
      api_desired = remote_desired rm, api_desired_for = remote_desired_for rm, api_version = remote_version rm,
      api_versions = remote_versions rm, api_record_status = remote_record_status rm, api_status = remote_status rm,
      api_open_canary = remote_open_canary rm, api_canary = remote_canary rm,
      api_close_canary = remote_close_canary rm, api_set_overrides = remote_set_overrides rm,
      api_clear_overrides = remote_clear_overrides rm\<rparr>"

text \<open>\<open>open_store\<close>: which of the two stores a \<open>--db\<close> argument names.\<close>

definition is_remote_db :: "string \<Rightarrow> bool" where
  "is_remote_db db \<longleftrightarrow> starts_with ''http://'' db \<or> starts_with ''https://'' db"

definition open_store :: "rounding \<Rightarrow> string \<Rightarrow> string \<Rightarrow> string option \<Rightarrow> exn + store store_api" where
  "open_store rnd server_token db token =
     (if is_remote_db db then
        (case token of
           None \<Rightarrow> Inl (ValueError ''a remote store needs --token'')
         | Some t \<Rightarrow> if t = [] then Inl (ValueError ''a remote store needs --token'')
             else Inr (remote_store \<lparr>rm_rounding = rnd, rm_server_token = server_token, rm_token = t\<rparr>))
      else Inr local_store)"

section \<open>What the wire does to a result\<close>

text \<open>The exceptions of the store, as they come out of the client.\<close>

fun wired_exn :: "exn \<Rightarrow> exn" where
  "wired_exn (KeyError m) = KeyError (repr_str m)"
| "wired_exn (ValueError m) = ValueError m"
| "wired_exn e = ConnectionError"

definition over_wire :: "(exn + 'a) \<times> store \<Rightarrow> (exn + 'a) \<times> store" where
  "over_wire p = (case p of (Inl e, s) \<Rightarrow> (Inl (wired_exn e), s) | (Inr x, s) \<Rightarrow> (Inr x, s))"

definition trusted :: "remote \<Rightarrow> bool" where
  "trusted rm \<longleftrightarrow> rm_token rm = rm_server_token rm"

lemma call_run:
  assumes "trusted rm"
  shows "call rm m path q b s = over_wire (dispatch (rm_rounding rm) m path (parsed_query q) b s)"
proof (cases "dispatch (rm_rounding rm) m path (parsed_query q) b s")
  case (Pair r t)
  have a: "authorised (rm_server_token rm)
      \<lparr>q_verb = m, q_path = path, q_query = q, q_auth = Some (bearer (rm_token rm)), q_body = b\<rparr>"
    using assms by (simp add: authorised_def trusted_def)
  show ?thesis
  proof (cases r)
    case (Inl e)
    then show ?thesis
      using a Pair
      by (cases e) (simp_all add: call_def andthen_def route_def over_wire_def error_of_def error_text_def
          error_json_def json_get_def)
  next
    case (Inr j)
    then show ?thesis using a Pair by (simp add: call_def andthen_def route_def over_wire_def)
  qed
qed

lemma over_wire_andthen:
  "andthen (\<lambda>s. over_wire (m s)) f s = (case m s of (Inl e, t) \<Rightarrow> (Inl (wired_exn e), t) | (Inr x, t) \<Rightarrow> f x t)"
  by (simp add: andthen_def over_wire_def split: prod.split sum.split)

text \<open>Values survive the wire.\<close>

lemma decode_version_json: "decode_version (version_json v) = Inr v"
  by (cases v) (auto simp: version_json_def opt_int_def split: option.split)

lemma decode_opt_version_json: "decode_opt_version (opt_version_json v) = Inr v"
  by (cases v) (simp_all add: decode_opt_version_def opt_version_json_def decode_version_json,
      simp add: version_json_def)

lemma decode_status_json: "s_group r = g \<Longrightarrow> decode_status g (status_json r) = Inr r"
  by (cases r) (auto simp: status_json_def opt_int_def split: option.split)

lemma all_of_map: "(\<And>x. x \<in> set xs \<Longrightarrow> f (enc x) = Inr x) \<Longrightarrow> all_of f (map enc xs) = Inr xs"
  by (induction xs) auto

lemma as_opt_int_opt [simp]: "as_opt_int (opt_int x) = Inr x"
  by (cases x) (simp_all add: opt_int_def)

lemma as_opt_float_opt [simp]: "as_opt_float (case x of None \<Rightarrow> JNull | Some t \<Rightarrow> JFloat t) = Inr x"
  by (cases x) simp_all

lemma decode_canary_json: "decode_canary (canary_json c) = Inr c"
  by (cases c) (simp add: decode_canary_def canary_json_def getting_def rbind_def need_def all_of_map)

section \<open>Each method is the local one\<close>

text \<open>Through the handler, a store method with a unit result, and one whose result is encoded.\<close>

lemma wire_unit:
  "andthen (\<lambda>s. over_wire (andthen m done_ok s)) (\<lambda>_. ret ()) s = over_wire (m s)"
  by (auto simp: andthen_def over_wire_def done_ok_def split: prod.split sum.split)

lemma wire_value:
  assumes "\<And>x t. m s = (Inr x, t) \<Longrightarrow> dec (enc x) = Inr (f x)"
  shows "andthen (\<lambda>s. over_wire (andthen m (\<lambda>x. ret (enc x)) s)) (\<lambda>j. of_result (dec j)) s =
    (case over_wire (m s) of (Inl e, t) \<Rightarrow> (Inl e, t) | (Inr x, t) \<Rightarrow> (Inr (f x), t))"
  using assms by (auto simp: andthen_def over_wire_def split: prod.split sum.split)

lemma over_wire_id: "(case over_wire p of (Inl e, t) \<Rightarrow> (Inl e, t) | (Inr x, t) \<Rightarrow> (Inr x, t)) = over_wire p"
  by (auto simp: over_wire_def split: prod.split sum.split)

lemmas wire_defs = arg_def arg_or_def qarg_def qint_def need_def rbind_def dispatch_def parsed_query_def

lemma call_post:
  assumes conn: "trusted rm" and "path \<noteq> ''/health''"
  shows "call rm POST path [] (JObj b) = (\<lambda>s. over_wire (dispatch_post (rm_rounding rm) path b s))"
  using assms by (simp add: fun_eq_iff call_run [OF conn] dispatch_def)

lemma call_get:
  assumes conn: "trusted rm" and "path \<noteq> ''/health''" and "\<forall>(k, v) \<in> set q. v \<noteq> []"
  shows "call rm GET path q b = (\<lambda>s. over_wire (dispatch_get path q s))"
proof -
  have "parsed_query q = q" using assms(3) by (auto simp: parsed_query_def filter_id_conv)
  then show ?thesis using assms by (simp add: fun_eq_iff call_run [OF conn] dispatch_def)
qed

lemma call_delete:
  assumes conn: "trusted rm" and "path \<noteq> ''/health''" and "\<forall>(k, v) \<in> set q. v \<noteq> []"
  shows "call rm DELETE path q b = (\<lambda>s. over_wire (dispatch_delete path q s))"
proof -
  have "parsed_query q = q" using assms(3) by (auto simp: parsed_query_def filter_id_conv)
  then show ?thesis using assms by (simp add: fun_eq_iff call_run [OF conn] dispatch_def)
qed

lemma remote_promote_local: "trusted rm \<Longrightarrow> remote_promote rm g i s = over_wire (promote g i s)"
  by (simp add: remote_promote_def call_post dispatch_post_def wire_defs wire_unit)

lemma remote_rollback_local: "trusted rm \<Longrightarrow> remote_rollback rm g i s = over_wire (rollback g i s)"
  by (simp add: remote_rollback_def call_post dispatch_post_def wire_defs wire_unit)

lemma remote_propose_local: "trusted rm \<Longrightarrow> remote_propose rm g f who why s = over_wire (propose g f who why s)"
  by (simp add: remote_propose_def call_post dispatch_post_def wire_defs
      wire_value [where f = "\<lambda>x. x"] decode_version_json over_wire_id)

lemma remote_record_status_local: "trusted rm \<Longrightarrow> remote_record_status rm r g a st d s = over_wire (record_status r g a st d s)"
  by (simp add: remote_record_status_def call_post dispatch_post_def wire_defs wire_unit)

lemma remote_close_canary_local: "trusted rm \<Longrightarrow> remote_close_canary rm i st dec s = over_wire (close_canary i st dec s)"
  by (simp add: remote_close_canary_def call_post dispatch_post_def wire_defs wire_unit)

lemma remote_set_overrides_local: "trusted rm \<Longrightarrow> remote_set_overrides rm rs i c s = over_wire (set_overrides rs i c s)"
  by (simp add: remote_set_overrides_def call_post dispatch_post_def wire_defs wire_unit all_of_map)

lemma remote_open_canary_local:
  "trusted rm \<Longrightarrow> remote_open_canary rm g i scope gates w s = over_wire (open_canary g i scope gates w s)"
  by (simp add: remote_open_canary_def call_post dispatch_post_def wire_defs all_of_map
      wire_value [where f = "\<lambda>x. x"] over_wire_id)

lemma remote_desired_local: "trusted rm \<Longrightarrow> g \<noteq> [] \<Longrightarrow> remote_desired rm g s = over_wire (desired g s)"
  by (simp add: remote_desired_def call_get dispatch_get_def wire_defs
      wire_value [where f = "\<lambda>x. x"] decode_opt_version_json over_wire_id)

lemma remote_desired_for_local:
  "trusted rm \<Longrightarrow> g \<noteq> [] \<Longrightarrow> r \<noteq> [] \<Longrightarrow> remote_desired_for rm r g s = over_wire (desired_for r g s)"
  by (simp add: remote_desired_for_def call_get dispatch_get_def wire_defs
      wire_value [where f = "\<lambda>x. x"] decode_opt_version_json over_wire_id)

lemma remote_version_local: "trusted rm \<Longrightarrow> remote_version rm i s = over_wire (version i s)"
  by (simp add: remote_version_def call_get dispatch_get_def wire_defs show_int_nonempty parse_show_int
      wire_value [where f = "\<lambda>x. x"] decode_version_json over_wire_id)

lemma remote_canary_local: "trusted rm \<Longrightarrow> remote_canary rm i s = over_wire (canary i s)"
  by (simp add: remote_canary_def call_get dispatch_get_def wire_defs show_int_nonempty parse_show_int
      wire_value [where f = "\<lambda>x. x"] decode_canary_json over_wire_id)

lemma remote_versions_local: "trusted rm \<Longrightarrow> g \<noteq> [] \<Longrightarrow> remote_versions rm g s = over_wire (versions g s)"
  by (simp add: remote_versions_def call_get dispatch_get_def wire_defs all_of_map
      wire_value [where f = "\<lambda>x. x"] decode_version_json over_wire_id)

lemma remote_status_local: "trusted rm \<Longrightarrow> g \<noteq> [] \<Longrightarrow> remote_status rm g s = over_wire (status g s)"
  by (simp add: remote_status_def call_get dispatch_get_def wire_defs)
    (subst wire_value [where f = "\<lambda>x. x"],
      auto simp: status_def over_wire_id intro!: all_of_map decode_status_json)

lemma remote_clear_overrides_local: "trusted rm \<Longrightarrow> remote_clear_overrides rm c s = over_wire (clear_overrides c s)"
  by (simp add: remote_clear_overrides_def call_delete dispatch_delete_def wire_defs show_int_nonempty parse_show_int
      wire_unit)

end
