(* ===== verification/Remote_Plane.thy ===== *)
theory Remote_Plane
  imports Remote_Store Daemons
begin

text \<open>
  The plane over the network: the client keeps the contract of a replica's store, refuses
  nothing the local store allows and allows nothing it refuses, and a daemon cannot tell the two
  apart.
\<close>

section \<open>The client keeps the contract\<close>

lemma over_wire_state [simp]: "snd (over_wire p) = snd p"
  by (simp add: over_wire_def split: prod.split sum.split)

lemma over_wire_run [simp]: "over_wire (Inr x, s) = (Inr x, s)" "over_wire (Inl e, s) = (Inl (wired_exn e), s)"
  by (simp_all add: over_wire_def)

lemma remote_record_status_eq: "trusted rm \<Longrightarrow> remote_record_status rm r g a st d = record_status r g a st d"
  by (simp add: fun_eq_iff remote_record_status_local record_status_run)

definition remote_target :: "store \<Rightarrow> string \<Rightarrow> string \<Rightarrow> exn + config_version option" where
  "remote_target s r g = fst (over_wire (desired_for r g s))"

definition named :: "string \<Rightarrow> bool" where
  "named n \<longleftrightarrow> n \<noteq> []"

lemma remote_target_cong: "local_target s = local_target t \<Longrightarrow> remote_target s = remote_target t"
proof (intro ext)
  fix r g assume "local_target s = local_target t"
  then have "fst (desired_for r g s) = fst (desired_for r g t)" by (metis local_target_def)
  then show "remote_target s r g = remote_target t r g"
    by (auto simp: remote_target_def over_wire_def split: prod.split sum.split)
qed

interpretation remote_plane: replica_store "remote_store rm" remote_target local_reported
  "\<lambda>s. trusted rm \<and> wf_store s" named for rm
proof (unfold_locales, goal_cases)
  case (1 s r g)
  then have "remote_desired_for rm r g s = over_wire (desired_for r g s)"
    by (intro remote_desired_for_local) (simp_all add: named_def)
  moreover have "over_wire (desired_for r g s) = (fst (over_wire (desired_for r g s)), s)"
    by (simp add: prod_eq_iff)
  ultimately show ?case by (simp add: remote_store_def remote_target_def)
next
  case (2 s r g a st d)
  then show ?case by (simp add: remote_store_def remote_record_status_eq record_status_run)
next
  case (3 s r g a st d)
  then show ?case by (simp add: remote_store_def remote_record_status_eq wf_record_status)
next
  case (4 s r g a st d)
  then show ?case
    using remote_target_cong [OF record_status_local(1)] by (simp add: remote_store_def remote_record_status_eq)
next
  case (5 s r g a st d)
  then show ?case by (simp add: remote_store_def remote_record_status_eq record_status_local)
qed

interpretation sglang_remote: live_daemon "remote_store rm" remote_target local_reported
  "\<lambda>s. trusted rm \<and> wf_store s" named "sglang_adapter (mock_http rnd fr) fr" mk_knobs equal_value sglang_ready
  hot_changes "accepts_equal rnd fr" for rm rnd fr ..

interpretation vllm_remote: live_daemon "remote_store rm" remote_target local_reported
  "\<lambda>s. trusted rm \<and> wf_store s" named "vllm_adapter (mock_http rnd fr) fr" mk_knobs "normal_value fr" vllm_ready
  hot_changes "accepts rnd fr" for rm rnd fr ..

section \<open>A daemon cannot tell\<close>

text \<open>The same daemon, given the client of a server instead of the store.\<close>

definition over_network :: "remote \<Rightarrow> (store, 'e) reconciler_config \<Rightarrow> (store, 'e) reconciler_config" where
  "over_network rm c = c\<lparr>rc_api := remote_store rm\<rparr>"

lemma over_network_sel [simp]:
  "rc_api (over_network rm c) = remote_store rm" "rc_manifest (over_network rm c) = rc_manifest c"
  "rc_adapter (over_network rm c) = rc_adapter c" "rc_replica (over_network rm c) = rc_replica c"
  "rc_group (over_network rm c) = rc_group c" "rc_text (over_network rm c) = rc_text c"
  by (simp_all add: over_network_def)

lemma report_over_network:
  assumes "trusted rm" and "rc_api c = local_store"
  shows "report (over_network rm c) = report c"
  using assms by (simp add: fun_eq_iff report_def remote_store_def local_store_def remote_record_status_eq)

lemma apply_version_over_network:
  assumes "trusted rm" and "rc_api c = local_store"
  shows "apply_version (over_network rm c) = apply_version c"
  unfolding fun_eq_iff apply_version_def finish_def push_hot_def report_over_network [OF assms] over_network_sel
  by simp

section \<open>Properties\<close>

text \<open>
  C14. The client is the store. With the right token and names that are not blank, every method
  of \<open>RemoteStore\<close> does to the server's store what the method of \<open>Store\<close> does, returns what it
  returns, and raises what it raises, a \<open>KeyError\<close> with its text in quotes.
\<close>

theorem remote_is_local:
  assumes "trusted rm" and "g \<noteq> []" and "r \<noteq> []"
  shows "api_propose (remote_store rm) g f who why s = over_wire (propose g f who why s) \<and>
    api_promote (remote_store rm) g i s = over_wire (promote g i s) \<and>
    api_rollback (remote_store rm) g i s = over_wire (rollback g i s) \<and>
    api_desired (remote_store rm) g s = over_wire (desired g s) \<and>
    api_desired_for (remote_store rm) r g s = over_wire (desired_for r g s) \<and>
    api_version (remote_store rm) i s = over_wire (version i s) \<and>
    api_versions (remote_store rm) g s = over_wire (versions g s) \<and>
    api_record_status (remote_store rm) r g a st d s = over_wire (record_status r g a st d s) \<and>
    api_status (remote_store rm) g s = over_wire (status g s) \<and>
    api_open_canary (remote_store rm) g i scope gates w s = over_wire (open_canary g i scope gates w s) \<and>
    api_canary (remote_store rm) i s = over_wire (canary i s) \<and>
    api_close_canary (remote_store rm) i st d s = over_wire (close_canary i st d s) \<and>
    api_set_overrides (remote_store rm) rs i j s = over_wire (set_overrides rs i j s) \<and>
    api_clear_overrides (remote_store rm) i s = over_wire (clear_overrides i s)"
  using assms
  by (simp add: remote_store_def remote_propose_local remote_promote_local remote_rollback_local
      remote_desired_local remote_desired_for_local remote_version_local remote_versions_local
      remote_record_status_local remote_status_local remote_open_canary_local remote_canary_local
      remote_close_canary_local remote_set_overrides_local remote_clear_overrides_local)

definition demo_remote :: remote where
  "demo_remote = \<lparr>rm_rounding = Fin, rm_server_token = ''secret'', rm_token = ''secret''\<rparr>"

lemma demo_trusted: "trusted demo_remote"
  by (simp add: trusted_def demo_remote_def)

theorem remote_is_local_witness:
  "api_promote (remote_store demo_remote) ''g'' 1 demo_proposed = (Inr (), demo_store)"
  using remote_is_local [OF demo_trusted, of "''g''" "''r0''"] demo_promote by (simp add: over_wire_def)

text \<open>
  One token guards every route. A request whose token is wrong, other than the bare health
  check, is answered 401 and changes nothing, whatever its method, path, query and body; a client
  with the wrong token gets a \<open>PermissionError\<close> from every call.
\<close>

theorem wrong_token_refused:
  assumes "q_auth r \<noteq> Some (bearer token)" and "q_path r \<noteq> ''/health'' \<or> q_query r \<noteq> []"
    and "\<not> trusted rm" and "path \<noteq> ''/health''"
  shows "route rnd token r s = (Inr (401, error_json ''bad token''), s) \<and>
    call rm m path q b s = (Inl (PermissionError ''bad token''), s)"
  using assms
  by (auto simp: route_def authorised_def call_def andthen_def trusted_def bearer_def error_of_def
      error_text_def error_json_def json_get_def)

theorem wrong_token_refused_witness:
  "call (demo_remote\<lparr>rm_token := ''guess''\<rparr>) POST ''/v1/promote'' []
      (JObj [(''group'', JStr ''g''), (''version_id'', JInt 1)]) demo_proposed =
    (Inl (PermissionError ''bad token''), demo_proposed)"
  by (rule wrong_token_refused [THEN conjunct2, of
        "\<lparr>q_verb = GET, q_path = ''/v1/desired'', q_query = [], q_auth = None, q_body = JNull\<rparr>" "''secret''"])
    (simp_all add: trusted_def demo_remote_def)

text \<open>
  C15. A replica's daemon runs over the network unchanged. With the right token and names that
  are not blank, as long as its target can be read, a tick over the client of the server is the
  tick over the store: same result, same status written, same calls to the engine.
\<close>

theorem daemon_over_network:
  assumes "trusted rm" and "rc_api c = local_store" and "rc_replica c \<noteq> []" and "rc_group c \<noteq> []"
    and "local_target (w_store w) (rc_replica c) (rc_group c) = Inr d"
  shows "tick (over_network rm c) w = tick c w"
proof -
  have "desired_for (rc_replica c) (rc_group c) (w_store w) = (Inr d, w_store w)"
    using assms(5) desired_for_eq [of "rc_replica c" "rc_group c" "w_store w"] by (simp add: local_target_def)
  then have "on_store (remote_desired_for rm (rc_replica c) (rc_group c)) w =
      on_store (desired_for (rc_replica c) (rc_group c)) w"
    using assms(1,3,4) by (simp add: on_store_def remote_desired_for_local over_wire_def)
  moreover have "on_store (desired_for (rc_replica c) (rc_group c)) w = (Inr d, w)"
    using \<open>desired_for _ _ _ = _\<close> by (simp add: on_store_def)
  ultimately show ?thesis
    using assms(1,2)
    by (cases d) (simp_all add: tick_def remote_store_def [THEN arg_cong [where f = api_desired_for], simplified]
        local_store_def [THEN arg_cong [where f = api_desired_for], simplified]
        report_over_network [OF assms(1,2)] apply_version_over_network [OF assms(1,2)])
qed

theorem daemon_over_network_witness:
  "tick (over_network demo_remote (replica_on (sglang_adapter (mock_http Fin demo_text) demo_text) demo_manifest
      ''r0'' ''g'' demo_text)) (demo_world ''sglang'') =
   tick (replica_on (sglang_adapter (mock_http Fin demo_text) demo_text) demo_manifest ''r0'' ''g'' demo_text)
      (demo_world ''sglang'')"
  by (rule daemon_over_network [OF demo_trusted]) (simp_all add: demo_target)

end
