(* ===== verification/Supervisor.thy ===== *)
theory Supervisor
  imports Reconciler
begin

text \<open>
  The supervisor (\<open>trimtab/supervisor.py\<close>): it owns one engine process and converges it on the
  desired version, through the adapter for hot fields, through a warm reinit where the adapter
  has one, and by a relaunch otherwise. The operating system is an argument, the record \<open>host\<close>:
  starting, polling and ending the process, the health check, the clock and the sleep. The wait
  for health is a loop with fuel, and \<open>Diverged\<close> is its value when the fuel runs out.
\<close>

section \<open>Launch commands\<close>

definition cold_flags :: "string dict dict" where
  "cold_flags =
     [(''sglang'',
        [(''tp_size'', ''--tp''), (''ep_size'', ''--ep-size''), (''quantization'', ''--quantization''),
         (''kv_cache_dtype'', ''--kv-cache-dtype''), (''mem_fraction_static'', ''--mem-fraction-static''),
         (''max_total_num_tokens'', ''--max-total-tokens''), (''cuda_graph_max_bs'', ''--cuda-graph-max-bs''),
         (''attention_backend'', ''--attention-backend''), (''page_size'', ''--page-size''),
         (''speculative_algorithm'', ''--speculative-algorithm''),
         (''speculative_draft_model_path'', ''--speculative-draft-model-path'')]),
      (''vllm'',
        [(''tensor_parallel_size'', ''--tensor-parallel-size''), (''quantization'', ''--quantization''),
         (''kv_cache_dtype'', ''--kv-cache-dtype''), (''max_model_len'', ''--max-model-len''),
         (''cuda_graph_sizes'', ''--cuda-graph-sizes''), (''speculative_config'', ''--speculative-config'')]),
      (''mock'', [(''max_total_num_tokens'', ''--tokens''), (''tp_size'', ''--tp'')])]"

definition base_command :: "string \<Rightarrow> string \<Rightarrow> string \<Rightarrow> int \<Rightarrow> string \<Rightarrow> exn + string list" where
  "base_command python engine model port mock_engine =
     (if engine = ''sglang'' then
        Inr [''python3'', ''-m'', ''sglang.launch_server'', ''--model-path'', model, ''--host'', ''0.0.0.0'',
             ''--port'', show_int port, ''--enable-memory-saver'']
      else if engine = ''vllm'' then
        Inr [''vllm'', ''serve'', model, ''--served-model-name'', ''default'', ''--host'', ''0.0.0.0'',
             ''--port'', show_int port, ''--enable-sleep-mode'']
      else if engine = ''mock'' then
        Inr [python, ''-m'', ''trimtab.mock_engine'', ''--engine'', mock_engine, ''--port'', show_int port]
      else Inl (ValueError engine))"

definition unknown_cold :: "string dict \<Rightarrow> fields \<Rightarrow> string list" where
  "unknown_cold tab cold = sort (filter (\<lambda>k. map_of tab k = None) (keys cold))"

definition no_flag :: "string list \<Rightarrow> string \<Rightarrow> exn" where
  "no_flag unknown engine =
     ValueError (''no launch flag for cold fields '' @ repr_str_list unknown @ '' on '' @ engine)"

definition cold_args :: "float_text \<Rightarrow> string dict \<Rightarrow> fields \<Rightarrow> string list" where
  "cold_args fr tab cold =
     concat (map (\<lambda>(k, v). [case map_of tab k of None \<Rightarrow> [] | Some f \<Rightarrow> f, str_json fr v]) (sort_key fst cold))"

definition build_command ::
  "float_text \<Rightarrow> string \<Rightarrow> string \<Rightarrow> string \<Rightarrow> int \<Rightarrow> fields \<Rightarrow> string list \<Rightarrow> string \<Rightarrow> exn + string list" where
  "build_command fr python engine model port cold extra_flags mock_engine =
     (case map_of cold_flags engine of
        None \<Rightarrow> Inl (KeyError engine)
      | Some tab \<Rightarrow>
          if unknown_cold tab cold \<noteq> [] then Inl (no_flag (unknown_cold tab cold) engine)
          else (case base_command python engine model port mock_engine of
                  Inl e \<Rightarrow> Inl e
                | Inr base \<Rightarrow> Inr (base @ extra_flags @ cold_args fr tab cold)))"

section \<open>The host and the supervisor\<close>

text \<open>
  \<open>os_wait\<close> waits ten seconds for the process to end and tells whether it has; \<open>os_reap\<close> waits
  without a limit, after a kill.
\<close>

record 'e host =
  os_spawn :: "string list \<Rightarrow> ('e, unit) stmt"
  os_poll :: "('e, int option) stmt"
  os_terminate :: "('e, unit) stmt"
  os_wait :: "('e, bool) stmt"
  os_kill :: "('e, unit) stmt"
  os_reap :: "('e, unit) stmt"
  os_health :: "('e, bool) stmt"
  os_time :: "('e, pyfloat) stmt"
  os_sleep :: "pyfloat \<Rightarrow> ('e, unit) stmt"

record ('s, 'e) supervisor = "('s, 'e) world" +
  has_proc :: bool
  cold_applied :: "fields option"
  sup_applied :: "int option"
  last_reinit_s :: "pyfloat option"
  last_reinit_kind :: "string option"

record ('s, 'e) supervisor_config =
  sc_api :: "'s store_api"
  sc_manifest :: manifest
  sc_adapter :: "'e adapter"
  sc_host :: "'e host"
  sc_launcher :: string
  sc_adapter_engine :: string
  sc_model :: string
  sc_port :: int
  sc_replica :: string
  sc_group :: string
  sc_extra :: "string list"
  sc_health_timeout :: pyfloat
  sc_drain_s :: pyfloat
  sc_python :: string
  sc_rounding :: rounding
  sc_text :: float_text
  sc_3f :: float_text
  sc_fuel :: nat

definition init_supervisor :: "'s \<Rightarrow> 'e \<Rightarrow> ('s, 'e) supervisor" where
  "init_supervisor s e =
     \<lparr>w_store = s, w_engine = e, has_proc = False, cold_applied = None, sup_applied = None,
      last_reinit_s = None, last_reinit_kind = None\<rparr>"

definition is_cold_knob :: "manifest \<Rightarrow> string \<Rightarrow> bool" where
  "is_cold_knob m k =
     (case map_of (knobs m) k of None \<Rightarrow> False | Some kn \<Rightarrow> klass kn = COLD \<or> klass kn = WARM)"

definition split_fields :: "manifest \<Rightarrow> fields \<Rightarrow> fields \<times> fields" where
  "split_fields m flds =
     (filter (\<lambda>(k, v). \<not> is_cold_knob m k) flds, filter (\<lambda>(k, v). is_cold_knob m k) flds)"

definition sup_report ::
  "('s, 'e) supervisor_config \<Rightarrow> int option \<Rightarrow> string \<Rightarrow> string \<Rightarrow> (('s, 'e) supervisor, unit) stmt" where
  "sup_report c applied state detail =
     on_store (api_record_status (sc_api c) (sc_replica c) (sc_group c) applied state detail)"

definition alive :: "('s, 'e) supervisor_config \<Rightarrow> (('s, 'e) supervisor, bool) stmt" where
  "alive c w = (if \<not> has_proc w then (Inr False, w)
     else andthen (on_engine (os_poll (sc_host c))) (\<lambda>rc. ret (rc = None)) w)"

definition drop_proc :: "(('s, 'e) supervisor, unit) stmt" where
  "drop_proc w = (Inr (), w\<lparr>has_proc := False\<rparr>)"

definition end_process :: "('s, 'e) supervisor_config \<Rightarrow> (('s, 'e) supervisor, unit) stmt" where
  "end_process c =
     andthen (if f_eq (sc_drain_s c) (Fin 0) then ret () else on_engine (os_sleep (sc_host c) (sc_drain_s c))) (\<lambda>_.
     andthen (on_engine (os_terminate (sc_host c))) (\<lambda>_.
     andthen (on_engine (os_wait (sc_host c))) (\<lambda>ended.
     if ended then ret ()
     else andthen (on_engine (os_kill (sc_host c))) (\<lambda>_. on_engine (os_reap (sc_host c))))))"

definition stop :: "('s, 'e) supervisor_config \<Rightarrow> (('s, 'e) supervisor, unit) stmt" where
  "stop c =
     andthen (alive c) (\<lambda>a.
     andthen (if a then end_process c else ret ()) (\<lambda>_. drop_proc))"

definition boot_exit :: "int \<Rightarrow> string list \<Rightarrow> exn" where
  "boot_exit rc cmd = RuntimeError (''engine exited with '' @ show_int rc @ '' during boot, cmd='' @ repr_str_list cmd)"

definition boot_timeout :: exn where
  "boot_timeout = RuntimeError ''engine did not become healthy in time''"

definition poll_gap :: "('s, 'e) supervisor_config \<Rightarrow> pyfloat" where
  "poll_gap c = (if sc_launcher c = ''mock'' then sc_rounding c (1 / 20) else Fin 2)"

text \<open>The wait for health in \<open>launch\<close>; \<open>n\<close> is the fuel.\<close>

fun await_health ::
  "('s, 'e) supervisor_config \<Rightarrow> string list \<Rightarrow> pyfloat \<Rightarrow> nat \<Rightarrow> (('s, 'e) supervisor, unit) stmt" where
  "await_health c cmd t0 n =
     andthen (on_engine (os_health (sc_host c))) (\<lambda>ok.
     if ok then ret ()
     else andthen (on_engine (os_poll (sc_host c))) (\<lambda>rc.
       case rc of
         Some code \<Rightarrow> raise (boot_exit code cmd)
       | None \<Rightarrow>
           andthen (on_engine (os_time (sc_host c))) (\<lambda>t.
           if f_lt (sc_health_timeout c) (f_sub (sc_rounding c) t t0)
           then andthen (stop c) (\<lambda>_. raise boot_timeout)
           else andthen (on_engine (os_sleep (sc_host c) (poll_gap c))) (\<lambda>_.
             case n of 0 \<Rightarrow> raise Diverged | Suc m \<Rightarrow> await_health c cmd t0 m))))"

declare await_health.simps [simp del]

definition hold_proc :: "(('s, 'e) supervisor, unit) stmt" where
  "hold_proc w = (Inr (), w\<lparr>has_proc := True\<rparr>)"

definition set_cold :: "fields \<Rightarrow> (('s, 'e) supervisor, unit) stmt" where
  "set_cold cold w = (Inr (), w\<lparr>cold_applied := Some cold\<rparr>)"

definition elapsed :: "('s, 'e) supervisor_config \<Rightarrow> pyfloat \<Rightarrow> (('s, 'e) supervisor, pyfloat) stmt" where
  "elapsed c t0 = andthen (on_engine (os_time (sc_host c))) (\<lambda>t. ret (f_sub (sc_rounding c) t t0))"

definition launch :: "('s, 'e) supervisor_config \<Rightarrow> fields \<Rightarrow> (('s, 'e) supervisor, pyfloat) stmt" where
  "launch c cold =
     andthen (of_result (build_command (sc_text c) (sc_python c) (sc_launcher c) (sc_model c) (sc_port c) cold
       (sc_extra c) (sc_adapter_engine c))) (\<lambda>cmd.
     andthen (on_engine (os_time (sc_host c))) (\<lambda>t0.
     andthen (on_engine (os_spawn (sc_host c) cmd)) (\<lambda>_.
     andthen hold_proc (\<lambda>_.
     andthen (await_health c cmd t0 (sc_fuel c)) (\<lambda>_.
     andthen (set_cold cold) (\<lambda>_.
     elapsed c t0))))))"

section \<open>The tick\<close>

definition cold_now :: "('s, 'e) supervisor \<Rightarrow> fields" where
  "cold_now w = (case cold_applied w of None \<Rightarrow> [] | Some d \<Rightarrow> d)"

definition changed_cold :: "fields \<Rightarrow> fields \<Rightarrow> fields" where
  "changed_cold now cold = filter (\<lambda>(k, v). \<not> py_eq (dget k now) v) cold"

definition removed_cold :: "fields \<Rightarrow> fields \<Rightarrow> string list" where
  "removed_cold now cold = filter (\<lambda>k. k \<notin> set (keys cold)) (keys now)"

definition engine_name :: "string \<Rightarrow> string" where
  "engine_name k = (if k = ''max_total_num_tokens'' then ''max_total_tokens'' else k)"

definition engine_names :: "fields \<Rightarrow> fields" where
  "engine_names changed = dict_update [] (map (\<lambda>(k, v). (engine_name k, v)) changed)"

definition note_reinit :: "pyfloat \<Rightarrow> string \<Rightarrow> (('s, 'e) supervisor, unit) stmt" where
  "note_reinit t kind w = (Inr (), w\<lparr>last_reinit_s := Some t, last_reinit_kind := Some kind\<rparr>)"

definition set_sup_applied :: "int \<Rightarrow> (('s, 'e) supervisor, unit) stmt" where
  "set_sup_applied i w = (Inr (), w\<lparr>sup_applied := Some i\<rparr>)"

definition warm_reinit :: "('s, 'e) supervisor_config \<Rightarrow> fields \<Rightarrow> fields \<Rightarrow> (('s, 'e) supervisor, unit) stmt" where
  "warm_reinit c cold changed w =
     andthen (sup_report c (sup_applied w) ''reinit'' (''warm reinit '' @ repr_str_list (sort (keys changed)))) (\<lambda>_.
     andthen (on_engine (os_time (sc_host c))) (\<lambda>t0.
     andthen (on_engine (a_reinit_warm (sc_adapter c) (engine_names changed))) (\<lambda>r.
     if r_ok r
     then andthen (set_cold cold) (\<lambda>_. andthen (elapsed c t0) (\<lambda>t. note_reinit t ''warm''))
     else sup_report c (sup_applied w) ''reinit''
       (''warm refused '' @ repr_dict (sc_text c) (r_rejected r) @ '', relaunching'')))) w"

definition relaunch :: "('s, 'e) supervisor_config \<Rightarrow> fields \<Rightarrow> (('s, 'e) supervisor, unit) stmt" where
  "relaunch c cold w =
     andthen (sup_report c (sup_applied w) ''reinit'' (''relaunch for '' @ repr_str_list (sort (keys cold)))) (\<lambda>_.
     andthen (stop c) (\<lambda>_.
     andthen (launch c cold) (\<lambda>t. note_reinit t ''relaunch''))) w"

definition can_warm :: "('s, 'e) supervisor_config \<Rightarrow> fields \<Rightarrow> fields \<Rightarrow> bool" where
  "can_warm c now cold \<longleftrightarrow>
     (let changed = changed_cold now cold in
      changed \<noteq> [] \<and> removed_cold now cold = [] \<and>
      set (keys (engine_names changed)) \<subseteq> set (a_warm (sc_adapter c)))"

definition cold_step :: "('s, 'e) supervisor_config \<Rightarrow> fields \<Rightarrow> (('s, 'e) supervisor, unit) stmt" where
  "cold_step c cold =
     andthen (alive c) (\<lambda>a w.
     if a \<and> dict_eq cold (cold_now w) then ret () w
     else andthen (alive c) (\<lambda>a w.
       andthen (if a \<and> can_warm c (cold_now w) cold then warm_reinit c cold (changed_cold (cold_now w) cold) else ret ())
         (\<lambda>_ w.
            if \<not> dict_eq cold (cold_now w) then relaunch c cold w
            else andthen (alive c) (\<lambda>a. if a then ret () else relaunch c cold) w) w) w)"

definition hot_step :: "('s, 'e) supervisor_config \<Rightarrow> fields \<Rightarrow> (('s, 'e) supervisor, bool) stmt" where
  "hot_step c hot w =
     (if hot = [] then (Inr True, w)
      else let (accepted, rejected) = validate (sc_text c) (sc_manifest c) hot in
        if rejected \<noteq> []
        then andthen (sup_report c (sup_applied w) ''failed'' (''manifest rejected '' @ repr_str_dict rejected))
          (\<lambda>_. ret False) w
        else andthen (on_engine (a_set_hot (sc_adapter c) accepted)) (\<lambda>r.
          if r_ok r then ret True
          else andthen (sup_report c (sup_applied w) ''failed''
              (''engine rejected '' @ repr_dict (sc_text c) (r_rejected r))) (\<lambda>_. ret False)) w)"

definition reinit_detail :: "('s, 'e) supervisor_config \<Rightarrow> ('s, 'e) supervisor \<Rightarrow> string" where
  "reinit_detail c w =
     (case last_reinit_s w of
        None \<Rightarrow> []
      | Some t \<Rightarrow> ''reinit_s='' @ sc_3f c t @ '' kind='' @
          (case last_reinit_kind w of None \<Rightarrow> ''None'' | Some k \<Rightarrow> k))"

definition sup_apply :: "('s, 'e) supervisor_config \<Rightarrow> config_version \<Rightarrow> (('s, 'e) supervisor, string) stmt" where
  "sup_apply c v =
     (case split_fields (sc_manifest c) (cv_fields v) of (hot, cold) \<Rightarrow>
      andthen (cold_step c cold) (\<lambda>_.
      andthen (hot_step c hot) (\<lambda>ok.
      if \<not> ok then ret ''failed''
      else andthen (set_sup_applied (cv_id v)) (\<lambda>_ w.
        andthen (sup_report c (Some (cv_id v)) ''healthy'' (reinit_detail c w)) (\<lambda>_. ret ''healthy'') w))))"

definition sup_tick :: "('s, 'e) supervisor_config \<Rightarrow> (('s, 'e) supervisor, string) stmt" where
  "sup_tick c =
     andthen (on_store (api_desired_for (sc_api c) (sc_replica c) (sc_group c))) (\<lambda>d.
     case d of
       None \<Rightarrow>
         andthen (alive c) (\<lambda>a.
         andthen (\<lambda>w. if a then (Inr (), w) else andthen (launch c (cold_now w)) (\<lambda>_. ret ()) w) (\<lambda>_.
         andthen (sup_report c None ''healthy'' []) (\<lambda>_. ret ''healthy'')))
     | Some v \<Rightarrow> \<lambda>w.
         if sup_applied w = Some (cv_id v) then
           andthen (alive c) (\<lambda>a.
             if a then andthen (sup_report c (Some (cv_id v)) ''healthy'' []) (\<lambda>_. ret ''healthy'')
             else sup_apply c v) w
         else sup_apply c v w)"

text \<open>\<open>run\<close> ends, by the stop event or an exception, with the engine stopped.\<close>

fun run_supervisor :: "nat \<Rightarrow> ('s, 'e) supervisor_config \<Rightarrow> (('s, 'e) supervisor, string list) stmt" where
  "run_supervisor 0 c = ret []"
| "run_supervisor (Suc n) c = andthen (sup_tick c) (\<lambda>r. andthen (run_supervisor n c) (\<lambda>rs. ret (r # rs)))"

definition sup_run :: "nat \<Rightarrow> ('s, 'e) supervisor_config \<Rightarrow> (('s, 'e) supervisor, string list) stmt" where
  "sup_run n c w =
     (case run_supervisor n c w of (r, w') \<Rightarrow>
      case stop c w' of (Inl e, w'') \<Rightarrow> (Inl e, w'') | (Inr _, w'') \<Rightarrow> (r, w''))"

end
