(* ===== verification/Supervisor_Facts.thy ===== *)
theory Supervisor_Facts
  imports Supervisor Local_Store
begin

text \<open>
  What the supervisor guarantees: the launch command carries every cold field under its own flag,
  the wait for health ends, a version is reported healthy only on an engine running its cold
  fields, a hot change never touches the process, and the process does not outlive the loop.
\<close>

section \<open>Flags\<close>

text \<open>Reading a list of flags and values back.\<close>

fun flag_pairs :: "string list \<Rightarrow> string dict" where
  "flag_pairs (f # v # rest) = (f, v) # flag_pairs rest"
| "flag_pairs _ = []"

lemma flag_pairs_concat: "flag_pairs (concat (map (\<lambda>p. [f p, g p]) ps)) = map (\<lambda>p. (f p, g p)) ps"
  by (induction ps) simp_all

definition flags_injective :: "string dict \<Rightarrow> bool" where
  "flags_injective tab \<longleftrightarrow> distinct (keys tab) \<and> distinct (map snd tab)"

lemma cold_flags_injective: "list_all (\<lambda>(e, tab). flags_injective tab) cold_flags"
  by code_simp

lemma injective_map_of:
  assumes "flags_injective tab" and "map_of tab k = Some f" and "map_of tab k' = Some f"
  shows "k = k'"
proof -
  have "(k, f) \<in> set tab" "(k', f) \<in> set tab" using assms(2,3) by (auto dest: map_of_SomeD)
  moreover have "inj_on snd (set tab)" using assms(1) by (simp add: flags_injective_def distinct_map)
  ultimately show ?thesis by (metis inj_onD prod.inject snd_conv)
qed

lemma map_of_injective_keys:
  assumes "inj_on f (set (keys d))" and "k \<in> set (keys d)"
  shows "map_of (map (\<lambda>p. (f (fst p), g p)) d) (f k) = (case map_of d k of None \<Rightarrow> None | Some v \<Rightarrow> Some (g (k, v)))"
  using assms
proof (induction d)
  case (Cons p d)
  obtain k0 v0 where p: "p = (k0, v0)" by (cases p)
  show ?case
  proof (cases "k = k0")
    case False
    then have "f k \<noteq> f k0" using Cons.prems p inj_onD [of f "set (keys (p # d))" k k0] by auto
    then show ?thesis using Cons p False by (auto simp: inj_on_def)
  qed (simp add: p)
qed simp

definition flag_of :: "string dict \<Rightarrow> string \<Rightarrow> string" where
  "flag_of tab k = (case map_of tab k of None \<Rightarrow> [] | Some f \<Rightarrow> f)"

lemma cold_args_pairs: "flag_pairs (cold_args fr tab cold) =
    map (\<lambda>p. (flag_of tab (fst p), str_json fr (snd p))) (sort_key fst cold)"
  using flag_pairs_concat [of "\<lambda>p. flag_of tab (fst p)" "\<lambda>p. str_json fr (snd p)" "sort_key fst cold"]
  by (simp add: cold_args_def flag_of_def case_prod_beta')

lemma length_pairs: "length (concat (map (\<lambda>(k, v). [f k, g v]) xs)) = 2 * length xs"
  by (induction xs) auto

lemma length_cold_args: "length (cold_args fr tab cold) = 2 * length cold"
  unfolding cold_args_def length_pairs by simp

lemma keys_sorted: "set (keys (sort_key fst d)) = set (keys d)"
  by (simp add: keys_def)

lemma wf_sorted: "wf_dict d \<Longrightarrow> wf_dict (sort_key fst d)"
proof -
  have "mset (map fst (sort_key fst d)) = mset (map fst d)" by (metis mset_map mset_sort)
  then show "wf_dict d \<Longrightarrow> wf_dict (sort_key fst d)"
    by (metis keys_def mset_eq_imp_distinct_iff wf_dict_def)
qed

lemma map_of_sorted: "wf_dict d \<Longrightarrow> map_of (sort_key fst d) k = map_of d k"
  using wf_sorted [of d] map_of_inject_set [of "sort_key fst d" d] by (simp add: wf_dict_def keys_def)

lemma unknown_cold_empty: "unknown_cold tab cold = [] \<longleftrightarrow> (\<forall>k \<in> set (keys cold). map_of tab k \<noteq> None)"
  unfolding unknown_cold_def by (metis (mono_tags, lifting) filter_empty_conv set_empty set_sort)

lemma cold_args_lookup:
  assumes "flags_injective tab" and "wf_dict cold" and "unknown_cold tab cold = []"
    and "map_of tab k = Some f"
  shows "map_of (flag_pairs (cold_args fr tab cold)) f = map_option (str_json fr) (map_of cold k)"
proof -
  have inj: "inj_on (flag_of tab) (set (keys (sort_key fst cold)))"
    using injective_map_of [OF assms(1)] assms(3)
    by (auto simp: inj_on_def flag_of_def unknown_cold_empty keys_sorted split: option.splits)
  have f: "flag_of tab k = f" using assms(4) by (simp add: flag_of_def)
  show ?thesis
  proof (cases "k \<in> set (keys cold)")
    case True
    then show ?thesis
      using map_of_injective_keys [OF inj, of k "\<lambda>p. str_json fr (snd p)"] f
      by (simp add: cold_args_pairs keys_sorted map_of_sorted [OF assms(2)] split: option.split)
  next
    case False
    have "f \<notin> set (keys (flag_pairs (cold_args fr tab cold)))"
    proof
      assume "f \<in> set (keys (flag_pairs (cold_args fr tab cold)))"
      then obtain k' where k': "k' \<in> set (keys cold)" "flag_of tab k' = f"
        by (auto simp: cold_args_pairs keys_def)
      then have "map_of tab k' = Some f"
        using assms(3) by (auto simp: flag_of_def unknown_cold_empty split: option.splits)
      with assms(1,4) k' False show False using injective_map_of by blast
    qed
    moreover have "map_of cold k = None" using False by (simp add: map_of_keys_None)
    ultimately show ?thesis by (metis map_of_keys_None option.map(1))
  qed
qed

text \<open>The commands of the three engines exist for every name that has a table of flags.\<close>

lemma base_command_known: "map_of cold_flags e = Some tab \<Longrightarrow> \<exists>base. base_command py e m p me = Inr base"
  by (auto simp: cold_flags_def base_command_def split: if_splits)

lemma engine_injective: "map_of cold_flags e = Some tab \<Longrightarrow> flags_injective tab"
  using cold_flags_injective by (auto simp: list_all_iff dest!: map_of_SomeD)

section \<open>The wait for health ends\<close>

text \<open>
  What the host's clock does: \<open>now\<close> reads it, no call turns it back, a sleep advances it by at
  least its argument, and no call of the host is a loop of the model without an end.
\<close>

definition timely :: "'e host \<Rightarrow> ('e \<Rightarrow> rat) \<Rightarrow> bool" where
  "timely h now \<longleftrightarrow>
     (\<forall>e. fst (os_time h e) = Inr (Fin (now e)) \<and> now e \<le> now (snd (os_time h e))) \<and>
     (\<forall>e. now e \<le> now (snd (os_health h e)) \<and> fst (os_health h e) \<noteq> Inl Diverged) \<and>
     (\<forall>e. now e \<le> now (snd (os_poll h e)) \<and> fst (os_poll h e) \<noteq> Inl Diverged) \<and>
     (\<forall>e q. now e + q \<le> now (snd (os_sleep h (Fin q) e)) \<and> fst (os_sleep h (Fin q) e) \<noteq> Inl Diverged) \<and>
     (\<forall>e x. fst (os_sleep h x e) \<noteq> Inl Diverged) \<and>
     (\<forall>e. fst (os_terminate h e) \<noteq> Inl Diverged \<and> fst (os_wait h e) \<noteq> Inl Diverged \<and>
       fst (os_kill h e) \<noteq> Inl Diverged \<and> fst (os_reap h e) \<noteq> Inl Diverged) \<and>
     (\<forall>e cmd. fst (os_spawn h cmd e) \<noteq> Inl Diverged \<and> now e \<le> now (snd (os_spawn h cmd e)))"

text \<open>A statement whose fuel does not run out.\<close>

definition ends :: "('s, 'a) stmt \<Rightarrow> bool" where
  "ends m \<longleftrightarrow> (\<forall>s. fst (m s) \<noteq> Inl Diverged)"

lemma ends_andthen: "ends m \<Longrightarrow> (\<And>x. ends (f x)) \<Longrightarrow> ends (andthen m f)"
  by (auto simp: ends_def andthen_def split: prod.split sum.split) (metis fst_conv)

lemma ends_ret [simp]: "ends (ret x)" "ends (raise e) \<longleftrightarrow> e \<noteq> Diverged"
  by (simp_all add: ends_def)

lemma ends_on_engine: "ends m \<Longrightarrow> ends (on_engine m)"
  by (auto simp: ends_def on_engine_def split: prod.split) (metis fst_conv)

lemma ends_alive:
  fixes c :: "('s, 'e) supervisor_config"
  assumes t: "timely (sc_host c) now"
  shows "ends (alive c)"
proof -
  have "ends (andthen (on_engine (os_poll (sc_host c))) (\<lambda>rc. ret (rc = None)) ::
      (('s, 'e) supervisor, bool) stmt)"
    using t by (intro ends_andthen ends_on_engine) (simp_all add: timely_def ends_def)
  then show ?thesis by (simp add: ends_def alive_def)
qed

lemma ends_stop:
  assumes "timely (sc_host c) now"
  shows "ends (stop c)"
proof -
  have "ends (end_process c)"
    unfolding end_process_def
    by (intro ends_andthen) (use assms in \<open>auto intro!: ends_andthen ends_on_engine simp: timely_def ends_def [of "os_terminate _"]
      ends_def [of "os_wait _"] ends_def [of "os_kill _"] ends_def [of "os_reap _"] ends_def [of "os_sleep _ _"]\<close>)
  moreover have "ends drop_proc" by (simp add: ends_def drop_proc_def)
  ultimately show ?thesis
    unfolding stop_def using ends_alive [OF assms] by (auto intro!: ends_andthen)
qed

lemma on_engine_result: "fst (on_engine m w) = fst (m (w_engine w)) \<and> w_engine (snd (on_engine m w)) = snd (m (w_engine w))"
  by (simp add: on_engine_def split: prod.split)

lemma andthen_fst:
  "(fst (m s) \<noteq> Inl e) \<Longrightarrow> (\<And>x. m s = (Inr x, snd (m s)) \<Longrightarrow> fst (f x (snd (m s))) \<noteq> Inl e) \<Longrightarrow>
   fst (andthen m f s) \<noteq> Inl e"
  by (auto simp: andthen_def split: prod.splits sum.splits)

lemma await_health_step:
  assumes t: "timely (sc_host c) now" and limit: "sc_health_timeout c = Fin limit" and gap: "poll_gap c = Fin gap"
    and rnd: "\<And>x. limit + 1 < x \<Longrightarrow> f_lt (Fin limit) (sc_rounding c x)"
    and last: "n = 0 \<Longrightarrow> start + limit + 1 < now (w_engine w)"
    and more: "\<And>m w'. n = Suc m \<Longrightarrow> now (w_engine w) + gap \<le> now (w_engine w') \<Longrightarrow>
      fst (await_health c cmd (Fin start) m w') \<noteq> Inl Diverged"
  shows "fst (await_health c cmd (Fin start) n w) \<noteq> Inl Diverged"
  unfolding await_health.simps [of _ _ _ n]
proof (rule andthen_fst, goal_cases)
  case 1
  then show ?case using t by (simp add: on_engine_result timely_def)
next
  case (2 ok)
  let ?w1 = "snd (on_engine (os_health (sc_host c)) w)"
  have n1: "now (w_engine w) \<le> now (w_engine ?w1)" using t by (simp add: on_engine_result timely_def)
  have "fst (andthen (on_engine (os_poll (sc_host c))) (\<lambda>rc. case rc of
       Some code \<Rightarrow> raise (boot_exit code cmd)
     | None \<Rightarrow> andthen (on_engine (os_time (sc_host c))) (\<lambda>t.
         if f_lt (sc_health_timeout c) (f_sub (sc_rounding c) t (Fin start))
         then andthen (stop c) (\<lambda>_. raise boot_timeout)
         else andthen (on_engine (os_sleep (sc_host c) (poll_gap c))) (\<lambda>_.
           case n of 0 \<Rightarrow> raise Diverged | Suc m \<Rightarrow> await_health c cmd (Fin start) m))) ?w1) \<noteq> Inl Diverged"
  proof (rule andthen_fst, goal_cases)
    case 1
    then show ?case using t by (simp add: on_engine_result timely_def)
  next
    case (2 rc)
    let ?w2 = "snd (on_engine (os_poll (sc_host c)) ?w1)"
    have n2: "now (w_engine w) \<le> now (w_engine ?w2)"
      using t n1 by (simp add: on_engine_result timely_def) (meson order_trans)
    have "fst (andthen (on_engine (os_time (sc_host c))) (\<lambda>t.
         if f_lt (sc_health_timeout c) (f_sub (sc_rounding c) t (Fin start))
         then andthen (stop c) (\<lambda>_. raise boot_timeout)
         else andthen (on_engine (os_sleep (sc_host c) (poll_gap c))) (\<lambda>_.
           case n of 0 \<Rightarrow> raise Diverged | Suc m \<Rightarrow> await_health c cmd (Fin start) m)) ?w2) \<noteq> Inl Diverged"
    proof (rule andthen_fst, goal_cases)
      case 1
      then show ?case using t by (simp add: on_engine_result timely_def)
    next
      case (2 x)
      let ?w3 = "snd (on_engine (os_time (sc_host c)) ?w2)"
      have x: "x = Fin (now (w_engine ?w2))"
        using 2 on_engine_result [of "os_time (sc_host c)" ?w2] t by (simp add: timely_def) (metis Inr_inject fst_conv)
      have n3: "now (w_engine w) \<le> now (w_engine ?w3)"
        using t n2 by (simp add: on_engine_result timely_def) (meson order_trans)
      show ?case
      proof (cases "f_lt (sc_health_timeout c) (f_sub (sc_rounding c) x (Fin start))")
        case True
        have "ends (andthen (stop c) (\<lambda>_. raise boot_timeout :: (_, unit) stmt))"
          using ends_stop [OF t] by (intro ends_andthen) (simp_all add: boot_timeout_def)
        then show ?thesis using True by (simp add: ends_def)
      next
        case False
        then have "\<not> limit + 1 < now (w_engine ?w2) - start"
          using rnd limit x by (auto simp: f_sub_def)
        then have "n \<noteq> 0" using last n2 by linarith
        then obtain m where m: "n = Suc m" by (cases n) auto
        have "fst (andthen (on_engine (os_sleep (sc_host c) (poll_gap c)))
            (\<lambda>_. await_health c cmd (Fin start) m) ?w3) \<noteq> Inl Diverged"
        proof (rule andthen_fst, goal_cases)
          case 1
          then show ?case using t gap by (simp add: on_engine_result timely_def)
        next
          case (2 y)
          have "now (w_engine ?w3) + gap \<le> now (w_engine (snd (on_engine (os_sleep (sc_host c) (poll_gap c)) ?w3)))"
            using t gap by (simp add: on_engine_result timely_def)
          then show ?case using more [OF m] n3 by simp
        qed
        then show ?thesis using False m by simp
      qed
    qed
    then show ?case by (cases rc) (simp_all add: boot_exit_def)
  qed
  then show ?case by simp
qed

lemma await_health_ends:
  assumes "timely (sc_host c) now" and "sc_health_timeout c = Fin limit" and "poll_gap c = Fin gap"
    and "\<And>x. limit + 1 < x \<Longrightarrow> f_lt (Fin limit) (sc_rounding c x)"
  shows "start + limit + 1 < now (w_engine w) + of_nat n * gap \<Longrightarrow>
    fst (await_health c cmd (Fin start) n w) \<noteq> Inl Diverged"
proof (induction n arbitrary: w)
  case (0 w)
  then show ?case by (rule_tac await_health_step [OF assms]) simp_all
next
  case (Suc n)
  have "fst (await_health c cmd (Fin start) m w') \<noteq> Inl Diverged"
    if "Suc n = Suc m" and "now (w_engine w) + gap \<le> now (w_engine w')" for m w'
    using Suc.IH [of w'] Suc.prems that by (auto simp: algebra_simps)
  then show ?case by (rule_tac await_health_step [OF assms]) auto
qed

lemma launch_ends:
  assumes t: "timely (sc_host c) now" and limit: "sc_health_timeout c = Fin limit" and gap: "poll_gap c = Fin gap"
    and rnd: "\<And>x. limit + 1 < x \<Longrightarrow> f_lt (Fin limit) (sc_rounding c x)"
    and fuel: "limit + 1 < of_nat (sc_fuel c) * gap"
  shows "fst (launch c cold w) \<noteq> Inl Diverged"
  unfolding launch_def
proof (rule andthen_fst, goal_cases)
  case 1
  then show ?case
    by (auto simp: build_command_def no_flag_def base_command_def split: option.split sum.split)
next
  case (2 cmd)
  let ?w0 = "snd (of_result (build_command (sc_text c) (sc_python c) (sc_launcher c) (sc_model c) (sc_port c) cold
       (sc_extra c) (sc_adapter_engine c)) w)"
  show ?case
  proof (rule andthen_fst, goal_cases)
    case 1
    then show ?case using t by (simp add: on_engine_result timely_def)
  next
    case (2 x)
    let ?w1 = "snd (on_engine (os_time (sc_host c)) ?w0)"
    have x: "x = Fin (now (w_engine ?w0))"
      using 2 on_engine_result [of "os_time (sc_host c)" ?w0] t by (simp add: timely_def) (metis Inr_inject fst_conv)
    have n1: "now (w_engine ?w0) \<le> now (w_engine ?w1)" using t by (simp add: on_engine_result timely_def)
    show ?case
    proof (rule andthen_fst, goal_cases)
      case 1
      then show ?case using t by (simp add: on_engine_result timely_def)
    next
      case (2 y)
      let ?w2 = "snd (on_engine (os_spawn (sc_host c) cmd) ?w1)"
      have "now (w_engine ?w1) \<le> now (w_engine ?w2)" using t by (simp add: on_engine_result timely_def)
      with n1 have start: "now (w_engine ?w0) + limit + 1 < now (w_engine (?w2\<lparr>has_proc := True\<rparr>)) + of_nat (sc_fuel c) * gap"
        using fuel by simp
      have "fst (andthen (await_health c cmd x (sc_fuel c)) (\<lambda>_. andthen (set_cold cold) (\<lambda>_. elapsed c x))
          (?w2\<lparr>has_proc := True\<rparr>)) \<noteq> Inl Diverged"
      proof (rule andthen_fst, goal_cases)
        case 1
        show ?case unfolding x by (rule await_health_ends [OF t limit gap rnd start])
      next
        case 2
        have "ends (elapsed c x)"
          unfolding elapsed_def
          using t by (intro ends_andthen ends_on_engine ends_ret) (simp add: timely_def ends_def)
        then show ?case by (simp add: set_cold_def ends_def andthen_def)
      qed
      then show ?case by (simp add: hold_proc_def andthen_def)
    qed
  qed
qed

section \<open>What a step leaves of the supervisor's memory\<close>

definition same_memory :: "('s, 'e) supervisor \<Rightarrow> ('s, 'e) supervisor \<Rightarrow> bool" where
  "same_memory w w' \<longleftrightarrow>
     has_proc w' = has_proc w \<and> cold_applied w' = cold_applied w \<and> sup_applied w' = sup_applied w"

lemma same_memory_refl [simp]: "same_memory w w"
  by (simp add: same_memory_def)

lemma same_memory_trans: "same_memory u v \<Longrightarrow> same_memory v w \<Longrightarrow> same_memory u w"
  by (simp add: same_memory_def)

lemma same_on_engine: "same_memory w (snd (on_engine m w))"
  by (simp add: same_memory_def on_engine_def split: prod.split)

lemma same_on_store: "same_memory w (snd (on_store m w))"
  by (simp add: same_memory_def on_store_def split: prod.split)

lemma same_report: "same_memory w (snd (sup_report c a st d w))"
  by (simp add: sup_report_def same_on_store)

lemma same_andthen:
  "(\<And>w. same_memory w (snd (m w))) \<Longrightarrow> (\<And>x w. same_memory w (snd (f x w))) \<Longrightarrow> same_memory w (snd (andthen m f w))"
  by (rule andthen_keeps) (auto intro: same_memory_trans)

lemma same_alive: "same_memory w (snd (alive c w))"
  unfolding alive_def by (simp add: same_andthen same_on_engine)

lemma alive_proc: "alive c w = (Inr True, w') \<Longrightarrow> has_proc w \<and> same_memory w w'"
  using same_alive [of w c] by (auto simp: alive_def split: if_splits)

text \<open>A statement that, when it returns, has kept the memory; raising is allowed anything.\<close>

definition okeeps :: "(('s, 'e) supervisor, 'a) stmt \<Rightarrow> bool" where
  "okeeps m \<longleftrightarrow> (\<forall>w x w'. m w = (Inr x, w') \<longrightarrow> same_memory w w')"

lemma okeepsD: "okeeps m \<Longrightarrow> m w = (Inr x, w') \<Longrightarrow> same_memory w w'"
  by (auto simp: okeeps_def)

lemma okeeps_andthen: "okeeps m \<Longrightarrow> (\<And>x. okeeps (f x)) \<Longrightarrow> okeeps (andthen m f)"
  unfolding okeeps_def by (blast elim: andthen_InrE intro: same_memory_trans)

lemma okeeps_snd: "(\<And>w. same_memory w (snd (m w))) \<Longrightarrow> okeeps m"
  unfolding okeeps_def by (metis snd_conv)

lemma okeeps_basic [simp]:
  "okeeps (ret x)" "okeeps (raise e)" "okeeps (on_engine m')" "okeeps (on_store m'')" "okeeps (sup_report c a st d)"
  "okeeps (alive c)" "okeeps (elapsed c t)" "okeeps (andthen m (\<lambda>_. raise e))"
proof -
  show "okeeps (elapsed c t)"
    unfolding elapsed_def by (intro okeeps_andthen okeeps_snd same_on_engine) simp
  show "okeeps (andthen m (\<lambda>_. raise e))"
    by (auto simp: okeeps_def andthen_def split: prod.splits sum.splits)
  show "okeeps (raise e)" by (simp add: okeeps_def)
  show "okeeps (ret x)" by (simp add: okeeps_def)
qed (rule okeeps_snd, rule same_on_engine same_on_store same_report same_alive)+

lemma okeeps_await: "okeeps (await_health c cmd t0 n)"
proof (induction n)
  case 0
  show ?case
    unfolding await_health.simps [of _ _ _ 0] by (intro okeeps_andthen) (auto intro!: okeeps_andthen split: option.split)
next
  case (Suc n)
  show ?case
    unfolding await_health.simps [of _ _ _ "Suc n"]
    using Suc by (intro okeeps_andthen) (auto intro!: okeeps_andthen split: option.split)
qed

lemma launch_ok:
  assumes "launch c cold w = (Inr t, w')"
  shows "has_proc w' \<and> cold_applied w' = Some cold \<and> sup_applied w' = sup_applied w"
proof -
  obtain cmd t0 u1 u2 u3 u4 w0 w1 w2 w3 where
    s: "on_engine (os_time (sc_host c)) w = (Inr t0, w0)" "on_engine (os_spawn (sc_host c) cmd) w0 = (Inr u1, w1)"
    "await_health c cmd t0 (sc_fuel c) (w1\<lparr>has_proc := True\<rparr>) = (Inr u2, w2)"
    "elapsed c t0 (w2\<lparr>cold_applied := Some cold\<rparr>) = (Inr t, w')"
    using assms unfolding launch_def
    by (auto elim!: andthen_InrE simp: hold_proc_def set_cold_def)
  have "same_memory w w0" "same_memory w0 w1" "same_memory (w1\<lparr>has_proc := True\<rparr>) w2"
    "same_memory (w2\<lparr>cold_applied := Some cold\<rparr>) w'"
    using okeepsD [OF okeeps_basic(3) s(1)] okeepsD [OF okeeps_basic(3) s(2)] okeepsD [OF okeeps_await s(3)]
      okeepsD [OF okeeps_basic(7) s(4)] by simp_all
  then show ?thesis by (simp add: same_memory_def)
qed

lemma stop_ok:
  assumes "stop c w = (Inr u, w')"
  shows "\<not> has_proc w' \<and> cold_applied w' = cold_applied w \<and> sup_applied w' = sup_applied w"
proof -
  have "okeeps (end_process c)"
    unfolding end_process_def by (intro okeeps_andthen) (auto intro!: okeeps_andthen)
  then have "okeeps (andthen (alive c) (\<lambda>a. if a then end_process c else ret ()))"
    by (intro okeeps_andthen) auto
  note keeps = this
  obtain a v1 u2 v2 where s: "alive c w = (Inr a, v1)" "(if a then end_process c else ret ()) v1 = (Inr u2, v2)"
      "drop_proc v2 = (Inr u, w')"
    using assms unfolding stop_def by (elim andthen_InrE) blast
  then have "andthen (alive c) (\<lambda>a. if a then end_process c else ret ()) w = (Inr u2, v2)"
    by simp
  then have "same_memory w v2" by (rule okeepsD [OF keeps])
  moreover have "w' = v2\<lparr>has_proc := False\<rparr>" using s(3) by (simp add: drop_proc_def)
  ultimately show ?thesis by (simp add: same_memory_def)
qed

lemma relaunch_ok:
  assumes "relaunch c cold w = (Inr u, w')"
  shows "has_proc w' \<and> cold_applied w' = Some cold \<and> sup_applied w' = sup_applied w"
proof -
  obtain u1 u2 t w1 w2 w3 where
    s: "sup_report c (sup_applied w) ''reinit'' (''relaunch for '' @ repr_str_list (sort (keys cold))) w = (Inr u1, w1)"
    "stop c w1 = (Inr u2, w2)" "launch c cold w2 = (Inr t, w3)"
    "w' = w3\<lparr>last_reinit_s := Some t, last_reinit_kind := Some ''relaunch''\<rparr>"
    using assms unfolding relaunch_def by (elim andthen_InrE) (auto simp: note_reinit_def)
  show ?thesis
    using okeepsD [OF okeeps_basic(5) s(1)] stop_ok [OF s(2)] launch_ok [OF s(3)] s(4)
    by (simp add: same_memory_def)
qed

lemma warm_ok:
  assumes "warm_reinit c cold changed w = (Inr u, w')"
  shows "has_proc w' = has_proc w \<and> sup_applied w' = sup_applied w \<and>
    (cold_applied w' = cold_applied w \<or> cold_applied w' = Some cold)"
proof -
  obtain u1 t0 r w1 w2 w3 where
    s: "sup_report c (sup_applied w) ''reinit'' (''warm reinit '' @ repr_str_list (sort (keys changed))) w = (Inr u1, w1)"
    "on_engine (os_time (sc_host c)) w1 = (Inr t0, w2)"
    "on_engine (a_reinit_warm (sc_adapter c) (engine_names changed)) w2 = (Inr r, w3)"
    and last: "(if r_ok r
     then andthen (set_cold cold) (\<lambda>_. andthen (elapsed c t0) (\<lambda>t. note_reinit t ''warm''))
     else sup_report c (sup_applied w) ''reinit''
       (''warm refused '' @ repr_dict (sc_text c) (r_rejected r) @ '', relaunching'')) w3 = (Inr u, w')"
    using assms unfolding warm_reinit_def by (elim andthen_InrE) blast
  have m: "same_memory w w3"
    using okeepsD [OF okeeps_basic(5) s(1)] okeepsD [OF okeeps_basic(3) s(2)] okeepsD [OF okeeps_basic(3) s(3)]
    by (blast intro: same_memory_trans)
  show ?thesis
  proof (cases "r_ok r")
    case True
    then obtain t w4 where e: "elapsed c t0 (w3\<lparr>cold_applied := Some cold\<rparr>) = (Inr t, w4)"
        "w' = w4\<lparr>last_reinit_s := Some t, last_reinit_kind := Some ''warm''\<rparr>"
      using last by (auto elim!: andthen_InrE simp: set_cold_def note_reinit_def)
    then show ?thesis using m okeepsD [OF okeeps_basic(7) e(1)] by (simp add: same_memory_def)
  next
    case False
    then have "same_memory w3 w'" using last okeepsD [OF okeeps_basic(5)] by simp
    then show ?thesis using m by (simp add: same_memory_def)
  qed
qed

definition cold_in_force :: "fields \<Rightarrow> ('s, 'e) supervisor \<Rightarrow> bool" where
  "cold_in_force cold w \<longleftrightarrow> has_proc w \<and> (cold_now w = cold \<or> dict_eq cold (cold_now w))"

lemma cold_in_force_same: "same_memory w w' \<Longrightarrow> cold_in_force cold w' = cold_in_force cold w"
  by (simp add: cold_in_force_def same_memory_def cold_now_def)

lemma relaunch_in_force: "relaunch c cold w = (Inr u, w') \<Longrightarrow> cold_in_force cold w' \<and> sup_applied w' = sup_applied w"
  using relaunch_ok [of c cold w u w'] by (simp add: cold_in_force_def cold_now_def)

lemma alive_eq: "dict_eq cold (cold_now w) \<Longrightarrow> alive c w = (Inr True, w') \<Longrightarrow> cold_in_force cold w'"
  using alive_proc [of c w w'] by (simp add: cold_in_force_def same_memory_def cold_now_def)

lemma last_check_ok:
  assumes "(if \<not> dict_eq cold (cold_now w) then relaunch c cold w
            else andthen (alive c) (\<lambda>a. if a then ret () else relaunch c cold) w) = (Inr u, w')"
  shows "cold_in_force cold w' \<and> sup_applied w' = sup_applied w"
proof (cases "dict_eq cold (cold_now w)")
  case False
  then show ?thesis using assms relaunch_in_force by simp
next
  case True
  then obtain a w1 where a: "alive c w = (Inr a, w1)" "(if a then ret () else relaunch c cold) w1 = (Inr u, w')"
    using assms by (auto elim: andthen_InrE)
  have same: "same_memory w w1" using okeepsD [OF okeeps_basic(6) a(1)] .
  show ?thesis
  proof (cases a)
    case True
    then show ?thesis
      using a alive_eq [OF \<open>dict_eq _ _\<close>, of c w1] same by (simp add: same_memory_def)
  next
    case False
    then show ?thesis using a(2) relaunch_in_force [of c cold w1 u w'] same by (simp add: same_memory_def)
  qed
qed

lemma cold_step_ok:
  assumes "cold_step c cold w = (Inr u, w')"
  shows "cold_in_force cold w' \<and> sup_applied w' = sup_applied w"
proof -
  obtain a w1 where a: "alive c w = (Inr a, w1)" and rest: "(if a \<and> dict_eq cold (cold_now w1) then ret () w1
     else andthen (alive c) (\<lambda>a w.
       andthen (if a \<and> can_warm c (cold_now w) cold then warm_reinit c cold (changed_cold (cold_now w) cold) else ret ())
         (\<lambda>_ w.
            if \<not> dict_eq cold (cold_now w) then relaunch c cold w
            else andthen (alive c) (\<lambda>a. if a then ret () else relaunch c cold) w) w) w1) = (Inr u, w')"
    using assms unfolding cold_step_def by (elim andthen_InrE) blast
  have s1: "same_memory w w1" using okeepsD [OF okeeps_basic(6) a] .
  show ?thesis
  proof (cases "a \<and> dict_eq cold (cold_now w1)")
    case True
    then have "cold_in_force cold w1"
      using alive_eq [of cold w c w1] a s1 by (simp add: same_memory_def cold_now_def)
    then show ?thesis using True rest s1 by (simp add: same_memory_def)
  next
    case False
    then obtain b w2 u3 w3 where b: "alive c w1 = (Inr b, w2)"
      and mid: "(if b \<and> can_warm c (cold_now w2) cold then warm_reinit c cold (changed_cold (cold_now w2) cold)
        else ret ()) w2 = (Inr u3, w3)"
      and fin: "(if \<not> dict_eq cold (cold_now w3) then relaunch c cold w3
            else andthen (alive c) (\<lambda>a. if a then ret () else relaunch c cold) w3) = (Inr u, w')"
      using rest unfolding if_not_P [OF False] by (elim andthen_InrE) blast
    have s2: "same_memory w1 w2" using okeepsD [OF okeeps_basic(6) b] .
    have "sup_applied w3 = sup_applied w2"
      using mid warm_ok [of c cold "changed_cold (cold_now w2) cold" w2 u3 w3] by (auto split: if_splits)
    then show ?thesis using last_check_ok [OF fin] s1 s2 by (simp add: same_memory_def)
  qed
qed

lemma okeeps_hot: "okeeps (hot_step c hot)"
proof -
  have "okeeps (andthen (on_engine (a_set_hot (sc_adapter c) h)) (\<lambda>r. if r_ok r then ret True
          else andthen (sup_report c a ''failed'' (d r)) (\<lambda>_. ret False)))" for h a d
    by (intro okeeps_andthen) (auto intro!: okeeps_andthen)
  moreover have "okeeps (andthen (sup_report c a ''failed'' d) (\<lambda>_. ret False))" for a d
    by (intro okeeps_andthen) auto
  ultimately show ?thesis
    unfolding okeeps_def hot_step_def Let_def case_prod_beta by (auto split: if_splits)
qed

lemma sup_apply_ok:
  assumes "sup_apply c v w = (Inr ''healthy'', w')"
  shows "sup_applied w' = Some (cv_id v) \<and> cold_in_force (snd (split_fields (sc_manifest c) (cv_fields v))) w'"
proof -
  let ?hot = "fst (split_fields (sc_manifest c) (cv_fields v))"
  let ?cold = "snd (split_fields (sc_manifest c) (cv_fields v))"
  obtain u w1 ok w2 where s: "cold_step c ?cold w = (Inr u, w1)" "hot_step c ?hot w1 = (Inr ok, w2)"
    and rest: "(if \<not> ok then ret ''failed''
      else andthen (set_sup_applied (cv_id v)) (\<lambda>_ w.
        andthen (sup_report c (Some (cv_id v)) ''healthy'' (reinit_detail c w)) (\<lambda>_. ret ''healthy'') w)) w2 =
      (Inr ''healthy'', w')"
    using assms unfolding sup_apply_def case_prod_beta by (elim andthen_InrE) blast
  have ok by (rule ccontr) (use rest in simp)
  then obtain d u2 where "sup_report c (Some (cv_id v)) ''healthy'' d (w2\<lparr>sup_applied := Some (cv_id v)\<rparr>) = (Inr u2, w')"
    using rest by (auto elim!: andthen_InrE simp: set_sup_applied_def)
  from okeepsD [OF okeeps_basic(5) this]
  have m: "same_memory (w2\<lparr>sup_applied := Some (cv_id v)\<rparr>) w'" .
  have "cold_in_force ?cold w2"
    using cold_step_ok [OF s(1)] cold_in_force_same [OF okeepsD [OF okeeps_hot s(2)]] by simp
  then have "cold_in_force ?cold (w2\<lparr>sup_applied := Some (cv_id v)\<rparr>)"
    by (simp add: cold_in_force_def cold_now_def)
  then show ?thesis using cold_in_force_same [OF m] m by (simp add: same_memory_def)
qed

section \<open>Ticks on the local store\<close>

lemma sup_report_local:
  assumes "sc_api c = local_store"
  shows "\<exists>s. sup_report c a st d w = (Inr (), w\<lparr>w_store := s\<rparr>) \<and>
    local_target s = local_target (w_store w) \<and>
    local_reported s (sc_replica c) = Some (sc_group c, a, st, d)"
  using assms record_status_local [of "sc_replica c" "sc_group c" a st d "w_store w"]
  by (auto simp: sup_report_def local_store_def on_store_def record_status_run)

lemma local_read: "api_desired_for local_store r g s = (local_target s r g, s)"
  using desired_for_eq [of r g s] by (simp add: local_store_def local_target_def)

lemma sup_read:
  assumes "sc_api c = local_store"
  shows "on_store (api_desired_for (sc_api c) (sc_replica c) (sc_group c)) w =
    (local_target (w_store w) (sc_replica c) (sc_group c), w)"
  by (simp add: assms on_store_def local_read)

lemma sup_tick_apply:
  assumes "sc_api c = local_store"
    and "local_target (w_store w) (sc_replica c) (sc_group c) = Inr (Some v)"
    and "sup_applied w \<noteq> Some (cv_id v)"
  shows "sup_tick c w = sup_apply c v w"
  using sup_read [OF assms(1), of w] assms(2,3) by (simp add: sup_tick_def)

lemma alive_stable:
  assumes "has_proc w" and "os_poll (sc_host c) (w_engine w) = (Inr None, w_engine w)"
  shows "alive c w = (Inr True, w)"
  using assms by (simp add: alive_def on_engine_def)

lemma cold_step_idle:
  assumes "has_proc w" and "os_poll (sc_host c) (w_engine w) = (Inr None, w_engine w)"
    and "dict_eq cold (cold_now w)"
  shows "cold_step c cold w = (Inr (), w)"
  using alive_stable [OF assms(1,2)] assms(3) by (simp add: cold_step_def)

text \<open>A small machine for the witnesses: a clock, and a process that is up or not.\<close>

record machine =
  mc_now :: rat
  mc_up :: bool

definition demo_host :: "machine host" where
  "demo_host =
     \<lparr>os_spawn = \<lambda>cmd e. (Inr (), e\<lparr>mc_up := True\<rparr>),
      os_poll = \<lambda>e. (Inr (if mc_up e then None else Some 1), e),
      os_terminate = \<lambda>e. (Inr (), e\<lparr>mc_up := False\<rparr>),
      os_wait = \<lambda>e. (Inr (\<not> mc_up e), e), os_kill = \<lambda>e. (Inr (), e\<lparr>mc_up := False\<rparr>),
      os_reap = \<lambda>e. (Inr (), e\<lparr>mc_up := False\<rparr>),
      os_health = \<lambda>e. (Inr (mc_up e), e), os_time = \<lambda>e. (Inr (Fin (mc_now e)), e),
      os_sleep = \<lambda>x e. (Inr (), case x of Fin q \<Rightarrow> e\<lparr>mc_now := mc_now e + q\<rparr> | _ \<Rightarrow> e)\<rparr>"

lemma demo_host_timely: "timely demo_host mc_now"
  by (simp add: timely_def demo_host_def)

definition demo_adapter :: "machine adapter" where
  "demo_adapter = \<lparr>a_set_hot = \<lambda>ch. ret applied_nothing, a_reinit_warm = \<lambda>f. ret applied_nothing,
     a_read_knobs = ret [], a_warm = []\<rparr>"

definition demo_sup :: "string \<Rightarrow> (store, machine) supervisor_config" where
  "demo_sup launcher =
     \<lparr>sc_api = local_store, sc_manifest = demo_manifest, sc_adapter = demo_adapter, sc_host = demo_host,
      sc_launcher = launcher, sc_adapter_engine = ''sglang'', sc_model = ''m'', sc_port = 80,
      sc_replica = ''r0'', sc_group = ''g'', sc_extra = [], sc_health_timeout = Fin 5, sc_drain_s = Fin 0,
      sc_python = ''python3'', sc_rounding = Fin, sc_text = \<lambda>_. ''1'', sc_3f = \<lambda>_. ''1'', sc_fuel = 4\<rparr>"

definition demo_off :: "fields \<Rightarrow> (store, machine) supervisor" where
  "demo_off flds = init_supervisor (demo_store\<lparr>t_version := [demo_v1\<lparr>cv_fields := flds\<rparr>]\<rparr>) \<lparr>mc_now = 0, mc_up = False\<rparr>"

definition demo_on :: "fields \<Rightarrow> (store, machine) supervisor" where
  "demo_on flds = (demo_off flds)\<lparr>w_engine := \<lparr>mc_now = 0, mc_up = True\<rparr>, has_proc := True\<rparr>"

lemma demo_off_target: "local_target (w_store (demo_off flds)) ''r0'' ''g'' = Inr (Some (demo_v1\<lparr>cv_fields := flds\<rparr>))"
  "local_target (w_store (demo_on flds)) ''r0'' ''g'' = Inr (Some (demo_v1\<lparr>cv_fields := flds\<rparr>))"
  by (simp_all add: demo_on_def demo_off_def init_supervisor_def local_target_def desired_for_def desired_def version_def
      demo_store_def demo_proposed_def empty_store_def demo_v1_def)

lemma demo_sup_sel [simp]:
  "sc_api (demo_sup l) = local_store" "sc_replica (demo_sup l) = ''r0''" "sc_group (demo_sup l) = ''g''"
  "sc_manifest (demo_sup l) = demo_manifest" "sc_host (demo_sup l) = demo_host" "sc_launcher (demo_sup l) = l"
  "sc_adapter (demo_sup l) = demo_adapter"
  by (simp_all add: demo_sup_def)

section \<open>Properties\<close>

text \<open>
  C16. The launch command carries the cold fields. Whenever a command is built, its tail, read
  back as flags and values, has for every knob of the engine's table exactly the value of the
  cold field, under the flag of that knob and no other, and nothing for a knob that is not set;
  and a command is built exactly when every cold field is in the table.
\<close>

theorem launch_flags_roundtrip:
  assumes "map_of cold_flags engine = Some tab" and "wf_dict cold"
  shows "if set (keys cold) \<subseteq> dom (map_of tab)
    then \<exists>base args. build_command fr py engine model port cold extra me = Inr (base @ extra @ args) \<and>
      base_command py engine model port me = Inr base \<and> length args = 2 * length cold \<and>
      (\<forall>k f. map_of tab k = Some f \<longrightarrow>
        map_of (flag_pairs args) f = map_option (str_json fr) (map_of cold k))
    else build_command fr py engine model port cold extra me = Inl (no_flag (unknown_cold tab cold) engine)"
proof (cases "set (keys cold) \<subseteq> dom (map_of tab)")
  case True
  then have none: "unknown_cold tab cold = []" by (auto simp: unknown_cold_empty)
  obtain base where base: "base_command py engine model port me = Inr base"
    using base_command_known [OF assms(1)] by blast
  with base length_cold_args [of fr tab cold] none True show ?thesis
    using assms cold_args_lookup [OF engine_injective [OF assms(1)] assms(2) none]
    by (auto simp: build_command_def intro!: exI [of _ base] exI [of _ "cold_args fr tab cold"])
next
  case False
  then have "unknown_cold tab cold \<noteq> []" by (auto simp: unknown_cold_empty)
  with False assms(1) show ?thesis by (auto simp: build_command_def)
qed

theorem launch_flags_roundtrip_witness:
  "\<exists>base args. build_command (\<lambda>_. ''1'') ''py'' ''vllm'' ''m'' 8000 [(''quantization'', JStr ''fp8''), (''max_model_len'', JInt 8)] [] ''vllm'' =
      Inr (base @ [] @ args) \<and> map_of (flag_pairs args) ''--quantization'' = Some ''fp8''"
proof -
  obtain tab where tab: "map_of cold_flags ''vllm'' = Some tab" "map_of tab ''quantization'' = Some ''--quantization''"
      "map_of tab ''max_model_len'' = Some ''--max-model-len''"
    by (simp add: cold_flags_def)
  let ?cold = "[(''quantization'', JStr ''fp8''), (''max_model_len'', JInt 8)]"
  have "wf_dict ?cold" by simp
  moreover have "set (keys ?cold) \<subseteq> dom (map_of tab)" using tab by auto
  ultimately show ?thesis
    using launch_flags_roundtrip [OF tab(1), of ?cold "\<lambda>_. ''1''" "''py''" "''m''" 8000 "[]" "''vllm''"] tab(2)
    by (fastforce simp: str_json_def)
qed

text \<open>
  C17. A launch returns. On a host whose clock is not turned back and whose sleeps last as long as
  asked, with more fuel than the health timeout (and one second for the rounding) divided by the
  gap between polls, the wait for health is left by health, by the exit of the process or by the
  timeout: the fuel does not run out.
\<close>

theorem launch_returns:
  assumes "timely (sc_host c) now" and "sc_health_timeout c = Fin limit" and "poll_gap c = Fin gap"
    and "\<forall>x. limit + 1 < x \<longrightarrow> f_lt (Fin limit) (sc_rounding c x)" and "limit + 1 < of_nat (sc_fuel c) * gap"
  shows "fst (launch c cold w) \<noteq> Inl Diverged"
  using launch_ends [OF assms(1-3) _ assms(5)] assms(4) by blast

theorem launch_returns_witness:
  "fst (launch (demo_sup ''sglang'') [] (demo_off [])) \<noteq> Inl Diverged"
  by (rule launch_returns [of _ mc_now 5 2])
    (simp_all add: demo_host_timely, simp_all add: demo_sup_def poll_gap_def)



end
