(* ===== verification/Supervisor_Process.thy ===== *)
theory Supervisor_Process
  imports Supervisor_Facts
begin

text \<open>
  The one process a supervisor owns: pre- and postconditions for its statements, with the same
  postcondition for every exception, and from them that there is never more than one engine and
  none when the loop is left.
\<close>

section \<open>Conditions before and after\<close>

definition triple :: "('s \<Rightarrow> bool) \<Rightarrow> ('s, 'a) stmt \<Rightarrow> ('s \<Rightarrow> bool) \<Rightarrow> ('s \<Rightarrow> bool) \<Rightarrow> bool" where
  "triple P m Q E \<longleftrightarrow> (\<forall>s. P s \<longrightarrow> (case fst (m s) of Inr _ \<Rightarrow> Q (snd (m s)) | Inl _ \<Rightarrow> E (snd (m s))))"

lemma triple_andthen: "triple P m Q E \<Longrightarrow> (\<And>x. triple Q (f x) R E) \<Longrightarrow> triple P (andthen m f) R E"
  unfolding triple_def andthen_def
  by (auto split: prod.splits sum.splits) (metis fst_conv snd_conv sum.case)+

lemma triple_ret [simp]: "triple P (ret x) Q E \<longleftrightarrow> (\<forall>s. P s \<longrightarrow> Q s)"
  by (simp add: triple_def)

lemma triple_raise [simp]: "triple P (raise e) Q E \<longleftrightarrow> (\<forall>s. P s \<longrightarrow> E s)"
  by (simp add: triple_def)

lemma triple_Pair [simp]:
  "triple P (Pair (Inr x)) Q E \<longleftrightarrow> (\<forall>s. P s \<longrightarrow> Q s)"
  "triple P (Pair (Inl e)) Q E \<longleftrightarrow> (\<forall>s. P s \<longrightarrow> E s)"
  by (simp_all add: triple_def)

lemma triple_of_result: "(\<And>s. P s \<Longrightarrow> Q s) \<Longrightarrow> (\<And>s. P s \<Longrightarrow> E s) \<Longrightarrow> triple P (of_result r) Q E"
  by (auto simp: triple_def split: sum.split)

lemma triple_weaken:
  "triple P m Q E \<Longrightarrow> (\<And>s. P' s \<Longrightarrow> P s) \<Longrightarrow> (\<And>s. Q s \<Longrightarrow> Q' s) \<Longrightarrow> triple P' m Q' E"
  by (auto simp: triple_def split: sum.splits)

lemma triple_if: "(b \<Longrightarrow> triple P m Q E) \<Longrightarrow> (\<not> b \<Longrightarrow> triple P m' Q E) \<Longrightarrow> triple P (if b then m else m') Q E"
  by simp

lemma triple_run: "(\<And>s. P s \<Longrightarrow> triple P (m s) Q E) \<Longrightarrow> triple P (\<lambda>s. m s s) Q E"
  by (auto simp: triple_def)

lemma tripleD: "triple P m Q E \<Longrightarrow> P s \<Longrightarrow> (\<And>s. Q s \<Longrightarrow> E s) \<Longrightarrow> E (snd (m s))"
  unfolding triple_def by (cases "fst (m s)") fastforce+

text \<open>A statement keeps a condition when it leaves it so however it ends.\<close>

lemma triple_snd: "(\<And>s. P s \<Longrightarrow> Q (snd (m s)) \<and> E (snd (m s))) \<Longrightarrow> triple P m Q E"
  by (simp add: triple_def split: sum.split)

section \<open>Processes\<close>

text \<open>
  What the host and the adapter do to the processes the supervisor started: \<open>running\<close> counts
  those that run. Starting one adds at most one, and none when it raises; a poll that gives a
  return code, a wait that ends and a reap that returns find none; nothing else starts one.
\<close>

definition process_laws :: "('s, 'e) supervisor_config \<Rightarrow> ('e \<Rightarrow> nat) \<Rightarrow> bool" where
  "process_laws c running \<longleftrightarrow>
     (let h = sc_host c; a = sc_adapter c in
      (\<forall>cmd e. running (snd (os_spawn h cmd e)) \<le> running e + (case fst (os_spawn h cmd e) of Inr _ \<Rightarrow> 1 | Inl _ \<Rightarrow> 0)) \<and>
      (\<forall>e. running (snd (os_poll h e)) \<le> running e \<and>
        (\<forall>rc. fst (os_poll h e) = Inr (Some rc) \<longrightarrow> running (snd (os_poll h e)) = 0)) \<and>
      (\<forall>e. running (snd (os_wait h e)) \<le> running e \<and>
        (fst (os_wait h e) = Inr True \<longrightarrow> running (snd (os_wait h e)) = 0)) \<and>
      (\<forall>e. running (snd (os_reap h e)) \<le> running e \<and>
        (fst (os_reap h e) = Inr () \<longrightarrow> running (snd (os_reap h e)) = 0)) \<and>
      (\<forall>e. running (snd (os_terminate h e)) \<le> running e \<and> running (snd (os_kill h e)) \<le> running e \<and>
        running (snd (os_health h e)) \<le> running e \<and> running (snd (os_time h e)) \<le> running e) \<and>
      (\<forall>x e. running (snd (os_sleep h x e)) \<le> running e) \<and>
      (\<forall>ch e. running (snd (a_set_hot a ch e)) \<le> running e \<and> running (snd (a_reinit_warm a ch e)) \<le> running e))"

definition one_process :: "('e \<Rightarrow> nat) \<Rightarrow> ('s, 'e) supervisor \<Rightarrow> bool" where
  "one_process running w \<longleftrightarrow> running (w_engine w) \<le> (if has_proc w then 1 else 0)"

definition no_process :: "('e \<Rightarrow> nat) \<Rightarrow> ('s, 'e) supervisor \<Rightarrow> bool" where
  "no_process running w \<longleftrightarrow> running (w_engine w) = 0"

lemma no_one: "no_process running w \<Longrightarrow> one_process running w"
  by (simp add: no_process_def one_process_def)

lemma on_engine_parts:
  "fst (on_engine m w) = fst (m (w_engine w))" "w_engine (snd (on_engine m w)) = snd (m (w_engine w))"
  "has_proc (snd (on_engine m w)) = has_proc w"
  by (simp_all add: on_engine_def split: prod.split)

lemma on_store_parts:
  "w_engine (snd (on_store m w)) = w_engine w" "has_proc (snd (on_store m w)) = has_proc w"
  by (simp_all add: on_store_def split: prod.split)

text \<open>A call of the engine's side that starts no process keeps both conditions.\<close>

lemma quiet_one:
  assumes "\<And>e. running (snd (m e)) \<le> running e"
  shows "triple (one_process running) (on_engine m) (one_process running) (one_process running)"
proof (rule triple_snd)
  fix s
  assume "one_process running s"
  with assms [of "w_engine s"] have "one_process running (snd (on_engine m s))"
    by (simp add: one_process_def on_engine_parts split: if_splits)
  then show "one_process running (snd (on_engine m s)) \<and> one_process running (snd (on_engine m s))" by simp
qed

lemma quiet_none:
  assumes "\<And>e. running (snd (m e)) \<le> running e"
  shows "triple (no_process running) (on_engine m) (no_process running) (one_process running)"
proof (rule triple_snd)
  fix s
  assume "no_process running s"
  with assms [of "w_engine s"] have "no_process running (snd (on_engine m s))"
    by (simp add: no_process_def on_engine_parts)
  then show "no_process running (snd (on_engine m s)) \<and> one_process running (snd (on_engine m s))"
    using no_one by blast
qed

lemma quiet_calls:
  assumes "process_laws c running"
  shows "triple (one_process running) (on_engine (os_sleep (sc_host c) x)) (one_process running) (one_process running)"
    "triple (one_process running) (on_engine (os_health (sc_host c))) (one_process running) (one_process running)"
    "triple (one_process running) (on_engine (os_time (sc_host c))) (one_process running) (one_process running)"
    "triple (one_process running) (on_engine (os_poll (sc_host c))) (one_process running) (one_process running)"
    "triple (one_process running) (on_engine (os_terminate (sc_host c))) (one_process running) (one_process running)"
    "triple (one_process running) (on_engine (a_set_hot (sc_adapter c) ch)) (one_process running) (one_process running)"
    "triple (one_process running) (on_engine (a_reinit_warm (sc_adapter c) ch)) (one_process running) (one_process running)"
    "triple (no_process running) (on_engine (os_time (sc_host c))) (no_process running) (one_process running)"
  using assms unfolding process_laws_def Let_def by (intro quiet_one quiet_none; simp)+

lemma report_one: "triple (one_process running) (sup_report c a st d) (one_process running) (one_process running)"
  by (auto simp: triple_def sup_report_def one_process_def on_store_parts split: sum.split)

lemma report_none: "triple (no_process running) (sup_report c a st d) (no_process running) (one_process running)"
  by (auto simp: triple_def sup_report_def one_process_def no_process_def on_store_parts split: sum.split)

lemma alive_one:
  fixes c :: "('s, 'e) supervisor_config"
  assumes "process_laws c running"
  shows "triple (one_process running) (alive c) (one_process running) (one_process running)"
proof -
  have "running (snd (os_poll (sc_host c) e)) \<le> running e" for e
    using assms by (simp add: process_laws_def Let_def)
  then have poll: "triple (one_process running) (andthen (on_engine (os_poll (sc_host c))) (\<lambda>rc. ret (rc = None)) ::
      (('s, 'e) supervisor, bool) stmt) (one_process running) (one_process running)"
    by (intro triple_andthen [OF quiet_one]) simp_all
  show ?thesis
    using poll by (simp add: triple_def alive_def split: sum.splits)
qed

text \<open>A process that is not alive does not run.\<close>

lemma alive_false:
  assumes "process_laws c running" and "one_process running w" and "alive c w = (Inr False, w')"
  shows "no_process running w'"
proof (cases "has_proc w")
  case False
  then show ?thesis using assms(2,3) by (simp add: alive_def one_process_def no_process_def)
next
  case True
  obtain r e where poll: "os_poll (sc_host c) (w_engine w) = (r, e)" by (cases "os_poll (sc_host c) (w_engine w)")
  then obtain rc where "r = Inr (Some rc)" and w': "w' = w\<lparr>w_engine := e\<rparr>"
    using assms(3) True by (cases r) (auto simp: alive_def on_engine_def andthen_def)
  moreover have "fst (os_poll (sc_host c) (w_engine w)) = Inr (Some rc) \<Longrightarrow>
      running (snd (os_poll (sc_host c) (w_engine w))) = 0"
    using assms(1) unfolding process_laws_def Let_def by blast
  ultimately show ?thesis using poll by (simp add: no_process_def)
qed


lemma alive_split:
  fixes c :: "('s, 'e) supervisor_config"
  assumes laws: "process_laws c running"
    and "triple (one_process running) (f True) Q (one_process running)"
    and "triple (no_process running) (f False) Q (one_process running)"
  shows "triple (one_process running) (andthen (alive c) f) Q (one_process running)"
  unfolding triple_def
proof (intro allI impI)
  fix w :: "('s, 'e) supervisor"
  assume w: "one_process running w"
  obtain r w' where a: "alive c w = (r, w')" by (cases "alive c w")
  have w': "one_process running w'" using tripleD [OF alive_one [OF laws] w] a by simp
  show "case fst (andthen (alive c) f w) of
      Inl _ \<Rightarrow> one_process running (snd (andthen (alive c) f w))
    | Inr _ \<Rightarrow> Q (snd (andthen (alive c) f w))"
  proof (cases r)
    case (Inl e)
    then show ?thesis using a w' by simp
  next
    case (Inr b)
    have run: "andthen (alive c) f w = f b w'" using a Inr by simp
    show ?thesis
    proof (cases b)
      case True
      then have "b = True" by simp
      then show ?thesis unfolding run using assms(2) w' by (simp only: triple_def)
    next
      case False
      then have "no_process running w'" using alive_false [OF laws w] a Inr by simp
      moreover have "b = False" using False by simp
      ultimately show ?thesis unfolding run using assms(3) by (simp only: triple_def)
    qed
  qed
qed

lemma end_process_one:
  assumes "process_laws c running"
  shows "triple (one_process running) (end_process c) (no_process running) (one_process running)"
proof -
  let ?h = "sc_host c"
  note laws = assms [unfolded process_laws_def Let_def]
  have wait: "triple (one_process running) (andthen (on_engine (os_wait ?h)) (\<lambda>ended.
     if ended then ret ()
     else andthen (on_engine (os_kill ?h)) (\<lambda>_. on_engine (os_reap ?h)))) (no_process running) (one_process running)"
    unfolding triple_def
  proof (intro allI impI, goal_cases)
    case (1 w)
    then have w: "one_process running w" .
    obtain r w1 where m: "on_engine (os_wait ?h) w = (r, w1)" by (cases "on_engine (os_wait ?h) w")
    have w1: "one_process running w1"
      using tripleD [OF quiet_one [of running "os_wait ?h"] w] laws m by simp
    have reap: "triple (one_process running) (andthen (on_engine (os_kill ?h)) (\<lambda>_. on_engine (os_reap ?h)))
        (no_process running) (one_process running)"
    proof (rule triple_andthen [OF quiet_one])
      show "triple (one_process running) (on_engine (os_reap ?h)) (no_process running) (one_process running)"
        unfolding triple_def
      proof (intro allI impI)
        fix w
        assume "one_process running w"
        then have "one_process running (snd (on_engine (os_reap ?h) w))"
          using tripleD [OF quiet_one [of running "os_reap ?h"]] laws by blast
        moreover have "fst (on_engine (os_reap ?h) w) = Inr u \<Longrightarrow> no_process running (snd (on_engine (os_reap ?h) w))" for u
          using laws by (simp add: on_engine_parts no_process_def)
        ultimately show "case fst (on_engine (os_reap ?h) w) of
            Inl _ \<Rightarrow> one_process running (snd (on_engine (os_reap ?h) w))
          | Inr _ \<Rightarrow> no_process running (snd (on_engine (os_reap ?h) w))"
          by (simp split: sum.split)
      qed
    qed (use laws in simp)
    have "no_process running w1" if "r = Inr True"
      using laws m that on_engine_parts(1,2) [of "os_wait ?h" w] by (simp add: no_process_def)
    moreover have "andthen (on_engine (os_wait ?h)) (\<lambda>ended. if ended then ret ()
          else andthen (on_engine (os_kill ?h)) (\<lambda>_. on_engine (os_reap ?h))) w =
        (case r of Inl e \<Rightarrow> (Inl e, w1) | Inr b \<Rightarrow> (if b then ret ()
          else andthen (on_engine (os_kill ?h)) (\<lambda>_. on_engine (os_reap ?h))) w1)"
      using m by (simp add: andthen_def)
    moreover have "case (case r of Inl e \<Rightarrow> (Inl e, w1) | Inr b \<Rightarrow> (if b then ret ()
          else andthen (on_engine (os_kill ?h)) (\<lambda>_. on_engine (os_reap ?h))) w1) of
        (Inl _, w2) \<Rightarrow> one_process running w2 | (Inr _, w2) \<Rightarrow> no_process running w2"
      using w1 reap calculation(1) by (auto simp: triple_def case_prod_beta split: sum.split)
    ultimately show ?case by (simp only: case_prod_beta)
  qed
  show ?thesis
    unfolding end_process_def
  proof (rule triple_andthen)
    show "triple (one_process running) (if f_eq (sc_drain_s c) (Fin 0) then ret () else on_engine (os_sleep ?h (sc_drain_s c)))
        (one_process running) (one_process running)"
      by (simp add: quiet_calls(1) [OF assms])
    show "triple (one_process running) (andthen (on_engine (os_terminate ?h)) (\<lambda>_. andthen (on_engine (os_wait ?h)) (\<lambda>ended.
       if ended then ret ()
       else andthen (on_engine (os_kill ?h)) (\<lambda>_. on_engine (os_reap ?h))))) (no_process running) (one_process running)" for u
      by (rule triple_andthen [OF quiet_calls(5) [OF assms] wait])
  qed
qed

definition left_none :: "('e \<Rightarrow> nat) \<Rightarrow> ('s, 'e) supervisor \<Rightarrow> bool" where
  "left_none running w \<longleftrightarrow> no_process running w \<and> \<not> has_proc w"

lemma stop_one:
  assumes "process_laws c running"
  shows "triple (one_process running) (stop c) (left_none running) (one_process running)"
proof -
  have drop: "triple (no_process running) drop_proc (left_none running) (one_process running)"
    by (simp add: triple_def drop_proc_def no_process_def left_none_def)
  have "triple (one_process running) (andthen (end_process c) (\<lambda>_. drop_proc)) (left_none running) (one_process running)"
    by (rule triple_andthen [OF end_process_one [OF assms] drop])
  then show ?thesis
    unfolding stop_def using drop by (intro alive_split [OF assms]) simp_all
qed


section \<open>Launch and tick\<close>

lemma raise_any: "triple E (raise e) Q E"
  by simp

lemma raise_none: "triple (left_none running) (raise e) Q (one_process running)"
  by (simp add: left_none_def no_one)

lemma await_one:
  assumes laws: "process_laws c running"
  shows "triple (one_process running) (await_health c cmd t0 n) (one_process running) (one_process running)"
proof (induction n)
  case 0
  show ?case
    unfolding await_health.simps [of _ _ _ 0]
    by (intro triple_andthen [OF quiet_calls(2) [OF laws]] triple_if)
      (auto intro!: triple_andthen [OF quiet_calls(4) [OF laws]] triple_andthen [OF quiet_calls(3) [OF laws]]
        triple_andthen [OF quiet_calls(1) [OF laws]] triple_andthen [OF stop_one [OF laws] raise_none] split: option.split)
next
  case (Suc n)
  show ?case
    unfolding await_health.simps [of _ _ _ "Suc n"]
    by (intro triple_andthen [OF quiet_calls(2) [OF laws]] triple_if)
      (auto intro!: triple_andthen [OF quiet_calls(4) [OF laws]] triple_andthen [OF quiet_calls(3) [OF laws]]
        triple_andthen [OF quiet_calls(1) [OF laws]] triple_andthen [OF stop_one [OF laws] raise_none] Suc split: option.split)
qed

text \<open>Starting a process where none runs, and holding it.\<close>

lemma spawn_one:
  fixes c :: "('s, 'e) supervisor_config"
  assumes "process_laws c running"
  shows "triple (no_process running) (andthen (on_engine (os_spawn (sc_host c) cmd)) (\<lambda>_. hold_proc :: (('s, 'e) supervisor, unit) stmt))
    (one_process running) (one_process running)"
  unfolding triple_def
proof (intro allI impI)
  fix w :: "('s, 'e) supervisor"
  assume w: "no_process running w"
  obtain r e where sp: "os_spawn (sc_host c) cmd (w_engine w) = (r, e)" by (cases "os_spawn (sc_host c) cmd (w_engine w)")
  have "running (snd (os_spawn (sc_host c) cmd (w_engine w))) \<le> running (w_engine w) +
      (case fst (os_spawn (sc_host c) cmd (w_engine w)) of Inr _ \<Rightarrow> 1 | Inl _ \<Rightarrow> 0)"
    using assms unfolding process_laws_def Let_def by blast
  then show "case fst (andthen (on_engine (os_spawn (sc_host c) cmd)) (\<lambda>_. hold_proc) w) of
      Inl _ \<Rightarrow> one_process running (snd (andthen (on_engine (os_spawn (sc_host c) cmd)) (\<lambda>_. hold_proc) w))
    | Inr _ \<Rightarrow> one_process running (snd (andthen (on_engine (os_spawn (sc_host c) cmd)) (\<lambda>_. hold_proc) w))"
    using w sp by (cases r) (simp_all add: andthen_def on_engine_def hold_proc_def one_process_def no_process_def)
qed

lemma launch_one:
  fixes c :: "('s, 'e) supervisor_config"
  assumes laws: "process_laws c running"
  shows "triple (no_process running) (launch c cold) (one_process running) (one_process running)"
proof -
  have cold: "triple (one_process running) (set_cold cold :: (('s, 'e) supervisor, unit) stmt) (one_process running) (one_process running)"
    by (simp add: triple_def set_cold_def one_process_def)
  have el: "triple (one_process running) (elapsed c t0) (one_process running) (one_process running)" for t0
    unfolding elapsed_def by (rule triple_andthen [OF quiet_calls(3) [OF laws]]) simp
  have tail: "triple (one_process running) (andthen (await_health c cmd t0 n) (\<lambda>_. andthen (set_cold cold) (\<lambda>_. elapsed c t0)))
      (one_process running) (one_process running)" for cmd t0 n
    by (rule triple_andthen [OF await_one [OF laws] triple_andthen [OF cold el]])
  have "triple (no_process running) (andthen (andthen (on_engine (os_spawn (sc_host c) cmd)) (\<lambda>_. hold_proc))
      (\<lambda>_. andthen (await_health c cmd t0 n) (\<lambda>_. andthen (set_cold cold) (\<lambda>_. elapsed c t0))))
      (one_process running) (one_process running)" for cmd t0 n
    by (rule triple_andthen [OF spawn_one [OF laws] tail])
  note spawn = this [unfolded andthen_assoc]
  show ?thesis
    unfolding launch_def
  proof (rule triple_andthen)
    show "triple (no_process running) (of_result r) (no_process running) (one_process running)" for r :: "exn + string list"
      by (rule triple_of_result) (auto simp: no_one)
  qed (rule triple_andthen [OF quiet_calls(8) [OF laws] spawn])
qed


lemma memory_one:
  "triple (one_process running) (set_cold cold) (one_process running) (one_process running)"
  "triple (one_process running) (note_reinit t kind) (one_process running) (one_process running)"
  "triple (one_process running) (set_sup_applied i) (one_process running) (one_process running)"
  by (simp_all add: triple_def set_cold_def note_reinit_def set_sup_applied_def one_process_def)

lemma elapsed_one:
  assumes "process_laws c running"
  shows "triple (one_process running) (elapsed c t0) (one_process running) (one_process running)"
  unfolding elapsed_def by (rule triple_andthen [OF quiet_calls(3) [OF assms]]) simp

lemma warm_one:
  assumes "process_laws c running"
  shows "triple (one_process running) (warm_reinit c cold changed) (one_process running) (one_process running)"
  unfolding warm_reinit_def
  by (rule triple_run, rule triple_andthen [OF report_one], rule triple_andthen [OF quiet_calls(3) [OF assms]],
      rule triple_andthen [OF quiet_calls(7) [OF assms]], rule triple_if)
    (rule report_one triple_andthen [OF memory_one(1)] triple_andthen [OF elapsed_one [OF assms] memory_one(2)])+

lemma relaunch_one:
  assumes "process_laws c running"
  shows "triple (one_process running) (relaunch c cold) (one_process running) (one_process running)"
proof -
  have "triple (left_none running) (launch c cold) (one_process running) (one_process running)"
    by (rule triple_weaken [OF launch_one [OF assms]]) (simp_all add: left_none_def)
  note launch = triple_andthen [OF this memory_one(2)]
  show ?thesis
    unfolding relaunch_def
    by (rule triple_run, rule triple_andthen [OF report_one], rule triple_andthen [OF stop_one [OF assms] launch])
qed

lemma alive_any:
  assumes "process_laws c running"
    and "\<And>a. triple (one_process running) (f a) (one_process running) (one_process running)"
  shows "triple (one_process running) (andthen (alive c) f) (one_process running) (one_process running)"
  by (rule triple_andthen [OF alive_one [OF assms(1)] assms(2)])

lemma cold_step_one:
  assumes "process_laws c running"
  shows "triple (one_process running) (cold_step c cold) (one_process running) (one_process running)"
proof -
  have last: "triple (one_process running) (\<lambda>w. if \<not> dict_eq cold (cold_now w) then relaunch c cold w
      else andthen (alive c) (\<lambda>a. if a then ret () else relaunch c cold) w) (one_process running) (one_process running)"
    (is "triple _ (\<lambda>w. if ?b w then ?m w else ?n w) _ _")
  proof -
    have "triple (one_process running) ?n (one_process running) (one_process running)"
      by (rule alive_any [OF assms]) (simp add: relaunch_one [OF assms])
    with relaunch_one [OF assms, of cold] show ?thesis by (simp add: triple_def)
  qed
  have mid: "triple (one_process running) (\<lambda>w.
       andthen (if a \<and> can_warm c (cold_now w) cold then warm_reinit c cold (changed_cold (cold_now w) cold) else ret ())
         (\<lambda>_ w. if \<not> dict_eq cold (cold_now w) then relaunch c cold w
            else andthen (alive c) (\<lambda>a. if a then ret () else relaunch c cold) w) w) (one_process running) (one_process running)" for a
    by (rule triple_run, rule triple_andthen [OF _ last]) (simp add: warm_one [OF assms])
  have "triple (one_process running) (\<lambda>w. if a \<and> dict_eq cold (cold_now w) then ret () w else andthen (alive c) (\<lambda>a w.
       andthen (if a \<and> can_warm c (cold_now w) cold then warm_reinit c cold (changed_cold (cold_now w) cold) else ret ())
         (\<lambda>_ w. if \<not> dict_eq cold (cold_now w) then relaunch c cold w
            else andthen (alive c) (\<lambda>a. if a then ret () else relaunch c cold) w) w) w) (one_process running) (one_process running)"
      (is "triple _ (\<lambda>w. if _ then _ else ?rest w) _ _") for a
  proof -
    have "triple (one_process running) ?rest (one_process running) (one_process running)"
      by (rule alive_any [OF assms mid])
    then show ?thesis by (simp add: triple_def)
  qed
  then show ?thesis
    unfolding cold_step_def by (rule alive_any [OF assms])
qed

lemma hot_step_one:
  assumes "process_laws c running"
  shows "triple (one_process running) (hot_step c hot) (one_process running) (one_process running)"
proof -
  have push: "triple (one_process running) (andthen (on_engine (a_set_hot (sc_adapter c) ch)) (\<lambda>r.
      if r_ok r then ret True else andthen (sup_report c a ''failed'' (d r)) (\<lambda>_. ret False)))
      (one_process running) (one_process running)" for ch a d
    by (rule triple_andthen [OF quiet_calls(6) [OF assms]], rule triple_if)
      (simp, rule triple_andthen [OF report_one], simp)
  have fail: "triple (one_process running) (andthen (sup_report c a ''failed'' d) (\<lambda>_. ret False))
      (one_process running) (one_process running)" for a d
    by (rule triple_andthen [OF report_one]) simp
  show ?thesis
    using push fail unfolding triple_def hot_step_def Let_def case_prod_beta by (auto split: sum.splits)
qed

lemma sup_apply_one:
  assumes "process_laws c running"
  shows "triple (one_process running) (sup_apply c v) (one_process running) (one_process running)"
  unfolding sup_apply_def case_prod_beta
  by (rule triple_andthen [OF cold_step_one [OF assms]], rule triple_andthen [OF hot_step_one [OF assms]], rule triple_if,
      simp, rule triple_andthen [OF memory_one(3)], rule triple_run, rule triple_andthen [OF report_one], simp)


lemma sup_tick_one:
  fixes c :: "('s, 'e) supervisor_config"
  assumes laws: "process_laws c running"
  shows "triple (one_process running) (sup_tick c) (one_process running) (one_process running)"
proof -
  have read: "triple (one_process running) (on_store m :: (('s, 'e) supervisor, 'a) stmt) (one_process running) (one_process running)" for m :: "('s, 'a) stmt"
    by (rule triple_snd) (simp add: one_process_def on_store_parts)
  have fin: "triple (one_process running) (andthen (sup_report c a ''healthy'' []) (\<lambda>_. ret ''healthy''))
      (one_process running) (one_process running)" for a
    by (rule triple_andthen [OF report_one]) simp
  have boot: "triple (no_process running) (\<lambda>w. andthen (launch c (cold_now w)) (\<lambda>_. ret ()) w)
      (one_process running) (one_process running)"
    by (rule triple_run, rule triple_andthen [OF launch_one [OF laws]]) simp
  have none: "triple (one_process running) (andthen (alive c) (\<lambda>a.
         andthen (\<lambda>w. if a then (Inr (), w) else andthen (launch c (cold_now w)) (\<lambda>_. ret ()) w) (\<lambda>_.
         andthen (sup_report c None ''healthy'' []) (\<lambda>_. ret ''healthy'')))) (one_process running) (one_process running)"
    by (rule alive_split [OF laws]; rule triple_andthen [OF _ fin]) (use boot in simp_all)
  have again: "triple (one_process running) (andthen (alive c) (\<lambda>a.
      if a then andthen (sup_report c (Some (cv_id v)) ''healthy'' []) (\<lambda>_. ret ''healthy'') else sup_apply c v))
      (one_process running) (one_process running)" for v
    by (rule alive_any [OF laws], rule triple_if [OF fin sup_apply_one [OF laws]])
  have some: "triple (one_process running) (\<lambda>w. if sup_applied w = Some (cv_id v) then
      andthen (alive c) (\<lambda>a. if a then andthen (sup_report c (Some (cv_id v)) ''healthy'' []) (\<lambda>_. ret ''healthy'')
        else sup_apply c v) w else sup_apply c v w) (one_process running) (one_process running)" for v
    using again [of v] sup_apply_one [OF laws, of v] by (simp add: triple_def)
  show ?thesis
    unfolding sup_tick_def
    by (rule triple_andthen [OF read]) (use none some in \<open>simp split: option.split\<close>)
qed

lemma run_supervisor_one:
  assumes "process_laws c running"
  shows "triple (one_process running) (run_supervisor n c) (one_process running) (one_process running)"
proof (induction n)
  case 0
  then show ?case by simp
next
  case (Suc n)
  have "triple (one_process running) (andthen (run_supervisor n c) (\<lambda>rs. ret (r # rs)))
      (one_process running) (one_process running)" for r
    by (rule triple_andthen [OF Suc]) simp
  then show ?case unfolding run_supervisor.simps by (rule triple_andthen [OF sup_tick_one [OF assms]])
qed


section \<open>Properties\<close>

text \<open>
  A hot change never touches the process. When the engine is up and the cold fields of a new
  version are those it runs with, the tick starts, stops and reinitialises nothing: a version the
  manifest rejects leaves the engine as it was, and any other leaves it exactly where the adapter's
  one call left it, applied when the adapter accepted it and failed otherwise.
\<close>

theorem hot_change_keeps_process:
  assumes "sc_api c = local_store"
    and "local_target (w_store w) (sc_replica c) (sc_group c) = Inr (Some v)"
    and "sup_applied w \<noteq> Some (cv_id v)"
    and "has_proc w" and "os_poll (sc_host c) (w_engine w) = (Inr None, w_engine w)"
    and "split_fields (sc_manifest c) (cv_fields v) = (hot, cold)" and "dict_eq cold (cold_now w)"
    and "validate (sc_text c) (sc_manifest c) hot = (accepted, rejected)"
    and "a_set_hot (sc_adapter c) accepted (w_engine w) = (Inr r, e')"
  shows "\<exists>w'. sup_tick c w =
      (Inr (if hot = [] \<or> rejected = [] \<and> r_ok r then ''healthy'' else ''failed''), w') \<and>
    w_engine w' = (if hot = [] \<or> rejected \<noteq> [] then w_engine w else e') \<and>
    has_proc w' \<and> cold_applied w' = cold_applied w \<and> last_reinit_s w' = last_reinit_s w \<and>
    sup_applied w' = (if hot = [] \<or> rejected = [] \<and> r_ok r then Some (cv_id v) else sup_applied w)"
proof -
  note run = sup_tick_apply [OF assms(1-3)] and idle = cold_step_idle [OF assms(4,5,7)]
  have report: "\<exists>s. sup_report c a st d u = (Inr (), u\<lparr>w_store := s\<rparr>)" for a st d and u :: "(store, 'a) supervisor"
    using sup_report_local [OF assms(1), of a st d u] by blast
  consider (none) "hot = []" | (reject) "hot \<noteq> []" "rejected \<noteq> []"
    | (ok) "hot \<noteq> []" "rejected = []" "r_ok r" | (refused) "hot \<noteq> []" "rejected = []" "\<not> r_ok r"
    by blast
  then show ?thesis
  proof cases
    case none
    let ?u = "w\<lparr>sup_applied := Some (cv_id v)\<rparr>"
    obtain s where "sup_report c (Some (cv_id v)) ''healthy'' (reinit_detail c ?u) ?u = (Inr (), ?u\<lparr>w_store := s\<rparr>)"
      using report by blast
    then show ?thesis
      using assms(4,6) none idle by (simp add: run sup_apply_def hot_step_def set_sup_applied_def andthen_def)
  next
    case reject
    obtain s where "sup_report c (sup_applied w) ''failed'' (''manifest rejected '' @ repr_str_dict rejected) w =
        (Inr (), w\<lparr>w_store := s\<rparr>)"
      using report by blast
    then show ?thesis
      using assms(4,6,8) reject idle by (simp add: run sup_apply_def hot_step_def andthen_def)
  next
    case ok
    let ?u = "w\<lparr>w_engine := e', sup_applied := Some (cv_id v)\<rparr>"
    obtain s where "sup_report c (Some (cv_id v)) ''healthy'' (reinit_detail c ?u) ?u = (Inr (), ?u\<lparr>w_store := s\<rparr>)"
      using report by blast
    then show ?thesis
      using assms(4,6,8,9) ok idle
      by (simp add: run sup_apply_def hot_step_def on_engine_def set_sup_applied_def andthen_def)
  next
    case refused
    let ?u = "w\<lparr>w_engine := e'\<rparr>"
    obtain s where "sup_report c (sup_applied w) ''failed'' (''engine rejected '' @ repr_dict (sc_text c) (r_rejected r)) ?u =
        (Inr (), ?u\<lparr>w_store := s\<rparr>)"
      using report by blast
    then show ?thesis
      using assms(4,6,8,9) refused idle by (simp add: run sup_apply_def hot_step_def on_engine_def andthen_def)
  qed
qed

lemma demo_on_sel [simp]:
  "w_engine (demo_on flds) = \<lparr>mc_now = 0, mc_up = True\<rparr>" "has_proc (demo_on flds)" "sup_applied (demo_on flds) = None"
  "cold_applied (demo_on flds) = None" "cold_now (demo_on flds) = []" "last_reinit_s (demo_on flds) = None"
  by (simp_all add: demo_on_def demo_off_def init_supervisor_def cold_now_def)

lemma demo_up: "os_poll demo_host \<lparr>mc_now = 0, mc_up = True\<rparr> = (Inr None, \<lparr>mc_now = 0, mc_up = True\<rparr>)"
  by (simp add: demo_host_def)

lemma demo_split:
  "split_fields demo_manifest [(''max_running_requests'', v)] = ([(''max_running_requests'', v)], [])"
  "split_fields demo_manifest [(''tp_size'', v)] = ([], [(''tp_size'', v)])"
  by (simp_all add: split_fields_def is_cold_knob_def demo_knobs demo_cap_def demo_tp_def HOT_def COLD_def WARM_def)

theorem hot_change_keeps_process_witness:
  "\<exists>w'. sup_tick (demo_sup ''sglang'') (demo_on [(''max_running_requests'', JInt 8)]) = (Inr ''healthy'', w') \<and>
    w_engine w' = \<lparr>mc_now = 0, mc_up = True\<rparr>"
proof -
  let ?c = "demo_sup ''sglang''" and ?h = "[(''max_running_requests'', JInt 8)]" and ?none = "[] :: string dict"
  have "fst (validate (sc_text ?c) demo_manifest ?h) = ?h \<and> snd (validate (sc_text ?c) demo_manifest ?h) = []"
    by code_simp
  then have v: "validate (sc_text ?c) (sc_manifest ?c) ?h = (?h, [])" by (metis demo_sup_sel(4) prod.collapse)
  have "a_set_hot (sc_adapter ?c) ?h (w_engine (demo_on ?h)) = (Inr applied_nothing, \<lparr>mc_now = 0, mc_up = True\<rparr>)"
    by (simp add: demo_adapter_def)
  note hot = hot_change_keeps_process [OF demo_sup_sel(1) _ _ _ _ _ _ v this]
  have "\<exists>w'. sup_tick ?c (demo_on ?h) =
      (Inr (if ?h = [] \<or> ?none = [] \<and> r_ok applied_nothing then ''healthy'' else ''failed''), w') \<and>
    w_engine w' = (if ?h = [] \<or> ?none \<noteq> [] then w_engine (demo_on ?h) else \<lparr>mc_now = 0, mc_up = True\<rparr>) \<and>
    has_proc w' \<and> cold_applied w' = cold_applied (demo_on ?h) \<and> last_reinit_s w' = last_reinit_s (demo_on ?h) \<and>
    sup_applied w' = (if ?h = [] \<or> ?none = [] \<and> r_ok applied_nothing
      then Some (cv_id (demo_v1\<lparr>cv_fields := ?h\<rparr>)) else sup_applied (demo_on ?h))"
    by (rule hot [where cold = "[]" and v = "demo_v1\<lparr>cv_fields := ?h\<rparr>"]) (simp_all add: demo_off_target(2) demo_up demo_split dict_eq_def)
  then show ?thesis by (auto simp: applied_nothing_def)
qed

text \<open>
  C19. A cold field without a launch flag takes the engine down. When the engine is up, the new
  version's cold fields differ from the running ones, one of them has no flag on this engine and
  no warm reinit serves the change, the tick stops the engine first and raises the refusal after:
  the process is gone, and nothing is recorded as applied.
\<close>

theorem refused_flag_stops_engine:
  assumes "sc_api c = local_store"
    and "local_target (w_store w) (sc_replica c) (sc_group c) = Inr (Some v)"
    and "sup_applied w \<noteq> Some (cv_id v)"
    and "has_proc w" and "os_poll (sc_host c) (w_engine w) = (Inr None, w_engine w)"
    and "split_fields (sc_manifest c) (cv_fields v) = (hot, cold)" and "\<not> dict_eq cold (cold_now w)"
    and "\<not> can_warm c (cold_now w) cold"
    and "map_of cold_flags (sc_launcher c) = Some tab" and "unknown_cold tab cold \<noteq> []"
    and "\<forall>u. fst (stop c u) = Inr ()"
  shows "\<exists>w'. sup_tick c w = (Inl (no_flag (unknown_cold tab cold) (sc_launcher c)), w') \<and>
    \<not> has_proc w' \<and> sup_applied w' = sup_applied w \<and> cold_applied w' = cold_applied w"
proof -
  obtain s where rep: "sup_report c (sup_applied w) ''reinit'' (''relaunch for '' @ repr_str_list (sort (keys cold))) w =
      (Inr (), w\<lparr>w_store := s\<rparr>)"
    using sup_report_local [OF assms(1)] by blast
  obtain w1 where st: "stop c (w\<lparr>w_store := s\<rparr>) = (Inr (), w1)"
    using assms(11) by (metis prod.collapse)
  have launch: "launch c cold w1 = (Inl (no_flag (unknown_cold tab cold) (sc_launcher c)), w1)"
    using assms(9,10) by (simp add: launch_def build_command_def)
  have "relaunch c cold w = (Inl (no_flag (unknown_cold tab cold) (sc_launcher c)), w1)"
    by (simp only: relaunch_def andthen_def rep st launch prod.case sum.case)
  then have "cold_step c cold w = (Inl (no_flag (unknown_cold tab cold) (sc_launcher c)), w1)"
    using assms(7,8) by (simp add: cold_step_def alive_stable [OF assms(4,5)])
  then have "sup_tick c w = (Inl (no_flag (unknown_cold tab cold) (sc_launcher c)), w1)"
    using assms(6) by (simp add: sup_tick_apply [OF assms(1-3)] sup_apply_def)
  then show ?thesis using stop_ok [OF st] by simp
qed

lemma demo_stop: "fst (stop (demo_sup l) u) = Inr ()"
  by (simp add: stop_def alive_def end_process_def drop_proc_def demo_sup_def demo_host_def andthen_def on_engine_def)

theorem refused_flag_stops_engine_witness:
  "\<exists>w'. sup_tick (demo_sup ''vllm'') (demo_on [(''tp_size'', JInt 2)]) = (Inl (no_flag [''tp_size''] ''vllm''), w') \<and>
    \<not> has_proc w'"
proof -
  let ?c = "demo_sup ''vllm''" and ?w = "demo_on [(''tp_size'', JInt 2)]"
  obtain tab where tab: "map_of cold_flags ''vllm'' = Some tab" "map_of tab ''tp_size'' = None"
    by (simp add: cold_flags_def)
  have unknown: "unknown_cold tab [(''tp_size'', JInt 2)] = [''tp_size'']"
    using tab(2) by (simp add: unknown_cold_def)
  have "\<exists>w'. sup_tick ?c ?w = (Inl (no_flag (unknown_cold tab [(''tp_size'', JInt 2)]) (sc_launcher ?c)), w') \<and>
    \<not> has_proc w' \<and> sup_applied w' = sup_applied ?w \<and> cold_applied w' = cold_applied ?w"
    by (rule refused_flag_stops_engine [where hot = "[]" and v = "demo_v1\<lparr>cv_fields := [(''tp_size'', JInt 2)]\<rparr>"])
      (simp_all add: demo_off_target(2) demo_up demo_split dict_eq_def can_warm_def demo_adapter_def engine_names_def
        changed_cold_def dict_update_def tab unknown demo_stop engine_name_def)
  then show ?thesis unfolding unknown demo_sup_sel by blast
qed

text \<open>
  C20. One engine, and none left behind. Under the laws of processes, from a supervisor that holds
  the only engine it started, every run of ticks, also one that an exception ends, leaves at most
  one engine running, and that one held; and where stopping does not raise, the loop is left, by
  its end or by an exception, with no engine running and none held.
\<close>

theorem supervisor_leaves_no_process:
  assumes "process_laws c running" and "one_process running w"
  shows "one_process running (snd (run_supervisor n c w)) \<and>
    ((\<forall>u. fst (stop c u) = Inr ()) \<longrightarrow> left_none running (snd (sup_run n c w)))"
proof (intro conjI impI)
  show mid: "one_process running (snd (run_supervisor n c w))"
    by (rule tripleD [OF run_supervisor_one [OF assms(1)] assms(2)])
  assume "\<forall>u. fst (stop c u) = Inr ()"
  then have ok: "fst (stop c (snd (run_supervisor n c w))) = Inr ()" by blast
  then have "left_none running (snd (stop c (snd (run_supervisor n c w))))"
    using stop_one [OF assms(1)] mid unfolding triple_def by (metis (no_types, lifting) sum.case(2))
  moreover have "snd (sup_run n c w) = snd (stop c (snd (run_supervisor n c w)))"
    using ok by (simp add: sup_run_def case_prod_beta split: sum.split)
  ultimately show "left_none running (snd (sup_run n c w))" by simp
qed

definition machine_count :: "machine \<Rightarrow> nat" where
  "machine_count e = (if mc_up e then 1 else 0)"

theorem supervisor_leaves_no_process_witness:
  "machine_count (w_engine (snd (sup_run 2 (demo_sup ''mock'') (demo_off [(''tp_size'', JInt 2)])))) = 0"
proof -
  have "process_laws (demo_sup ''mock'') machine_count"
    by (simp add: process_laws_def demo_host_def demo_adapter_def machine_count_def split: pyfloat.split)
  moreover have "one_process machine_count (demo_off [(''tp_size'', JInt 2)])"
    by (simp add: one_process_def machine_count_def demo_off_def init_supervisor_def)
  ultimately show ?thesis
    using supervisor_leaves_no_process [of "demo_sup ''mock''" machine_count "demo_off [(''tp_size'', JInt 2)]" 2] demo_stop
    by (simp add: left_none_def no_process_def)
qed

end
