(* ===== verification/Sglang_Patch.thy ===== *)
theory Sglang_Patch
  imports Mock_Engine
begin

text \<open>
  The code that the patch puts into a running SGLang scheduler (\<open>engine/sglang/apply_patch.py\<close>):
  the hot knobs of \<open>_trimtab_apply_hot_knobs\<close>, the entry into \<open>set_internal_state\<close>, and the
  read-back. The parts of SGLang that it calls are arguments, the record \<open>sglang_env\<close>: the
  policy's own validation, the three ratio settings of the environment, the stock handler for the
  keys that are left over, and the warm reinit, which is handed the scheduler.
\<close>

section \<open>The scheduler\<close>

record ratio_tracker =
  t_init :: pyfloat
  t_min :: pyfloat
  t_decay :: pyfloat
  t_current :: pyfloat

record 'x scheduler =
  sg_max_running :: int
  sg_max_queued :: "int option"
  sg_chunk :: "int option"
  sg_max_prefill :: int
  sg_total_tokens :: int
  sg_policy :: string
  sg_effective :: string
  sg_ratio :: ratio_tracker
  sg_ceiling :: "int option"
  sg_conserv :: "pyfloat option"
  sg_log :: "string option"
  sg_logger :: string
  sg_last_reinit :: json
  sg_rest :: 'x

text \<open>
  \<open>sg_ceiling\<close> is \<open>_trimtab_ceilings["max_running_requests"]\<close>, absent until the first call;
  \<open>sg_effective\<close> is \<open>policy.policy\<close>, \<open>sg_logger\<close> the level of the loggers, and \<open>sg_rest\<close>
  everything else of the scheduler.
\<close>

record 'x sglang_env =
  se_rounding :: rounding
  se_text :: float_text
  se_3f :: float_text
  se_adjust :: "string \<Rightarrow> 'x \<Rightarrow> exn + string"
  se_init_ratio :: pyfloat
  se_min_factor :: pyfloat
  se_decay_steps :: pyfloat
  se_reinit :: "fields \<Rightarrow> ('x scheduler, fields) stmt"
  se_stock :: "fields \<Rightarrow> ('x scheduler, bool) stmt"

type_synonym verdict = "bool \<times> string list"

definition applied_msg :: "string \<Rightarrow> string \<Rightarrow> verdict" where
  "applied_msg k v = (True, [''trimtab applied '' @ k @ ''='' @ v])"

definition rejected_msg :: "string \<Rightarrow> string \<Rightarrow> string \<Rightarrow> verdict" where
  "rejected_msg k v why = (False, [''trimtab rejected '' @ k @ ''='' @ v @ '', '' @ why])"

section \<open>One knob\<close>

text \<open>
  A whole-number knob: \<open>int(v)\<close> when the value is a number in range, a rejection otherwise.
  \<open>lo\<close> and \<open>hi\<close> are the bounds, \<open>f\<close> stores the value.
\<close>

definition int_knob ::
  "float_text \<Rightarrow> string \<Rightarrow> int \<Rightarrow> int option \<Rightarrow> string \<Rightarrow> (int \<Rightarrow> 'x scheduler \<Rightarrow> 'x scheduler) \<Rightarrow> json \<Rightarrow>
   ('x scheduler, verdict) stmt" where
  "int_knob fr k lo hi why f v s =
     (if \<not> is_num v then (Inr (rejected_msg k (str_json fr v) why), s)
      else case int_of v of
          Inl e \<Rightarrow> (Inl e, s)
        | Inr i \<Rightarrow>
            if i < lo \<or> (case hi of None \<Rightarrow> False | Some h \<Rightarrow> h < i)
            then (Inr (rejected_msg k (str_json fr v) why), s)
            else (Inr (applied_msg k (show_int i)), f i s))"

definition boot_ceiling :: "'x scheduler \<Rightarrow> int" where
  "boot_ceiling s = (case sg_ceiling s of None \<Rightarrow> sg_max_running s | Some c \<Rightarrow> c)"

definition sg_set_max_running :: "('x, 'z) sglang_env_scheme \<Rightarrow> json \<Rightarrow> ('x scheduler, verdict) stmt" where
  "sg_set_max_running E v s =
     int_knob (se_text E) ''max_running_requests'' 1 (Some (boot_ceiling s))
       (''valid range is 1..'' @ show_int (boot_ceiling s) @ '' (the boot allocation)'')
       (\<lambda>i s. s\<lparr>sg_max_running := i\<rparr>) v s"

definition sg_set_max_queued :: "('x, 'z) sglang_env_scheme \<Rightarrow> json \<Rightarrow> ('x scheduler, verdict) stmt" where
  "sg_set_max_queued E =
     int_knob (se_text E) ''max_queued_requests'' 0 None ''must be >= 0'' (\<lambda>i s. s\<lparr>sg_max_queued := Some i\<rparr>)"

definition sg_set_chunk :: "('x, 'z) sglang_env_scheme \<Rightarrow> json \<Rightarrow> ('x scheduler, verdict) stmt" where
  "sg_set_chunk E =
     int_knob (se_text E) ''chunked_prefill_size'' 1 None ''must be > 0'' (\<lambda>i s. s\<lparr>sg_chunk := Some i\<rparr>)"

definition sg_set_max_prefill :: "('x, 'z) sglang_env_scheme \<Rightarrow> json \<Rightarrow> ('x scheduler, verdict) stmt" where
  "sg_set_max_prefill E v s =
     int_knob (se_text E) ''max_prefill_tokens'' 1 (Some (sg_total_tokens s))
       (''valid range is 1..'' @ show_int (sg_total_tokens s) @ '' (the KV pool)'')
       (\<lambda>i s. s\<lparr>sg_max_prefill := i\<rparr>) v s"

definition sg_set_policy :: "('x, 'z) sglang_env_scheme \<Rightarrow> json \<Rightarrow> ('x scheduler, verdict) stmt" where
  "sg_set_policy E v s =
     (let p = str_json (se_text E) v in
      case se_adjust E p (sg_rest s) of
        Inl (ValueError e) \<Rightarrow> (Inr (rejected_msg ''schedule_policy'' p e), s)
      | Inl e \<Rightarrow> (Inl e, s)
      | Inr new \<Rightarrow> (Inr (applied_msg ''schedule_policy'' (p @ '' (effective '' @ new @ '')'')),
          s\<lparr>sg_policy := p, sg_effective := new\<rparr>))"

text \<open>The new-token-ratio watermarks, assigned one after the other; a step count of zero raises half-way.\<close>

definition rebuilt_ratio :: "('x, 'z) sglang_env_scheme \<Rightarrow> pyfloat \<Rightarrow> ratio_tracker \<Rightarrow> (exn + unit) \<times> ratio_tracker" where
  "rebuilt_ratio E c t =
     (let rnd = se_rounding E;
          i = f_min (f_mul rnd (se_init_ratio E) c) (Fin 1);
          m = f_min (f_mul rnd i (se_min_factor E)) (Fin 1)
      in case f_div rnd (f_sub rnd i m) (se_decay_steps E) of
           Inl e \<Rightarrow> (Inl e, t\<lparr>t_init := i, t_min := m\<rparr>)
         | Inr d \<Rightarrow> (Inr (), \<lparr>t_init = i, t_min = m, t_decay = d, t_current = i\<rparr>))"

definition sg_set_conserv :: "('x, 'z) sglang_env_scheme \<Rightarrow> json \<Rightarrow> ('x scheduler, verdict) stmt" where
  "sg_set_conserv E v s =
     (case num_of v of
        None \<Rightarrow> (Inr (rejected_msg ''schedule_conservativeness'' (str_json (se_text E) v) ''must be > 0''), s)
      | Some x \<Rightarrow>
          if f_le x (Fin 0)
          then (Inr (rejected_msg ''schedule_conservativeness'' (str_json (se_text E) v) ''must be > 0''), s)
          else case float_of (se_rounding E) v of
              Inl e \<Rightarrow> (Inl e, s)
            | Inr c \<Rightarrow>
                (case rebuilt_ratio E c (sg_ratio s) of
                   (Inl e, t) \<Rightarrow> (Inl e, s\<lparr>sg_ratio := t\<rparr>)
                 | (Inr _, t) \<Rightarrow>
                     (Inr (applied_msg ''schedule_conservativeness''
                       (str_json (se_text E) v @ '' (new_token_ratio init '' @ se_3f E (t_init t) @ '' min '' @
                        se_3f E (t_min t) @ '')'')),
                      s\<lparr>sg_ratio := t, sg_conserv := Some c\<rparr>)))"

definition log_levels :: "string list" where
  "log_levels = [''DEBUG'', ''INFO'', ''WARNING'', ''ERROR'']"

definition sg_set_log :: "('x, 'z) sglang_env_scheme \<Rightarrow> json \<Rightarrow> ('x scheduler, verdict) stmt" where
  "sg_set_log E v s =
     (let l = upper (str_json (se_text E) v) in
      if l \<notin> set log_levels
      then (Inr (rejected_msg ''log_level'' l ''must be DEBUG, INFO, WARNING or ERROR''), s)
      else (Inr (applied_msg ''log_level'' l), s\<lparr>sg_logger := l, sg_log := Some l\<rparr>))"

section \<open>A request\<close>

definition on_arg :: "string \<Rightarrow> fields \<Rightarrow> (json \<Rightarrow> ('x scheduler, verdict) stmt) \<Rightarrow> ('x scheduler, verdict) stmt" where
  "on_arg k args f = (case map_of args k of None \<Rightarrow> ret (True, []) | Some v \<Rightarrow> f v)"

fun all_verdicts :: "('x scheduler, verdict) stmt list \<Rightarrow> ('x scheduler, verdict) stmt" where
  "all_verdicts [] = ret (True, [])"
| "all_verdicts (m # ms) =
     andthen m (\<lambda>(ok, out). andthen (all_verdicts ms) (\<lambda>(ok', out'). ret (ok \<and> ok', out @ out')))"

definition record_ceiling :: "('x scheduler, unit) stmt" where
  "record_ceiling s =
     (Inr (), case sg_ceiling s of None \<Rightarrow> s\<lparr>sg_ceiling := Some (sg_max_running s)\<rparr> | Some _ \<Rightarrow> s)"

definition reinit_ok :: "fields \<Rightarrow> exn + bool" where
  "reinit_ok r = (case map_of r ''ok'' of None \<Rightarrow> Inl (KeyError ''ok'') | Some v \<Rightarrow> Inr (truthy v))"

definition sg_reinit_part :: "('x, 'z) sglang_env_scheme \<Rightarrow> fields \<Rightarrow> ('x scheduler, verdict) stmt" where
  "sg_reinit_part E args =
     (if reinit_part args = [] then ret (True, [])
      else andthen (se_reinit E (reinit_part args)) (\<lambda>r.
        andthen (of_result (reinit_ok r)) (\<lambda>ok.
        ret (ok, [''trimtab reinit '' @ repr_dict (se_text E) r]))))"

definition sg_knob_setters :: "('x, 'z) sglang_env_scheme \<Rightarrow> (string \<times> (json \<Rightarrow> ('x scheduler, verdict) stmt)) list" where
  "sg_knob_setters E =
     [(''max_running_requests'', sg_set_max_running E), (''max_queued_requests'', sg_set_max_queued E),
      (''chunked_prefill_size'', sg_set_chunk E), (''max_prefill_tokens'', sg_set_max_prefill E),
      (''schedule_policy'', sg_set_policy E), (''schedule_conservativeness'', sg_set_conserv E),
      (''log_level'', sg_set_log E)]"

definition sg_knobs :: "string list" where
  "sg_knobs = [''max_running_requests'', ''max_queued_requests'', ''chunked_prefill_size'', ''max_prefill_tokens'',
     ''schedule_policy'', ''schedule_conservativeness'', ''log_level'']"

text \<open>\<open>_trimtab_apply_hot_knobs\<close>; the keys it does not consume are \<open>left_over\<close>.\<close>

definition apply_hot_knobs :: "('x, 'z) sglang_env_scheme \<Rightarrow> fields \<Rightarrow> ('x scheduler, verdict) stmt" where
  "apply_hot_knobs E args =
     andthen record_ceiling (\<lambda>_.
       all_verdicts (sg_reinit_part E args # map (\<lambda>(k, f). on_arg k args f) (sg_knob_setters E)))"

definition left_over :: "fields \<Rightarrow> fields" where
  "left_over args = filter (\<lambda>(k, v). \<not> is_reinit_key k \<and> k \<notin> set sg_knobs) args"

text \<open>The handler that the injected lines make of \<open>set_internal_state\<close>; its value is \<open>updated\<close>.\<close>

definition set_internal_state :: "('x, 'z) sglang_env_scheme \<Rightarrow> fields \<Rightarrow> ('x scheduler, bool) stmt" where
  "set_internal_state E args =
     andthen (apply_hot_knobs E args) (\<lambda>(ok, msgs).
       if left_over args = [] then ret ok else se_stock E (left_over args))"

section \<open>The read-back\<close>

definition opt_json :: "('a \<Rightarrow> json) \<Rightarrow> 'a option \<Rightarrow> json" where
  "opt_json f x = (case x of None \<Rightarrow> JNull | Some y \<Rightarrow> f y)"

definition sg_ceilings :: "'x scheduler \<Rightarrow> fields" where
  "sg_ceilings s =
     (case sg_ceiling s of None \<Rightarrow> [] | Some c \<Rightarrow> [(''max_running_requests'', JInt c)]) @
     [(''max_prefill_tokens'', JInt (sg_total_tokens s))]"

definition sg_read_back :: "'x scheduler \<Rightarrow> fields" where
  "sg_read_back s =
     [(''max_running_requests'', JInt (sg_max_running s)),
      (''max_queued_requests'', opt_json JInt (sg_max_queued s)),
      (''chunked_prefill_size'', opt_json JInt (sg_chunk s)),
      (''max_prefill_tokens'', JInt (sg_max_prefill s)),
      (''schedule_policy'', JStr (sg_policy s)),
      (''schedule_conservativeness'', opt_json JFloat (sg_conserv s)),
      (''log_level'', opt_json JStr (sg_log s)),
      (''ceilings'', JObj (sg_ceilings s)),
      (''last_reinit'', sg_last_reinit s),
      (''max_total_num_tokens'', JInt (sg_total_tokens s))]"

end
