(* ===== verification/Sglang_Patch_Facts.thy ===== *)
theory Sglang_Patch_Facts
  imports Sglang_Patch Adapter_Contracts
begin

text \<open>
  What the patched SGLang scheduler does with a request: which values each knob admits, that
  every knob is decided on its own, and that the scheduler stays inside its boot allocation.
\<close>

section \<open>Which values a knob admits\<close>

definition int_between :: "int \<Rightarrow> int option \<Rightarrow> json \<Rightarrow> bool" where
  "int_between lo hi v \<longleftrightarrow> is_num v \<and>
     (case int_of v of Inl _ \<Rightarrow> False | Inr i \<Rightarrow> lo \<le> i \<and> (case hi of None \<Rightarrow> True | Some h \<Rightarrow> i \<le> h))"

definition sg_admits :: "('x, 'z) sglang_env_scheme \<Rightarrow> 'x scheduler \<Rightarrow> string \<Rightarrow> json \<Rightarrow> bool" where
  "sg_admits E s k v =
     (if k = ''max_running_requests'' then int_between 1 (Some (boot_ceiling s)) v
      else if k = ''max_queued_requests'' then int_between 0 None v
      else if k = ''chunked_prefill_size'' then int_between 1 None v
      else if k = ''max_prefill_tokens'' then int_between 1 (Some (sg_total_tokens s)) v
      else if k = ''schedule_policy'' then (\<exists>p. se_adjust E (str_json (se_text E) v) (sg_rest s) = Inr p)
      else if k = ''schedule_conservativeness'' then (case num_of v of None \<Rightarrow> False | Some x \<Rightarrow> \<not> f_le x (Fin 0))
      else k = ''log_level'' \<and> upper (str_json (se_text E) v) \<in> set log_levels)"

definition int_knobs :: "string list" where
  "int_knobs = [''max_running_requests'', ''max_queued_requests'', ''chunked_prefill_size'', ''max_prefill_tokens'']"

text \<open>The value a knob reads back after it has admitted \<open>v\<close>.\<close>

definition sg_stored :: "('x, 'z) sglang_env_scheme \<Rightarrow> string \<Rightarrow> json \<Rightarrow> json" where
  "sg_stored E k v =
     (if k \<in> set int_knobs then (case int_of v of Inl _ \<Rightarrow> JNull | Inr i \<Rightarrow> JInt i)
      else if k = ''schedule_policy'' then JStr (str_json (se_text E) v)
      else if k = ''schedule_conservativeness'' then (case float_of (se_rounding E) v of Inl _ \<Rightarrow> JNull | Inr c \<Rightarrow> JFloat c)
      else JStr (upper (str_json (se_text E) v)))"

text \<open>
  Values for which the knob's lines do not raise: numbers that \<open>int\<close> and \<open>float\<close> convert, a
  decay over at least one step, and a policy that SGLang accepts or refuses with a \<open>ValueError\<close>.
\<close>

definition sg_quiet :: "('x, 'z) sglang_env_scheme \<Rightarrow> 'x scheduler \<Rightarrow> string \<Rightarrow> json \<Rightarrow> bool" where
  "sg_quiet E s k v =
     (if k \<in> set int_knobs then is_num v \<longrightarrow> (\<exists>i. int_of v = Inr i)
      else if k = ''schedule_policy'' then
        (\<forall>e. se_adjust E (str_json (se_text E) v) (sg_rest s) = Inl e \<longrightarrow> (\<exists>m. e = ValueError m))
      else if k = ''schedule_conservativeness'' then 
        is_num v \<longrightarrow> (\<exists>c. float_of (se_rounding E) v = Inr c) \<and> se_decay_steps E \<noteq> Fin 0
      else True)"

section \<open>Each knob on its own\<close>

text \<open>A step that moves one entry of the read-back, and nothing that a bound depends on.\<close>

definition moved :: "string \<Rightarrow> json \<Rightarrow> 'x scheduler \<Rightarrow> 'x scheduler \<Rightarrow> bool" where
  "moved k w s s' \<longleftrightarrow>
     sg_ceiling s' = sg_ceiling s \<and> sg_total_tokens s' = sg_total_tokens s \<and> sg_rest s' = sg_rest s \<and>
     map_of (sg_read_back s') = (map_of (sg_read_back s))(k \<mapsto> w)"

definition setter_spec ::
  "('x, 'z) sglang_env_scheme \<Rightarrow> string \<Rightarrow> (json \<Rightarrow> ('x scheduler, verdict) stmt) \<Rightarrow> bool" where
  "setter_spec E k f \<longleftrightarrow>
     (\<forall>v s. sg_ceiling s \<noteq> None \<longrightarrow> sg_quiet E s k v \<longrightarrow>
        (\<exists>m s'. f v s = (Inr (sg_admits E s k v, m), s') \<and>
           (if sg_admits E s k v then moved k (sg_stored E k v) s s' else s' = s)))"

lemma is_num_num_of: "is_num v \<longleftrightarrow> num_of v \<noteq> None"
  by (simp add: is_num_def)

lemma int_knob_spec:
  assumes "is_num v \<Longrightarrow> \<exists>i. int_of v = Inr i"
    and "\<And>i. int_of v = Inr i \<Longrightarrow> moved k (JInt i) s (f i s)"
  shows "\<exists>m s'. int_knob fr k lo hi why f v s = (Inr (int_between lo hi v, m), s') \<and>
    (if int_between lo hi v then moved k (case int_of v of Inl _ \<Rightarrow> JNull | Inr i \<Rightarrow> JInt i) s s' else s' = s)"
proof (cases "is_num v")
  case True
  then obtain i where "int_of v = Inr i" using assms(1) by blast
  then show ?thesis
    using True assms(2) by (auto simp: int_knob_def int_between_def rejected_msg_def applied_msg_def split: option.split)
qed (simp add: int_knob_def int_between_def rejected_msg_def)

lemma read_back_moved:
  "sg_ceiling s \<noteq> None \<Longrightarrow> moved ''max_running_requests'' (JInt i) s (s\<lparr>sg_max_running := i\<rparr>)"
  "moved ''max_queued_requests'' (JInt i) s (s\<lparr>sg_max_queued := Some i\<rparr>)"
  "moved ''chunked_prefill_size'' (JInt i) s (s\<lparr>sg_chunk := Some i\<rparr>)"
  "moved ''max_prefill_tokens'' (JInt i) s (s\<lparr>sg_max_prefill := i\<rparr>)"
  "moved ''schedule_policy'' (JStr p) s (s\<lparr>sg_policy := p, sg_effective := new\<rparr>)"
  "moved ''schedule_conservativeness'' (JFloat c) s (s\<lparr>sg_ratio := t, sg_conserv := Some c\<rparr>)"
  "moved ''log_level'' (JStr l) s (s\<lparr>sg_logger := l, sg_log := Some l\<rparr>)"
  by (simp_all add: moved_def sg_read_back_def sg_ceilings_def opt_json_def fun_eq_iff)

lemma int_setter:
  assumes "k \<in> set int_knobs" and "\<And>i s. sg_ceiling s \<noteq> None \<Longrightarrow> moved k (JInt i) s (g i s)"
    and "\<And>v s. F v s = int_knob fr k lo (hi s) (why s) g v s"
    and "\<And>v s. sg_admits E s k v = int_between lo (hi s) v"
  shows "setter_spec E k F"
  unfolding setter_spec_def
proof (intro allI impI)
  fix v s
  assume c: "sg_ceiling s \<noteq> None" and q: "sg_quiet E s k v"
  have num: "is_num v \<Longrightarrow> \<exists>i. int_of v = Inr i" using q assms(1) by (simp add: sg_quiet_def)
  have stored: "sg_stored E k v = (case int_of v of Inl _ \<Rightarrow> JNull | Inr i \<Rightarrow> JInt i)"
    using assms(1) by (simp add: sg_stored_def)
  show "\<exists>m s'. F v s = (Inr (sg_admits E s k v, m), s') \<and>
    (if sg_admits E s k v then moved k (sg_stored E k v) s s' else s' = s)"
    unfolding assms(3,4) stored by (rule int_knob_spec; (erule num | rule assms(2) [OF c]))
qed

lemma setter_specs:
  "setter_spec E ''max_running_requests'' (sg_set_max_running E)"
  "setter_spec E ''max_queued_requests'' (sg_set_max_queued E)"
  "setter_spec E ''chunked_prefill_size'' (sg_set_chunk E)"
  "setter_spec E ''max_prefill_tokens'' (sg_set_max_prefill E)"
proof -
  have k: "''max_running_requests'' \<in> set int_knobs" "''max_queued_requests'' \<in> set int_knobs"
    "''chunked_prefill_size'' \<in> set int_knobs" "''max_prefill_tokens'' \<in> set int_knobs"
    by (simp_all add: int_knobs_def)
  show "setter_spec E ''max_running_requests'' (sg_set_max_running E)"
    by (rule int_setter [OF k(1) read_back_moved(1) sg_set_max_running_def]) (simp_all add: sg_admits_def)
  show "setter_spec E ''max_queued_requests'' (sg_set_max_queued E)"
    by (rule int_setter [OF k(2) read_back_moved(2) fun_cong [OF fun_cong [OF sg_set_max_queued_def]]])
      (simp add: sg_admits_def)
  show "setter_spec E ''chunked_prefill_size'' (sg_set_chunk E)"
    by (rule int_setter [OF k(3) read_back_moved(3) fun_cong [OF fun_cong [OF sg_set_chunk_def]]])
      (simp add: sg_admits_def)
  show "setter_spec E ''max_prefill_tokens'' (sg_set_max_prefill E)"
    by (rule int_setter [OF k(4) read_back_moved(4) sg_set_max_prefill_def]) (simp add: sg_admits_def)
qed

lemma setter_spec_policy: "setter_spec E ''schedule_policy'' (sg_set_policy E)"
  unfolding setter_spec_def
proof (intro allI impI)
  fix v s
  assume q: "sg_quiet E s ''schedule_policy'' v"
  let ?p = "str_json (se_text E) v"
  have k: "''schedule_policy'' \<notin> set int_knobs" by (simp add: int_knobs_def)
  have stored: "sg_stored E ''schedule_policy'' v = JStr ?p" by (simp add: sg_stored_def int_knobs_def)
  have admits: "sg_admits E s ''schedule_policy'' v \<longleftrightarrow> (\<exists>p. se_adjust E ?p (sg_rest s) = Inr p)"
    by (simp add: sg_admits_def)
  show "\<exists>m s'. sg_set_policy E v s = (Inr (sg_admits E s ''schedule_policy'' v, m), s') \<and>
    (if sg_admits E s ''schedule_policy'' v then moved ''schedule_policy'' (sg_stored E ''schedule_policy'' v) s s' else s' = s)"
  proof (cases "se_adjust E ?p (sg_rest s)")
    case (Inl e)
    then obtain m where "e = ValueError m" using q k by (auto simp: sg_quiet_def)
    then show ?thesis using Inl admits by (simp add: sg_set_policy_def rejected_msg_def)
  next
    case (Inr new)
    then show ?thesis using admits stored read_back_moved(5) by (simp add: sg_set_policy_def applied_msg_def Let_def)
  qed
qed

lemma setter_spec_log: "setter_spec E ''log_level'' (sg_set_log E)"
  unfolding setter_spec_def
proof (intro allI impI)
  fix v s
  let ?k = "''log_level''" and ?l = "upper (str_json (se_text E) v)"
  have stored: "sg_stored E ?k v = JStr ?l" and admits: "sg_admits E s ?k v \<longleftrightarrow> ?l \<in> set log_levels"
    by (simp_all add: sg_stored_def sg_admits_def int_knobs_def)
  show "\<exists>m s'. sg_set_log E v s = (Inr (sg_admits E s ?k v, m), s') \<and>
    (if sg_admits E s ?k v then moved ?k (sg_stored E ?k v) s s' else s' = s)"
    using read_back_moved(7)
    by (cases "?l \<in> set log_levels") (simp_all add: stored admits sg_set_log_def rejected_msg_def applied_msg_def Let_def)
qed

lemma f_div_ok: "b \<noteq> Fin 0 \<Longrightarrow> \<exists>x. f_div rnd a b = Inr x"
  by (cases b) auto

lemma setter_spec_conserv: "setter_spec E ''schedule_conservativeness'' (sg_set_conserv E)"
  unfolding setter_spec_def
proof (intro allI impI)
  fix v s
  assume q: "sg_quiet E s ''schedule_conservativeness'' v"
  let ?k = "''schedule_conservativeness''"
  have k: "?k \<notin> set int_knobs" by (simp add: int_knobs_def)
  have admits: "sg_admits E s ?k v \<longleftrightarrow> (case num_of v of None \<Rightarrow> False | Some x \<Rightarrow> \<not> f_le x (Fin 0))"
    by (simp add: sg_admits_def)
  show "\<exists>m s'. sg_set_conserv E v s = (Inr (sg_admits E s ?k v, m), s') \<and>
    (if sg_admits E s ?k v then moved ?k (sg_stored E ?k v) s s' else s' = s)"
  proof (cases "sg_admits E s ?k v")
    case False
    then show ?thesis using admits by (auto simp: sg_set_conserv_def rejected_msg_def split: option.splits)
  next
    case True
    then obtain x where x: "num_of v = Some x" "\<not> f_le x (Fin 0)" using admits by (auto split: option.splits)
    then have num: "is_num v" by (simp add: is_num_num_of)
    obtain c where c: "float_of (se_rounding E) v = Inr c" and d: "se_decay_steps E \<noteq> Fin 0"
      using q k num by (auto simp: sg_quiet_def)
    have "\<exists>t. rebuilt_ratio E c r = (Inr (), t)" for r
      using f_div_ok [OF d] by (auto simp: rebuilt_ratio_def Let_def split: sum.split) (metis Inl_not_Inr)
    then obtain t where t: "rebuilt_ratio E c (sg_ratio s) = (Inr (), t)" by blast
    have "sg_stored E ?k v = JFloat c" using c by (simp add: sg_stored_def int_knobs_def)
    then show ?thesis using True x c t read_back_moved(6) by (simp add: sg_set_conserv_def applied_msg_def)
  qed
qed

lemma all_setters: "(k, f) \<in> set (sg_knob_setters E) \<Longrightarrow> setter_spec E k f"
  using setter_specs [of E] setter_spec_policy [of E] setter_spec_conserv [of E] setter_spec_log [of E]
  by (auto simp: sg_knob_setters_def)

lemma keys_setters: "keys (sg_knob_setters E) = sg_knobs"
  by (simp add: sg_knob_setters_def sg_knobs_def)

section \<open>A whole request\<close>

lemma moved_limits:
  assumes "moved k0 w s s'" and "sg_ceiling s \<noteq> None"
  shows "sg_admits E s' = sg_admits E s" and "sg_quiet E s' = sg_quiet E s"
proof -
  have s: "boot_ceiling s' = boot_ceiling s" "sg_total_tokens s' = sg_total_tokens s" "sg_rest s' = sg_rest s"
    using assms by (auto simp: moved_def boot_ceiling_def)
  show "sg_admits E s' = sg_admits E s" by (intro ext) (simp only: sg_admits_def s)
  show "sg_quiet E s' = sg_quiet E s" by (intro ext) (simp only: sg_quiet_def s)
qed

definition slot_after :: "('x, 'z) sglang_env_scheme \<Rightarrow> fields \<Rightarrow> 'x scheduler \<Rightarrow> string \<Rightarrow> json option" where
  "slot_after E args s k =
     (case map_of args k of
        None \<Rightarrow> map_of (sg_read_back s) k
      | Some v \<Rightarrow> if sg_admits E s k v then Some (sg_stored E k v) else map_of (sg_read_back s) k)"

lemma run_setters:
  assumes "\<And>k f. (k, f) \<in> set kfs \<Longrightarrow> setter_spec E k f" and "distinct (keys kfs)"
    and "sg_ceiling s \<noteq> None" and "\<And>k v. k \<in> set (keys kfs) \<Longrightarrow> map_of args k = Some v \<Longrightarrow> sg_quiet E s k v"
  shows "\<exists>m s'. all_verdicts (map (\<lambda>(k, f). on_arg k args f) kfs) s =
      (Inr (\<forall>k \<in> set (keys kfs). \<forall>v. map_of args k = Some v \<longrightarrow> sg_admits E s k v, m), s') \<and>
    sg_ceiling s' = sg_ceiling s \<and> sg_total_tokens s' = sg_total_tokens s \<and> sg_rest s' = sg_rest s \<and>
    (\<forall>k. map_of (sg_read_back s') k = (if k \<in> set (keys kfs) then slot_after E args s k else map_of (sg_read_back s) k))"
  using assms
proof (induction kfs arbitrary: s)
  case Nil
  then show ?case by simp
next
  case (Cons p kfs)
  obtain k0 f where p: "p = (k0, f)" by (cases p)
  have k0: "k0 \<notin> set (keys kfs)" and dist: "distinct (keys kfs)" using Cons.prems(2) p by auto
  have spec: "setter_spec E k0 f" using Cons.prems(1) p by simp
  have rest: "\<And>k f. (k, f) \<in> set kfs \<Longrightarrow> setter_spec E k f" using Cons.prems(1) by simp
  show ?case
  proof (cases "map_of args k0")
    case None
    have run: "on_arg k0 args f s = (Inr (True, []), s)" using None by (simp add: on_arg_def)
    from Cons.IH [OF rest dist Cons.prems(3)] Cons.prems(4)
    obtain m s' where IH: "all_verdicts (map (\<lambda>(k, f). on_arg k args f) kfs) s =
        (Inr (\<forall>k \<in> set (keys kfs). \<forall>v. map_of args k = Some v \<longrightarrow> sg_admits E s k v, m), s')"
      "sg_ceiling s' = sg_ceiling s \<and> sg_total_tokens s' = sg_total_tokens s \<and> sg_rest s' = sg_rest s"
      "\<forall>k. map_of (sg_read_back s') k = (if k \<in> set (keys kfs) then slot_after E args s k else map_of (sg_read_back s) k)"
      by auto
    then show ?thesis using None p run k0 by (auto simp: andthen_def slot_after_def)
  next
    case (Some v)
    have q: "sg_quiet E s k0 v" using Cons.prems(4) Some p by simp
    obtain m0 s0 where f: "f v s = (Inr (sg_admits E s k0 v, m0), s0)"
      and s0: "if sg_admits E s k0 v then moved k0 (sg_stored E k0 v) s s0 else s0 = s"
      using spec Cons.prems(3) q unfolding setter_spec_def by blast
    have run: "on_arg k0 args f s = (Inr (sg_admits E s k0 v, m0), s0)" using Some f by (simp add: on_arg_def)
    have same: "sg_admits E s0 = sg_admits E s" "sg_quiet E s0 = sg_quiet E s" "sg_ceiling s0 \<noteq> None"
      "sg_ceiling s0 = sg_ceiling s" "sg_total_tokens s0 = sg_total_tokens s" "sg_rest s0 = sg_rest s"
      using s0 moved_limits [of k0 "sg_stored E k0 v" s s0 E] Cons.prems(3) by (auto simp: moved_def split: if_splits)
    have slot0: "map_of (sg_read_back s0) k = (if k = k0 then slot_after E args s k0 else map_of (sg_read_back s) k)" for k
      using s0 Some by (auto simp: moved_def slot_after_def split: if_splits)
    from Cons.IH [OF rest dist same(3)] Cons.prems(4)
    obtain m s' where IH: "all_verdicts (map (\<lambda>(k, f). on_arg k args f) kfs) s0 =
        (Inr (\<forall>k \<in> set (keys kfs). \<forall>v. map_of args k = Some v \<longrightarrow> sg_admits E s0 k v, m), s')"
      "sg_ceiling s' = sg_ceiling s0 \<and> sg_total_tokens s' = sg_total_tokens s0 \<and> sg_rest s' = sg_rest s0"
      "\<forall>k. map_of (sg_read_back s') k = (if k \<in> set (keys kfs) then slot_after E args s0 k else map_of (sg_read_back s0) k)"
      using same(2) by auto
    have "slot_after E args s0 k = slot_after E args s k" if "k \<in> set (keys kfs)" for k
      using that k0 slot0 same(1) by (auto simp: slot_after_def split: option.split)
    then show ?thesis using IH same p run k0 slot0 Some by (auto simp: andthen_def)
  qed
qed

lemma record_ceiling_facts:
  "record_ceiling s = (Inr (), snd (record_ceiling s))" "sg_ceiling (snd (record_ceiling s)) = Some (boot_ceiling s)"
  "boot_ceiling (snd (record_ceiling s)) = boot_ceiling s"
  "sg_admits E (snd (record_ceiling s)) = sg_admits E s" "sg_quiet E (snd (record_ceiling s)) = sg_quiet E s"
  "k \<in> set sg_knobs \<Longrightarrow> map_of (sg_read_back (snd (record_ceiling s))) k = map_of (sg_read_back s) k"
  "sg_total_tokens (snd (record_ceiling s)) = sg_total_tokens s" "sg_rest (snd (record_ceiling s)) = sg_rest s"
proof -
  show b: "boot_ceiling (snd (record_ceiling s)) = boot_ceiling s"
    by (simp add: record_ceiling_def boot_ceiling_def split: option.split)
  show t: "sg_total_tokens (snd (record_ceiling s)) = sg_total_tokens s" "sg_rest (snd (record_ceiling s)) = sg_rest s"
    by (simp_all add: record_ceiling_def split: option.split)
  show "sg_admits E (snd (record_ceiling s)) = sg_admits E s" by (intro ext) (simp only: sg_admits_def b t)
  show "sg_quiet E (snd (record_ceiling s)) = sg_quiet E s" by (intro ext) (simp only: sg_quiet_def t)
  show "k \<in> set sg_knobs \<Longrightarrow> map_of (sg_read_back (snd (record_ceiling s))) k = map_of (sg_read_back s) k"
    by (auto simp: record_ceiling_def sg_read_back_def sg_knobs_def split: option.split)
qed (simp_all add: record_ceiling_def boot_ceiling_def split: option.split)

lemma apply_hot_knobs_run:
  assumes "reinit_part args = []" and "\<And>k v. k \<in> set sg_knobs \<Longrightarrow> map_of args k = Some v \<Longrightarrow> sg_quiet E s k v"
  shows "\<exists>m s'. apply_hot_knobs E args s =
      (Inr (\<forall>k \<in> set sg_knobs. \<forall>v. map_of args k = Some v \<longrightarrow> sg_admits E s k v, m), s') \<and>
    boot_ceiling s' = boot_ceiling s \<and> sg_total_tokens s' = sg_total_tokens s \<and> sg_rest s' = sg_rest s \<and>
    (\<forall>k \<in> set sg_knobs. map_of (sg_read_back s') k = slot_after E args s k)"
proof -
  let ?s = "snd (record_ceiling s)"
  note rec = record_ceiling_facts(2,3,6-8) [where s = s] record_ceiling_facts(4,5) [where E = E and s = s]
  have "distinct (keys (sg_knob_setters E))" by (simp add: keys_setters sg_knobs_def)
  from run_setters [OF all_setters this, of E ?s args] assms(2)
  obtain m s' where run: "all_verdicts (map (\<lambda>(k, f). on_arg k args f) (sg_knob_setters E)) ?s =
      (Inr (\<forall>k \<in> set sg_knobs. \<forall>v. map_of args k = Some v \<longrightarrow> sg_admits E s k v, m), s')"
    and s': "sg_ceiling s' = sg_ceiling ?s" "sg_total_tokens s' = sg_total_tokens ?s" "sg_rest s' = sg_rest ?s"
      "\<forall>k. map_of (sg_read_back s') k = (if k \<in> set sg_knobs then slot_after E args ?s k else map_of (sg_read_back ?s) k)"
    by (auto simp: keys_setters rec)
  have applied: "apply_hot_knobs E args s =
      (Inr (\<forall>k \<in> set sg_knobs. \<forall>v. map_of args k = Some v \<longrightarrow> sg_admits E s k v, m), s')"
    unfolding apply_hot_knobs_def andthen_Inr [OF record_ceiling_facts(1)]
    using run by (simp add: sg_reinit_part_def assms(1) andthen_def)
  have ceiling: "boot_ceiling s' = boot_ceiling s" using s'(1) rec(1) by (simp add: boot_ceiling_def)
  have slots: "map_of (sg_read_back s') k = slot_after E args s k" if "k \<in> set sg_knobs" for k
    using that s'(4) rec(3) [of k] by (simp add: slot_after_def rec split: option.split)
  show ?thesis
    by (intro exI conjI ballI, rule applied, rule ceiling) (simp_all add: s'(2,3) rec(4,5) slots)
qed

section \<open>The scheduler stays inside its allocation\<close>

definition sg_safe :: "'x scheduler \<Rightarrow> bool" where
  "sg_safe s \<longleftrightarrow>
     1 \<le> sg_max_running s \<and> sg_max_running s \<le> boot_ceiling s \<and>
     1 \<le> sg_max_prefill s \<and> sg_max_prefill s \<le> sg_total_tokens s \<and>
     (\<forall>i. sg_max_queued s = Some i \<longrightarrow> 0 \<le> i) \<and> (\<forall>i. sg_chunk s = Some i \<longrightarrow> 0 < i) \<and>
     (\<forall>l. sg_log s = Some l \<longrightarrow> l \<in> set log_levels)"

definition sg_keeps :: "('x scheduler, 'a) stmt \<Rightarrow> bool" where
  "sg_keeps m \<longleftrightarrow> (\<forall>s. sg_safe s \<and> sg_ceiling s \<noteq> None \<longrightarrow> sg_safe (snd (m s)) \<and> sg_ceiling (snd (m s)) \<noteq> None)"

lemma sg_keeps_andthen: "sg_keeps m \<Longrightarrow> (\<And>x. sg_keeps (f x)) \<Longrightarrow> sg_keeps (andthen m f)"
  by (auto simp: sg_keeps_def andthen_def split: prod.split sum.split)

lemma sg_keeps_ret [simp]: "sg_keeps (ret x)" "sg_keeps (of_result r)"
  by (simp_all add: sg_keeps_def)

lemma sg_keeps_int:
  assumes "\<And>i s. sg_safe s \<Longrightarrow> sg_ceiling s \<noteq> None \<Longrightarrow> lo \<le> i \<Longrightarrow> (\<forall>h. hi s = Some h \<longrightarrow> i \<le> h) \<Longrightarrow>
      sg_safe (f i s) \<and> sg_ceiling (f i s) \<noteq> None"
  shows "sg_keeps (\<lambda>s. int_knob fr k lo (hi s) (why s) f v s)"
  using assms by (auto simp: sg_keeps_def int_knob_def not_less split: sum.split option.split)

lemma sg_keeps_setters: "(k, f) \<in> set (sg_knob_setters E) \<Longrightarrow> sg_keeps (f v)"
proof -
  have "sg_keeps (sg_set_max_running E v)"
    unfolding sg_set_max_running_def by (rule sg_keeps_int) (auto simp: sg_safe_def boot_ceiling_def)
  moreover have "sg_keeps (sg_set_max_queued E v)"
    unfolding sg_set_max_queued_def
    by (rule sg_keeps_int [where hi = "\<lambda>_. None" and why = "\<lambda>_. ''must be >= 0''"])
      (auto simp: sg_safe_def boot_ceiling_def)
  moreover have "sg_keeps (sg_set_chunk E v)"
    unfolding sg_set_chunk_def
    by (rule sg_keeps_int [where hi = "\<lambda>_. None" and why = "\<lambda>_. ''must be > 0''"])
      (auto simp: sg_safe_def boot_ceiling_def)
  moreover have "sg_keeps (sg_set_max_prefill E v)"
    unfolding sg_set_max_prefill_def by (rule sg_keeps_int) (auto simp: sg_safe_def boot_ceiling_def)
  moreover have "sg_keeps (sg_set_policy E v)"
    by (auto simp: sg_keeps_def sg_set_policy_def sg_safe_def boot_ceiling_def Let_def split: sum.split exn.split)
  moreover have "sg_keeps (sg_set_conserv E v)"
    by (auto simp: sg_keeps_def sg_set_conserv_def sg_safe_def boot_ceiling_def
        split: sum.split option.split prod.split)
  moreover have "sg_keeps (sg_set_log E v)"
    by (auto simp: sg_keeps_def sg_set_log_def sg_safe_def boot_ceiling_def Let_def)
  ultimately show "(k, f) \<in> set (sg_knob_setters E) \<Longrightarrow> sg_keeps (f v)"
    unfolding sg_knob_setters_def by auto
qed

lemma sg_keeps_all: "(\<And>m. m \<in> set ms \<Longrightarrow> sg_keeps m) \<Longrightarrow> sg_keeps (all_verdicts ms)"
  by (induction ms) (auto intro!: sg_keeps_andthen simp: case_prod_beta)

text \<open>The two calls out of the injected code, taken to leave the scheduler inside its allocation.\<close>

definition calls_safe :: "('x, 'z) sglang_env_scheme \<Rightarrow> bool" where
  "calls_safe E \<longleftrightarrow> (\<forall>flds. sg_keeps (se_reinit E flds)) \<and> (\<forall>args. sg_keeps (se_stock E args))"

lemma sg_keeps_request:
  assumes "calls_safe E" and "sg_safe s"
  shows "sg_safe (snd (set_internal_state E args s))"
proof -
  have reinit: "sg_keeps (sg_reinit_part E args)"
    using assms(1) by (auto simp: sg_reinit_part_def calls_safe_def intro!: sg_keeps_andthen)
  have knobs: "sg_keeps (on_arg k args f)" if "(k, f) \<in> set (sg_knob_setters E)" for k f
    using sg_keeps_setters [OF that] by (simp add: on_arg_def split: option.split)
  have all: "sg_keeps (all_verdicts (sg_reinit_part E args # map (\<lambda>(k, f). on_arg k args f) (sg_knob_setters E)))"
    by (rule sg_keeps_all) (use reinit knobs in auto)
  have stock: "sg_keeps (if left_over args = [] then ret ok else se_stock E (left_over args))" for ok
    using assms(1) by (simp add: calls_safe_def)
  have "sg_keeps (andthen (all_verdicts (sg_reinit_part E args # map (\<lambda>(k, f). on_arg k args f) (sg_knob_setters E)))
      (\<lambda>(ok, msgs). if left_over args = [] then ret ok else se_stock E (left_over args)))" (is "sg_keeps ?m")
    by (rule sg_keeps_andthen [OF all]) (use stock in \<open>simp add: case_prod_beta\<close>)
  note keep = this [unfolded sg_keeps_def, THEN spec, THEN mp]
  have start: "sg_safe (snd (record_ceiling s)) \<and> sg_ceiling (snd (record_ceiling s)) \<noteq> None"
    using assms(2) record_ceiling_facts(2,3) [of s]
    by (simp add: record_ceiling_def sg_safe_def boot_ceiling_def split: option.splits)
  have run: "set_internal_state E args s = ?m (snd (record_ceiling s))"
    unfolding set_internal_state_def apply_hot_knobs_def andthen_assoc andthen_Inr [OF record_ceiling_facts(1)] ..
  show ?thesis unfolding run by (rule conjunct1 [OF keep [OF start]])
qed

fun sg_serve :: "('x, 'z) sglang_env_scheme \<Rightarrow> fields list \<Rightarrow> 'x scheduler \<Rightarrow> 'x scheduler" where
  "sg_serve E [] s = s"
| "sg_serve E (args # rs) s = sg_serve E rs (snd (set_internal_state E args s))"

lemma sg_safe_serve: "calls_safe E \<Longrightarrow> sg_safe s \<Longrightarrow> sg_safe (sg_serve E rs s)"
  by (induction rs arbitrary: s) (simp_all add: sg_keeps_request)

section \<open>Properties\<close>

definition demo_env :: "unit sglang_env" where
  "demo_env =
     \<lparr>se_rounding = Fin, se_text = \<lambda>_. ''1'', se_3f = \<lambda>_. ''1'',
      se_adjust = \<lambda>p _. if p \<in> {''fcfs'', ''lpm''} then Inr p else Inl (ValueError ''unknown policy''),
      se_init_ratio = Fin (7 / 10), se_min_factor = Fin (14 / 100), se_decay_steps = Fin 600,
      se_reinit = \<lambda>_. ret [(''ok'', JBool False)], se_stock = \<lambda>_. ret False\<rparr>"

definition demo_scheduler :: "unit scheduler" where
  "demo_scheduler =
     \<lparr>sg_max_running = 64, sg_max_queued = None, sg_chunk = Some 8, sg_max_prefill = 16, sg_total_tokens = 32,
      sg_policy = ''fcfs'', sg_effective = ''fcfs'',
      sg_ratio = \<lparr>t_init = Fin 1, t_min = Fin 1, t_decay = Fin 0, t_current = Fin 1\<rparr>,
      sg_ceiling = None, sg_conserv = None, sg_log = None, sg_logger = ''INFO'', sg_last_reinit = JNull, sg_rest = ()\<rparr>"





end
