(* ===== verification/Sglang_Mirror.thy ===== *)
theory Sglang_Mirror
  imports Sglang_Patch_Facts
begin

text \<open>
  The mock engine against the patched scheduler: on hot requests the engine that the repository's
  tests run against gives the verdict the patched SGLang gives, and moves its knobs to the same
  values. What is proved of the daemons on the mock is by this about the scheduler it stands for.
\<close>

section \<open>The level of the log\<close>

lemma log_level_case: "lower s \<in> set (map lower log_levels) \<longleftrightarrow> upper s \<in> set log_levels"
proof -
  have up: "upper l = l" if "l \<in> set log_levels" for l
    using that by (auto simp: log_levels_def upper_def upper_char_def)
  show ?thesis
  proof
    assume "lower s \<in> set (map lower log_levels)"
    then obtain l where l: "l \<in> set log_levels" "lower s = lower l" by auto
    then have "upper s = upper l" by (metis lower_upper(2))
    then show "upper s \<in> set log_levels" using l up by simp
  next
    assume "upper s \<in> set log_levels"
    then show "lower s \<in> set (map lower log_levels)" by (metis image_eqI list.set_map lower_upper(1))
  qed
qed


section \<open>The two engines side by side\<close>

text \<open>
  The mock's knobs are the scheduler's read-back, and its ceilings the scheduler's; a knob the
  scheduler has not been told yet (\<open>None\<close> in the read-back) may have any value in the mock.
\<close>

definition mirrors :: "mock \<Rightarrow> 'x scheduler \<Rightarrow> bool" where
  "mirrors m s \<longleftrightarrow>
     set (keys (mk_knobs m)) = set sg_knobs \<and>
     map_of (mk_ceilings m) = [''max_running_requests'' \<mapsto> boot_ceiling s, ''max_prefill_tokens'' \<mapsto> sg_total_tokens s] \<and>
     (\<forall>k \<in> set sg_knobs. map_of (sg_read_back s) k \<noteq> Some JNull \<longrightarrow> map_of (mk_knobs m) k = map_of (sg_read_back s) k)"

text \<open>SGLang's own validation of a policy accepts the policies the mock lists.\<close>

definition policies :: "string list" where
  "policies = [''fcfs'', ''lpm'', ''dfs-weight'', ''lof'', ''random'', ''priority'']"

definition policy_agrees :: "('x, 'z) sglang_env_scheme \<Rightarrow> 'x scheduler \<Rightarrow> bool" where
  "policy_agrees E s \<longleftrightarrow>
     (\<forall>p. (\<exists>new. se_adjust E p (sg_rest s) = Inr new) = (lower p \<in> set (map lower policies)))"

lemma choices_of:
  "map_of str_choices ''schedule_policy'' = Some policies" "map_of str_choices ''log_level'' = Some log_levels"
  "k \<in> set int_knobs \<Longrightarrow> map_of str_choices k = None" "map_of str_choices ''schedule_conservativeness'' = None"
  by (auto simp: str_choices_def policies_def log_levels_def int_knobs_def)

lemma sg_knobs_parts:
  "sg_knobs = int_knobs @ [''schedule_policy'', ''schedule_conservativeness'', ''log_level'']"
  by (simp add: sg_knobs_def int_knobs_def)

lemma mirror_value:
  assumes "mirrors m s" and "policy_agrees E s" and "k \<in> set sg_knobs" and "sg_quiet E s k v"
  shows "\<exists>x. apply_value (se_rounding E) (se_text E) m k v = Inr x \<and>
    (if sg_admits E s k v then x = Inr (sg_stored E k v) else \<exists>w. x = Inl w)"
proof -
  have known: "k \<in> set (keys (mk_knobs m))" using assms(1,3) by (simp add: mirrors_def)
  have hi: "map_of (mk_ceilings m) k =
      (if k = ''max_running_requests'' then Some (boot_ceiling s)
       else if k = ''max_prefill_tokens'' then Some (sg_total_tokens s) else None)"
    using assms(1) by (simp add: mirrors_def)
  have "k \<in> set int_knobs \<or> k = ''schedule_policy'' \<or> k = ''schedule_conservativeness'' \<or> k = ''log_level''"
    using assms(3) unfolding sg_knobs_parts set_append by (simp only: Un_iff list.set insert_iff empty_iff simp_thms)
  then consider (int) "k \<in> set int_knobs" | (policy) "k = ''schedule_policy''" | (conserv) "k = ''schedule_conservativeness''"
    | (log) "k = ''log_level''"
    by blast
  then show ?thesis
  proof cases
    case int
    have quiet: "is_num v \<Longrightarrow> \<exists>i. int_of v = Inr i" using assms(4) int by (simp add: sg_quiet_def)
    have lo: "(k = ''max_queued_requests'' \<or> k = ''long_prefill_token_threshold'') = (k = ''max_queued_requests'')"
      using int by (auto simp: int_knobs_def)
    have admits: "sg_admits E s k v = int_between (if k = ''max_queued_requests'' then 0 else 1) (map_of (mk_ceilings m) k) v"
      using int by (auto simp: sg_admits_def hi int_knobs_def)
    have stored: "sg_stored E k v = (case int_of v of Inl _ \<Rightarrow> JNull | Inr i \<Rightarrow> JInt i)"
      using int by (simp add: sg_stored_def)
    have other: "k \<noteq> ''schedule_conservativeness''" using int by (auto simp: int_knobs_def)
    show ?thesis
    proof (cases "is_num v")
      case False
      then show ?thesis
        using known other by (simp add: apply_value_def choices_of(3) [OF int] admits int_between_def Let_def)
    next
      case True
      then obtain i where "int_of v = Inr i" using quiet by blast
      then show ?thesis
        using known other True
        by (auto simp: apply_value_def choices_of(3) [OF int] admits stored int_between_def lo Let_def split: option.splits)
    qed
  next
    case policy
    have "sg_admits E s k v \<longleftrightarrow> lower (str_json (se_text E) v) \<in> set (map lower policies)"
      using assms(2) by (simp add: policy sg_admits_def policy_agrees_def)
    moreover have "sg_stored E k v = JStr (str_json (se_text E) v)" by (simp add: policy sg_stored_def int_knobs_def)
    ultimately show ?thesis using known by (auto simp: policy apply_value_def choices_of(1))
  next
    case log
    have "sg_admits E s k v \<longleftrightarrow> lower (str_json (se_text E) v) \<in> set (map lower log_levels)"
      unfolding log_level_case by (simp add: log sg_admits_def)
    moreover have "sg_stored E k v = JStr (upper (str_json (se_text E) v))" by (simp add: log sg_stored_def int_knobs_def)
    ultimately show ?thesis using known by (auto simp: log apply_value_def choices_of(2))
  next
    case conserv
    have admits: "sg_admits E s k v \<longleftrightarrow> (case num_of v of None \<Rightarrow> False | Some x \<Rightarrow> \<not> f_le x (Fin 0))"
      by (simp add: conserv sg_admits_def)
    have stored: "sg_stored E k v = (case float_of (se_rounding E) v of Inl _ \<Rightarrow> JNull | Inr c \<Rightarrow> JFloat c)"
      by (simp add: conserv sg_stored_def int_knobs_def)
    show ?thesis
    proof (cases "num_of v")
      case None
      then show ?thesis using known by (simp add: conserv apply_value_def choices_of(4) admits [unfolded conserv])
    next
      case (Some x)
      then have "\<exists>c. float_of (se_rounding E) v = Inr c"
        using assms(4) by (auto simp: conserv sg_quiet_def int_knobs_def is_num_num_of)
      then show ?thesis
        using known Some by (auto simp: conserv apply_value_def choices_of(4) admits [unfolded conserv] stored [unfolded conserv])
    qed
  qed
qed

lemma dset_nonempty: "dset k v d \<noteq> []"
  by (metis keys_Nil keys_dset_nonempty)

lemma apply_loop_pointwise:
  assumes "wf_dict cs" and "\<And>k v. (k, v) \<in> set cs \<Longrightarrow> \<exists>x. apply_value rnd fr m k v = Inr x"
  shows "\<exists>a' r' m'. apply_loop rnd fr cs a r m = (Inr (a', r'), m') \<and>
    (r' = [] \<longleftrightarrow> r = [] \<and> (\<forall>(k, v) \<in> set cs. \<exists>w. apply_value rnd fr m k v = Inr (Inr w))) \<and>
    (\<forall>k v. (k, v) \<in> set cs \<longrightarrow> map_of (mk_knobs m') k =
      (case apply_value rnd fr m k v of Inr (Inr w) \<Rightarrow> Some w | _ \<Rightarrow> map_of (mk_knobs m) k))"
  using assms
proof (induction cs arbitrary: a r m)
  case Nil
  then show ?case by simp
next
  case (Cons p cs)
  obtain k v where p: "p = (k, v)" by (cases p)
  have k: "k \<notin> set (keys cs)" and wf: "wf_dict cs" using Cons.prems(1) p by simp_all
  obtain x where x: "apply_value rnd fr m k v = Inr x" using Cons.prems(2) p by auto
  define m1 where "m1 = (case x of Inl _ \<Rightarrow> m | Inr w \<Rightarrow> set_knob k w m)"
  define a1 where "a1 = (case x of Inl _ \<Rightarrow> a | Inr w \<Rightarrow> dset k w a)"
  define r1 where "r1 = (case x of Inl reason \<Rightarrow> dset k (JStr reason) r | Inr _ \<Rightarrow> r)"
  have run: "apply_loop rnd fr ((k, v) # cs) a r m = apply_loop rnd fr cs a1 r1 m1"
    using x by (simp add: m1_def a1_def r1_def split: sum.split)
  have same: "apply_value rnd fr m1 = apply_value rnd fr m"
  proof (cases x)
    case (Inr w)
    then show ?thesis
      using apply_value_known [of rnd fr m k v w] x
      by (intro apply_value_cong) (simp_all add: m1_def set_knob_keys, simp add: set_knob_def)
  qed (simp add: m1_def)
  have slot: "map_of (mk_knobs m1) k' = (if k' = k then (case x of Inr w \<Rightarrow> Some w | _ \<Rightarrow> map_of (mk_knobs m) k)
      else map_of (mk_knobs m) k')" for k'
    by (auto simp: m1_def set_knob_def split: sum.split)
  have r1: "r1 = [] \<longleftrightarrow> r = [] \<and> (\<exists>w. x = Inr w)"
    using dset_nonempty by (auto simp: r1_def split: sum.split)
  have vals: "\<And>k v. (k, v) \<in> set cs \<Longrightarrow> \<exists>x. apply_value rnd fr m1 k v = Inr x"
    using Cons.prems(2) same by simp
  from Cons.IH [OF wf vals, of a1 r1]
  obtain a' r' m' where IH: "apply_loop rnd fr cs a1 r1 m1 = (Inr (a', r'), m')"
    "r' = [] \<longleftrightarrow> r1 = [] \<and> (\<forall>(k, v) \<in> set cs. \<exists>w. apply_value rnd fr m1 k v = Inr (Inr w))"
    "\<forall>k v. (k, v) \<in> set cs \<longrightarrow> map_of (mk_knobs m') k =
      (case apply_value rnd fr m1 k v of Inr (Inr w) \<Rightarrow> Some w | _ \<Rightarrow> map_of (mk_knobs m1) k)"
    by blast
  have k_after: "map_of (mk_knobs m') k = map_of (mk_knobs m1) k"
    using apply_loop_frame [OF k, of rnd fr a1 r1 m1] IH(1) by simp
  have others: "map_of (mk_knobs m1) k' = map_of (mk_knobs m) k'" if "(k', v') \<in> set cs" for k' v'
    using slot that k in_keysI by metis
  have all: "r' = [] \<longleftrightarrow> r = [] \<and> (\<forall>(k, v) \<in> set (p # cs). \<exists>w. apply_value rnd fr m k v = Inr (Inr w))"
    using IH(2) r1 x p same by auto
  have each: "map_of (mk_knobs m') k' = (case apply_value rnd fr m k' v' of Inr (Inr w) \<Rightarrow> Some w | _ \<Rightarrow> map_of (mk_knobs m) k')"
    if "(k', v') \<in> set (p # cs)" for k' v'
  proof (cases "(k', v') \<in> set cs")
    case True
    then show ?thesis using IH(3) others [OF True] same by (simp split: sum.split)
  next
    case False
    then have "k' = k" "v' = v" using that p by auto
    then show ?thesis using k_after slot x by (simp split: sum.split)
  qed
  show ?case using run IH(1) all each p by auto
qed

lemma mock_hot_request:
  assumes "mk_engine m = ''sglang''" and "hot_changes args"
    and "\<And>k v. map_of args k = Some v \<Longrightarrow> \<exists>x. apply_value rnd fr m k v = Inr x"
  shows "\<exists>m'. mock_post rnd fr ''/set_internal_state'' (JObj [(''server_args'', JObj args)]) m =
      (Inr (200, JArr [JBool (\<forall>k v. map_of args k = Some v \<longrightarrow> (\<exists>w. apply_value rnd fr m k v = Inr (Inr w)))]), m') \<and>
    keys (mk_knobs m') = keys (mk_knobs m) \<and> mk_ceilings m' = mk_ceilings m \<and>
    (\<forall>k. map_of (mk_knobs m') k = (case map_of args k of
        None \<Rightarrow> map_of (mk_knobs m) k
      | Some v \<Rightarrow> (case apply_value rnd fr m k v of Inr (Inr w) \<Rightarrow> Some w | _ \<Rightarrow> map_of (mk_knobs m) k)))"
proof -
  have wf: "wf_dict args" using assms(2) by (simp add: hot_changes_def)
  have mem: "(k, v) \<in> set args \<longleftrightarrow> map_of args k = Some v" for k v
    using map_of_wf [OF wf] map_of_SomeD by metis
  have vals: "\<And>k v. (k, v) \<in> set args \<Longrightarrow> \<exists>x. apply_value rnd fr m k v = Inr x"
    using assms(3) mem by blast
  from apply_loop_pointwise [OF wf vals, of "[]" "[]"]
  obtain a r m1 where loop: "apply_loop rnd fr args [] [] m = (Inr (a, r), m1)"
    and r: "r = [] \<longleftrightarrow> (\<forall>(k, v) \<in> set args. \<exists>w. apply_value rnd fr m k v = Inr (Inr w))"
    and knobs: "\<forall>k v. (k, v) \<in> set args \<longrightarrow> map_of (mk_knobs m1) k =
      (case apply_value rnd fr m k v of Inr (Inr w) \<Rightarrow> Some w | _ \<Rightarrow> map_of (mk_knobs m) k)"
    by blast
  let ?m = "m1\<lparr>mk_applied_calls := Suc (mk_applied_calls m1)\<rparr>"
  have all: "(r = []) = (\<forall>k v. map_of args k = Some v \<longrightarrow> (\<exists>w. apply_value rnd fr m k v = Inr (Inr w)))"
    by (simp only: r Ball_def split_paired_All mem prod.case)
  have "apply_changes rnd fr args m = (Inr (a, r), ?m)"
    using loop by (simp add: apply_changes_hot [OF assms(2)] count_call_def andthen_def)
  then have post: "mock_post rnd fr ''/set_internal_state'' (JObj [(''server_args'', JObj args)]) m =
      (Inr (200, JArr [JBool (r = [])]), ?m)"
    by (simp add: mock_post_sglang [OF assms(1)])
  have same: "keys (mk_knobs m1) = keys (mk_knobs m)" "mk_ceilings m1 = mk_ceilings m"
    using apply_loop_same [of rnd fr args "[]" "[]" m] loop by simp_all
  have "map_of (mk_knobs m1) k = map_of (mk_knobs m) k" if "map_of args k = None" for k
    using apply_loop_frame [of k args rnd fr "[]" "[]" m] loop that by (simp add: map_of_keys_None)
  then have knobs: "map_of (mk_knobs ?m) k = (case map_of args k of
        None \<Rightarrow> map_of (mk_knobs m) k
      | Some v \<Rightarrow> (case apply_value rnd fr m k v of Inr (Inr w) \<Rightarrow> Some w | _ \<Rightarrow> map_of (mk_knobs m) k))" for k
    using knobs mem by (simp split: option.split)
  show ?thesis
    by (rule exI [of _ ?m], intro conjI post [unfolded all] allI knobs) (simp_all add: same)
qed

lemma hot_plain:
  assumes "wf_dict args" and "set (keys args) \<subseteq> set sg_knobs"
  shows "hot_changes args" and "reinit_part args = []" and "left_over args = []"
proof -
  have "\<not> is_reinit_key k" if "k \<in> set sg_knobs" for k
    using that by (auto simp: sg_knobs_def is_reinit_key_def starts_with_def)
  then show hot: "hot_changes args" using assms by (auto simp: hot_changes_def)
  show "reinit_part args = []" using hot_changes_parts [OF hot] by simp
  show "left_over args = []"
    using subsetD [OF assms(2) in_keysI] by (auto simp: left_over_def filter_empty_conv)
qed

lemma known_knob: "set (keys args) \<subseteq> set sg_knobs \<Longrightarrow> map_of args k = Some v \<Longrightarrow> k \<in> set sg_knobs"
  by (metis in_keysI map_of_SomeD subsetD)


definition mirror_env :: "unit sglang_env" where
  "mirror_env = demo_env\<lparr>se_adjust := \<lambda>p _. if lower p \<in> set (map lower policies) then Inr p
     else Inl (ValueError ''unknown policy'')\<rparr>"

definition mirror_scheduler :: "unit scheduler" where
  "mirror_scheduler = demo_scheduler\<lparr>sg_max_prefill := 32\<rparr>"

definition mirror_mock :: mock where
  "mirror_mock = make_mock ''sglang'' 64 0 8 32"

lemma mirror_mock_mirrors: "mirrors mirror_mock mirror_scheduler"
proof -
  have knobs: "mk_knobs mirror_mock =
      [(''max_running_requests'', JInt 64), (''max_queued_requests'', JInt 0), (''chunked_prefill_size'', JInt 8),
       (''max_prefill_tokens'', JInt 32), (''schedule_policy'', JStr ''fcfs''),
       (''schedule_conservativeness'', JFloat (Fin 1)), (''log_level'', JStr ''INFO'')]"
    by (simp add: mirror_mock_def make_mock_def boot_knobs_def Let_def)
  have ceilings: "mk_ceilings mirror_mock = [(''max_running_requests'', 64), (''max_prefill_tokens'', 32)]"
    by (simp add: mirror_mock_def make_mock_def boot_knobs_def Let_def ceiling_names_def)
  show ?thesis
    unfolding mirrors_def
  proof (intro conjI)
    show "set (keys (mk_knobs mirror_mock)) = set sg_knobs" unfolding knobs by (simp add: sg_knobs_def)
    show "map_of (mk_ceilings mirror_mock) = [''max_running_requests'' \<mapsto> boot_ceiling mirror_scheduler,
        ''max_prefill_tokens'' \<mapsto> sg_total_tokens mirror_scheduler]"
      unfolding ceilings by (auto simp: mirror_scheduler_def demo_scheduler_def boot_ceiling_def)
    show "\<forall>k \<in> set sg_knobs. map_of (sg_read_back mirror_scheduler) k \<noteq> Some JNull \<longrightarrow>
        map_of (mk_knobs mirror_mock) k = map_of (sg_read_back mirror_scheduler) k"
      unfolding knobs by (simp add: sg_knobs_def sg_read_back_def mirror_scheduler_def demo_scheduler_def opt_json_def)
  qed
qed


end
