(* ===== verification/Vllm_Patch.thy ===== *)
theory Vllm_Patch
  imports Mock_Engine
begin

text \<open>
  The code that the patch puts into a running vLLM engine core (\<open>engine/vllm/apply_patch.py\<close>,
  \<open>engine/vllm/reinit_core_body.py\<close>): the hot knobs, their read-back, the lines at the head of
  the scheduler's step that tighten the cap as requests finish, the warm reinit, and the routes of
  the dev router. vLLM's own parts are arguments, the record \<open>vllm_env\<close>: the release of the
  workers' caches, the sizing of new ones, the construction of a scheduler, and the clock.
\<close>

section \<open>The engine core\<close>

text \<open>
  \<open>vs_running\<close> is \<open>len(sched.running)\<close>, \<open>vs_ceilings\<close> the attribute \<open>_trimtab_ceilings\<close>, absent
  until the first call, and \<open>vs_pending\<close> the target \<open>_trimtab_pending_max_num_seqs\<close>.
\<close>

record vllm_sched =
  vs_max_running :: int
  vs_max_scheduled :: int
  vs_running :: nat
  vs_pending :: "int option"
  vs_ceilings :: "int dict option"
  vs_log :: "string option"

record 'w vllm_core =
  vc_sched :: vllm_sched
  vc_long_prefill :: int
  vc_logger :: string
  vc_gpu_util :: pyfloat
  vc_max_seqs :: int
  vc_max_batched :: int
  vc_blocks :: "int option"
  vc_sleep_mode :: bool
  vc_has_requests :: bool
  vc_last_reinit :: json
  vc_workers :: 'w

section \<open>Hot knobs\<close>

definition vllm_log_levels :: "string list" where
  "vllm_log_levels = [''DEBUG'', ''INFO'', ''WARNING'', ''ERROR'']"

definition record_ceilings :: "'w vllm_core \<Rightarrow> 'w vllm_core" where
  "record_ceilings c =
     (let s = vc_sched c in
      case vs_ceilings s of
        Some _ \<Rightarrow> c
      | None \<Rightarrow> c\<lparr>vc_sched := s\<lparr>vs_ceilings :=
          Some [(''max_num_seqs'', vs_max_running s), (''max_num_batched_tokens'', vs_max_scheduled s)]\<rparr>\<rparr>)"

definition vllm_ceilings :: "'w vllm_core \<Rightarrow> int dict" where
  "vllm_ceilings c = (case vs_ceilings (vc_sched c) of None \<Rightarrow> [] | Some d \<Rightarrow> d)"

definition set_seqs :: "int \<Rightarrow> vllm_sched \<Rightarrow> vllm_sched" where
  "set_seqs target s = s\<lparr>vs_pending := Some target, vs_max_running := max target (int (vs_running s))\<rparr>"

text \<open>The verdict on one knob: the value recorded as applied and the engine after it, or the reason.\<close>

definition vllm_knob :: "float_text \<Rightarrow> string \<Rightarrow> json \<Rightarrow> 'w vllm_core \<Rightarrow> exn + (string + json \<times> 'w vllm_core)" where
  "vllm_knob fr k v c =
     (if k = ''long_prefill_token_threshold'' then
        (if \<not> is_num v then Inr (Inl ''must be >= 0 (0 disables the threshold)'')
         else case int_of v of
             Inl e \<Rightarrow> Inl e
           | Inr i \<Rightarrow>
               if i < 0 then Inr (Inl ''must be >= 0 (0 disables the threshold)'')
               else Inr (Inr (JInt i, c\<lparr>vc_long_prefill := i\<rparr>)))
      else if k = ''log_level'' then
        (let l = upper (str_json fr v) in
         if l \<notin> set vllm_log_levels then Inr (Inl ''must be DEBUG, INFO, WARNING or ERROR'')
         else Inr (Inr (JStr l, c\<lparr>vc_logger := l, vc_sched := (vc_sched c)\<lparr>vs_log := Some l\<rparr>\<rparr>)))
      else case map_of (vllm_ceilings c) k of
          None \<Rightarrow> Inr (Inl ''unknown knob'')
        | Some h \<Rightarrow>
            if \<not> is_num v then Inr (Inl (''valid range is 1..'' @ show_int h @ '' (the boot allocation)''))
            else case int_of v of
                Inl e \<Rightarrow> Inl e
              | Inr i \<Rightarrow>
                  if i < 1 \<or> h < i
                  then Inr (Inl (''valid range is 1..'' @ show_int h @ '' (the boot allocation)''))
                  else Inr (Inr (JInt i, c\<lparr>vc_sched :=
                    (if k = ''max_num_seqs'' then set_seqs i (vc_sched c)
                     else (vc_sched c)\<lparr>vs_max_scheduled := i\<rparr>)\<rparr>)))"

fun vllm_loop :: "float_text \<Rightarrow> fields \<Rightarrow> fields \<Rightarrow> string dict \<Rightarrow> ('w vllm_core, fields \<times> string dict) stmt" where
  "vllm_loop fr [] applied rejected c = (Inr (applied, rejected), c)"
| "vllm_loop fr ((k, v) # kvs) applied rejected c =
     (case vllm_knob fr k v c of
        Inl e \<Rightarrow> (Inl e, c)
      | Inr (Inl why) \<Rightarrow> vllm_loop fr kvs applied (dset k why rejected) c
      | Inr (Inr (w, c')) \<Rightarrow> vllm_loop fr kvs (dset k w applied) rejected c')"

definition strs_json :: "string dict \<Rightarrow> fields" where
  "strs_json d = map (\<lambda>(k, t). (k, JStr t)) d"

definition trimtab_set_knobs :: "float_text \<Rightarrow> fields \<Rightarrow> ('w vllm_core, fields) stmt" where
  "trimtab_set_knobs fr knobs c =
     andthen (vllm_loop fr knobs [] []) (\<lambda>(applied, rejected).
       ret [(''ok'', JBool (rejected = [])), (''applied'', JObj applied), (''rejected'', JObj (strs_json rejected))])
     (record_ceilings c)"

definition ints_json :: "int dict \<Rightarrow> fields" where
  "ints_json d = map (\<lambda>(k, i). (k, JInt i)) d"

definition trimtab_get_knobs :: "'w vllm_core \<Rightarrow> fields" where
  "trimtab_get_knobs c =
     (let s = vc_sched c in
      [(''max_num_seqs'', JInt (case vs_pending s of Some t \<Rightarrow> t | None \<Rightarrow> vs_max_running s)),
       (''max_num_seqs_effective'', JInt (vs_max_running s)),
       (''max_num_batched_tokens'', JInt (vs_max_scheduled s)),
       (''long_prefill_token_threshold'', JInt (vc_long_prefill c)),
       (''log_level'', case vs_log s of None \<Rightarrow> JNull | Some l \<Rightarrow> JStr l),
       (''running'', JInt (int (vs_running s))),
       (''ceilings'', JObj (ints_json (vllm_ceilings c))),
       (''last_reinit'', vc_last_reinit c),
       (''num_gpu_blocks'', case vc_blocks c of None \<Rightarrow> JNull | Some n \<Rightarrow> JInt n)])"

section \<open>The head of a scheduler step\<close>

definition tighten :: "vllm_sched \<Rightarrow> vllm_sched" where
  "tighten s =
     (case vs_pending s of
        None \<Rightarrow> s
      | Some t \<Rightarrow>
          let s' = s\<lparr>vs_max_running := max t (int (vs_running s))\<rparr> in
          if int (vs_running s) \<le> t then s'\<lparr>vs_pending := None\<rparr> else s')"

text \<open>
  What happens to the scheduler between calls: a step of vLLM's own scheduling after the patched
  head, which admits requests up to the cap, and the end of requests.
\<close>

inductive sched_step :: "vllm_sched \<Rightarrow> vllm_sched \<Rightarrow> bool" where
  schedule: "int n \<le> vs_max_running (tighten s) \<Longrightarrow> sched_step s ((tighten s)\<lparr>vs_running := n\<rparr>)"
| finish: "n \<le> vs_running s \<Longrightarrow> sched_step s (s\<lparr>vs_running := n\<rparr>)"

section \<open>The warm reinit\<close>

record 'w vllm_env =
  ve_rounding :: rounding
  ve_text :: float_text
  ve_release :: "('w vllm_core, json list) stmt"
  ve_init_caches :: "('w vllm_core, int) stmt"
  ve_new_sched :: "'w vllm_core \<Rightarrow> exn + vllm_sched"
  ve_time :: "('w vllm_core, pyfloat) stmt"
  ve_round3 :: "pyfloat \<Rightarrow> pyfloat"
  ve_exn_text :: "exn \<Rightarrow> string"

definition vllm_reinit_allowed :: "string list" where
  "vllm_reinit_allowed = [''gpu_memory_utilization'', ''max_num_seqs'', ''max_num_batched_tokens'']"

definition err_json :: "string \<Rightarrow> fields" where
  "err_json m = [(''ok'', JBool False), (''error'', JStr m)]"

definition when_field ::
  "string \<Rightarrow> fields \<Rightarrow> (json \<Rightarrow> exn + 'a) \<Rightarrow> ('a \<Rightarrow> 'w vllm_core \<Rightarrow> 'w vllm_core) \<Rightarrow> ('w vllm_core, unit) stmt" where
  "when_field k flds conv f c =
     (case map_of flds k of
        None \<Rightarrow> (Inr (), c)
      | Some v \<Rightarrow> (case conv v of Inl e \<Rightarrow> (Inl e, c) | Inr x \<Rightarrow> (Inr (), f x c)))"

definition install_sched :: "('w, 'z) vllm_env_scheme \<Rightarrow> ('w vllm_core, unit) stmt" where
  "install_sched E c =
     (case ve_new_sched E c of Inl e \<Rightarrow> (Inl e, c) | Inr s \<Rightarrow> (Inr (), c\<lparr>vc_sched := s\<rparr>))"

definition modify :: "('s \<Rightarrow> 's) \<Rightarrow> ('s, unit) stmt" where
  "modify f s = (Inr (), f s)"

definition rebuild :: "('w, 'z) vllm_env_scheme \<Rightarrow> fields \<Rightarrow> ('w vllm_core, int) stmt" where
  "rebuild E flds =
     andthen (when_field ''gpu_memory_utilization'' flds (float_of (ve_rounding E)) (\<lambda>x c. c\<lparr>vc_gpu_util := x\<rparr>)) (\<lambda>_.
     andthen (when_field ''max_num_seqs'' flds int_of (\<lambda>i c. c\<lparr>vc_max_seqs := i\<rparr>)) (\<lambda>_.
     andthen (when_field ''max_num_batched_tokens'' flds int_of (\<lambda>i c. c\<lparr>vc_max_batched := i\<rparr>)) (\<lambda>_.
     andthen (modify (\<lambda>c. c\<lparr>vc_blocks := None\<rparr>)) (\<lambda>_.
     andthen (ve_init_caches E) (\<lambda>blocks.
     andthen (install_sched E) (\<lambda>_. ret blocks))))))"

definition sizing :: "'w vllm_core \<Rightarrow> fields" where
  "sizing c = [(''gpu_memory_utilization'', JFloat (vc_gpu_util c)), (''max_num_seqs'', JInt (vc_max_seqs c)),
     (''max_num_batched_tokens'', JInt (vc_max_batched c))]"

text \<open>\<open>try: \<dots> except Exception\<close>: what was already changed stays changed.\<close>

definition on_error :: "('s, 'a) stmt \<Rightarrow> (exn \<Rightarrow> ('s, 'a) stmt) \<Rightarrow> ('s, 'a) stmt" where
  "on_error m h s = (case m s of (Inl e, s') \<Rightarrow> h e s' | (Inr x, s') \<Rightarrow> (Inr x, s'))"

definition rebuild_or_restore :: "('w, 'z) vllm_env_scheme \<Rightarrow> fields \<Rightarrow> fields \<Rightarrow> ('w vllm_core, fields \<times> int) stmt" where
  "rebuild_or_restore E flds previous =
     on_error (andthen (rebuild E flds) (\<lambda>blocks. ret (flds, blocks))) (\<lambda>e.
       andthen (ve_release E) (\<lambda>_.
       andthen (rebuild E previous) (\<lambda>blocks.
       ret ([(''error'', JStr (ve_exn_text E e)), (''restored'', JObj previous)], blocks))))"

definition reset_ceilings :: "'w vllm_core \<Rightarrow> 'w vllm_core" where
  "reset_ceilings c = c\<lparr>vc_sched := (vc_sched c)\<lparr>vs_ceilings :=
     Some [(''max_num_seqs'', vs_max_running (vc_sched c)), (''max_num_batched_tokens'', vs_max_scheduled (vc_sched c))]\<rparr>\<rparr>"

definition span :: "('w, 'z) vllm_env_scheme \<Rightarrow> pyfloat \<Rightarrow> pyfloat \<Rightarrow> json" where
  "span E a b = JFloat (ve_round3 E (f_sub (ve_rounding E) b a))"

definition vllm_reinit_info ::
  "('w, 'z) vllm_env_scheme \<Rightarrow> fields \<Rightarrow> int \<Rightarrow> json list \<Rightarrow> pyfloat \<Rightarrow> pyfloat \<Rightarrow> pyfloat \<Rightarrow> 'w vllm_core \<Rightarrow> fields" where
  "vllm_reinit_info E flds blocks released t0 freed fin c =
     [(''ok'', JBool (''error'' \<notin> set (keys flds))), (''fields'', JObj flds), (''num_gpu_blocks'', JInt blocks),
      (''max_num_seqs'', JInt (vs_max_running (vc_sched c))),
      (''freed_gib'', JArr (map (\<lambda>r. case json_get ''released_gib'' r of None \<Rightarrow> JNull | Some x \<Rightarrow> x) released)),
      (''free_s'', span E t0 freed), (''rebuild_s'', span E freed fin), (''total_s'', span E t0 fin)]"

definition note_info :: "fields \<Rightarrow> ('w vllm_core, fields) stmt" where
  "note_info info c = (Inr info, c\<lparr>vc_last_reinit := JObj info\<rparr>)"

definition resize :: "('w, 'z) vllm_env_scheme \<Rightarrow> fields \<Rightarrow> pyfloat \<Rightarrow> ('w vllm_core, fields) stmt" where
  "resize E flds t0 c =
     (let previous = sizing c in
      andthen (ve_release E) (\<lambda>released.
      andthen (ve_time E) (\<lambda>freed.
      andthen (rebuild_or_restore E flds previous) (\<lambda>(flds', blocks).
      andthen (modify reset_ceilings) (\<lambda>_.
      andthen (ve_time E) (\<lambda>fin c.
        note_info (vllm_reinit_info E flds' blocks released t0 freed fin c) c))))) c)"

definition vllm_not_warm :: "fields \<Rightarrow> string list" where
  "vllm_not_warm flds = sort (filter (\<lambda>k. k \<notin> set vllm_reinit_allowed) (remdups (keys flds)))"

definition trimtab_reinit :: "('w, 'z) vllm_env_scheme \<Rightarrow> fields \<Rightarrow> ('w vllm_core, fields) stmt" where
  "trimtab_reinit E flds =
     andthen (ve_time E) (\<lambda>t0 c.
       if vllm_not_warm flds \<noteq> []
       then (Inr (err_json (''not warm-reinitable: '' @ repr_str_list (vllm_not_warm flds))), c)
       else if \<not> vc_sleep_mode c
       then (Inr (err_json ''warm reinit needs the server launched with --enable-sleep-mode''), c)
       else if vc_has_requests c then (Inr (err_json ''engine busy, drain before a warm reinit''), c)
       else resize E flds t0 c)"

section \<open>The dev router\<close>

definition route_result :: "fields \<Rightarrow> exn + (int \<times> json)" where
  "route_result r =
     (case map_of r ''ok'' of
        None \<Rightarrow> Inl (KeyError ''ok'')
      | Some b \<Rightarrow> Inr (if truthy b then 200 else 400, JObj r))"

definition router_post :: "('w, 'z) vllm_env_scheme \<Rightarrow> string \<Rightarrow> fields \<Rightarrow> ('w vllm_core, int \<times> json) stmt" where
  "router_post E path body =
     (if path = ''/trimtab/set_knobs'' then andthen (trimtab_set_knobs (ve_text E) body) (\<lambda>r. of_result (route_result r))
      else if path = ''/trimtab/reinit'' then andthen (trimtab_reinit E body) (\<lambda>r. of_result (route_result r))
      else ret no_route)"

definition router_get :: "string \<Rightarrow> 'w vllm_core \<Rightarrow> int \<times> json" where
  "router_get path c = (if path = ''/trimtab/knobs'' then (200, JObj (trimtab_get_knobs c)) else no_route)"

end
