(* ===== verification/Vllm_Patch_Facts.thy ===== *)
theory Vllm_Patch_Facts
  imports Vllm_Patch Adapter_Contracts
begin

text \<open>
  What the patched vLLM engine core does: which values a knob admits and what it then reads back,
  how a lowered cap drains without ever breaking the scheduler's own assertion, and that a warm
  reinit either takes the sizes it was given or keeps the sizes it had.
\<close>

section \<open>One knob\<close>

definition vllm_knobs :: "string list" where
  "vllm_knobs = [''max_num_seqs'', ''max_num_batched_tokens'', ''long_prefill_token_threshold'', ''log_level'']"

definition ceiled :: "'w vllm_core \<Rightarrow> bool" where
  "ceiled c \<longleftrightarrow> (\<exists>a b. vs_ceilings (vc_sched c) = Some [(''max_num_seqs'', a), (''max_num_batched_tokens'', b)])"

definition int_in :: "int \<Rightarrow> int option \<Rightarrow> json \<Rightarrow> bool" where
  "int_in lo hi v \<longleftrightarrow> is_num v \<and>
     (case int_of v of Inl _ \<Rightarrow> False | Inr i \<Rightarrow> lo \<le> i \<and> (case hi of None \<Rightarrow> True | Some h \<Rightarrow> i \<le> h))"

definition vllm_admits :: "float_text \<Rightarrow> 'w vllm_core \<Rightarrow> string \<Rightarrow> json \<Rightarrow> bool" where
  "vllm_admits fr c k v =
     (if k = ''long_prefill_token_threshold'' then int_in 0 None v
      else if k = ''log_level'' then upper (str_json fr v) \<in> set vllm_log_levels
      else (case map_of (vllm_ceilings c) k of None \<Rightarrow> False | Some h \<Rightarrow> int_in 1 (Some h) v))"

definition vllm_stored :: "float_text \<Rightarrow> string \<Rightarrow> json \<Rightarrow> json" where
  "vllm_stored fr k v =
     (if k = ''log_level'' then JStr (upper (str_json fr v))
      else (case int_of v of Inl _ \<Rightarrow> JNull | Inr i \<Rightarrow> JInt i))"

definition vllm_quiet :: "string \<Rightarrow> json \<Rightarrow> bool" where
  "vllm_quiet k v \<longleftrightarrow> k = ''log_level'' \<or> (is_num v \<longrightarrow> (\<exists>i. int_of v = Inr i))"

text \<open>A step that moves one knob of the read-back, no ceiling and no request.\<close>

definition vmoved :: "string \<Rightarrow> json \<Rightarrow> 'w vllm_core \<Rightarrow> 'w vllm_core \<Rightarrow> bool" where
  "vmoved k w c c' \<longleftrightarrow>
     vs_ceilings (vc_sched c') = vs_ceilings (vc_sched c) \<and> vs_running (vc_sched c') = vs_running (vc_sched c) \<and>
     sizing c' = sizing c \<and>
     (\<forall>k' \<in> set vllm_knobs. map_of (trimtab_get_knobs c') k' =
        (if k' = k then Some w else map_of (trimtab_get_knobs c) k'))"

lemma vmoved_steps:
  "vmoved ''long_prefill_token_threshold'' (JInt i) c (c\<lparr>vc_long_prefill := i\<rparr>)"
  "vmoved ''log_level'' (JStr l) c (c\<lparr>vc_logger := l, vc_sched := (vc_sched c)\<lparr>vs_log := Some l\<rparr>\<rparr>)"
  "vmoved ''max_num_seqs'' (JInt i) c (c\<lparr>vc_sched := set_seqs i (vc_sched c)\<rparr>)"
  "vmoved ''max_num_batched_tokens'' (JInt i) c (c\<lparr>vc_sched := (vc_sched c)\<lparr>vs_max_scheduled := i\<rparr>\<rparr>)"
  by (simp_all add: vmoved_def vllm_knobs_def trimtab_get_knobs_def sizing_def set_seqs_def Let_def split: option.split)

lemma vllm_knob_spec:
  assumes "ceiled c" and "vllm_quiet k v"
  shows "\<exists>x. vllm_knob fr k v c = Inr x \<and>
    (if vllm_admits fr c k v then \<exists>c'. x = Inr (vllm_stored fr k v, c') \<and> vmoved k (vllm_stored fr k v) c c'
     else \<exists>w. x = Inl w)"
proof -
  obtain a b where "vs_ceilings (vc_sched c) = Some [(''max_num_seqs'', a), (''max_num_batched_tokens'', b)]"
    using assms(1) by (auto simp: ceiled_def)
  then have ceil: "map_of (vllm_ceilings c) k =
      (if k = ''max_num_seqs'' then Some a else if k = ''max_num_batched_tokens'' then Some b else None)"
    by (simp add: vllm_ceilings_def)
  consider (threshold) "k = ''long_prefill_token_threshold''" | (log) "k = ''log_level''"
    | (seqs) "k = ''max_num_seqs''" | (batched) "k = ''max_num_batched_tokens''"
    | (unknown) "k \<noteq> ''long_prefill_token_threshold''" "k \<noteq> ''log_level''" "k \<noteq> ''max_num_seqs''" "k \<noteq> ''max_num_batched_tokens''"
    by blast
  then show ?thesis
  proof cases
    case threshold
    then show ?thesis
      using assms(2) vmoved_steps(1)
      by (cases "vllm_admits fr c k v")
        (auto simp: vllm_knob_def vllm_admits_def vllm_stored_def vllm_quiet_def int_in_def split: sum.splits)
  next
    case log
    then show ?thesis
      by (simp add: vllm_knob_def vllm_admits_def vllm_stored_def Let_def vmoved_steps(2))
  next
    case seqs
    then show ?thesis
      using assms(2) vmoved_steps(3) ceil
      by (cases "vllm_admits fr c k v")
        (auto simp: vllm_knob_def vllm_admits_def vllm_stored_def vllm_quiet_def int_in_def split: sum.splits)
  next
    case batched
    then show ?thesis
      using assms(2) vmoved_steps(4) ceil
      by (cases "vllm_admits fr c k v")
        (auto simp: vllm_knob_def vllm_admits_def vllm_stored_def vllm_quiet_def int_in_def split: sum.splits)
  next
    case unknown
    then show ?thesis using ceil by (simp add: vllm_knob_def vllm_admits_def)
  qed
qed

section \<open>A request\<close>

lemma vmoved_admits:
  assumes "vmoved k w c c'"
  shows "vllm_admits fr c' = vllm_admits fr c" and "ceiled c' = ceiled c"
proof -
  have same: "vs_ceilings (vc_sched c') = vs_ceilings (vc_sched c)" using assms by (simp add: vmoved_def)
  then have "vllm_ceilings c' = vllm_ceilings c" by (simp add: vllm_ceilings_def)
  then show "vllm_admits fr c' = vllm_admits fr c" by (intro ext) (simp only: vllm_admits_def)
  show "ceiled c' = ceiled c" using same by (simp add: ceiled_def)
qed

definition knob_after :: "float_text \<Rightarrow> fields \<Rightarrow> 'w vllm_core \<Rightarrow> string \<Rightarrow> json option" where
  "knob_after fr kvs c k =
     (case map_of kvs k of
        None \<Rightarrow> map_of (trimtab_get_knobs c) k
      | Some v \<Rightarrow> if vllm_admits fr c k v then Some (vllm_stored fr k v) else map_of (trimtab_get_knobs c) k)"

lemma vllm_loop_pointwise:
  assumes "wf_dict kvs" and "ceiled c" and "\<And>k v. (k, v) \<in> set kvs \<Longrightarrow> vllm_quiet k v"
  shows "\<exists>a' r' c'. vllm_loop fr kvs a r c = (Inr (a', r'), c') \<and>
    (r' = [] \<longleftrightarrow> r = [] \<and> (\<forall>(k, v) \<in> set kvs. vllm_admits fr c k v)) \<and>
    vs_ceilings (vc_sched c') = vs_ceilings (vc_sched c) \<and> vs_running (vc_sched c') = vs_running (vc_sched c) \<and>
    sizing c' = sizing c \<and> (\<forall>k \<in> set vllm_knobs. map_of (trimtab_get_knobs c') k = knob_after fr kvs c k)"
  using assms
proof (induction kvs arbitrary: a r c)
  case Nil
  then show ?case by (simp add: knob_after_def)
next
  case (Cons p kvs)
  obtain k v where p: "p = (k, v)" by (cases p)
  have k: "k \<notin> set (keys kvs)" and wf: "wf_dict kvs" using Cons.prems(1) p by simp_all
  have quiet: "\<And>k v. (k, v) \<in> set kvs \<Longrightarrow> vllm_quiet k v" using Cons.prems(3) by simp
  have none: "map_of kvs k = None" using k by (simp add: map_of_keys_None)
  obtain x where x: "vllm_knob fr k v c = Inr x" "if vllm_admits fr c k v
      then \<exists>c'. x = Inr (vllm_stored fr k v, c') \<and> vmoved k (vllm_stored fr k v) c c' else \<exists>w. x = Inl w"
    using vllm_knob_spec [OF Cons.prems(2), of k v fr] Cons.prems(3) p by auto
  show ?case
  proof (cases "vllm_admits fr c k v")
    case False
    then obtain why where run: "vllm_loop fr (p # kvs) a r c = vllm_loop fr kvs a (dset k why r) c"
      using x p by auto
    have "knob_after fr (p # kvs) c k' = knob_after fr kvs c k'" for k'
      using False p none by (simp add: knob_after_def)
    moreover have "dset k why r \<noteq> []" by (metis keys_Nil keys_dset_nonempty)
    ultimately show ?thesis
      using Cons.IH [OF wf Cons.prems(2) quiet, of a "dset k why r"] False p unfolding run by auto
  next
    case True
    then obtain c1 where run: "vllm_loop fr (p # kvs) a r c = vllm_loop fr kvs (dset k (vllm_stored fr k v) a) r c1"
      and c1: "vmoved k (vllm_stored fr k v) c c1"
      using x p by auto
    note same = vmoved_admits [OF c1]
    have "knob_after fr (p # kvs) c k' = knob_after fr kvs c1 k'" if "k' \<in> set vllm_knobs" for k'
      using True p none that c1 same(1) by (auto simp: knob_after_def vmoved_def split: option.split)
    then show ?thesis
      using Cons.IH [OF wf, of c1 "dset k (vllm_stored fr k v) a" r] quiet same Cons.prems(2) True p c1
      unfolding run by (auto simp: vmoved_def)
  qed
qed


section \<open>A lowered cap\<close>

text \<open>What holds between a call that sets the target \<open>t\<close>, with \<open>n\<close> requests running, and the next.\<close>

definition draining :: "int \<Rightarrow> nat \<Rightarrow> vllm_sched \<Rightarrow> bool" where
  "draining t n s \<longleftrightarrow>
     int (vs_running s) \<le> vs_max_running s \<and> int (vs_running s) \<le> max t (int n) \<and>
     (vs_pending s = Some t \<and> vs_max_running s \<le> max t (int n) \<or> vs_pending s = None \<and> vs_max_running s = t)"

lemma draining_start: "draining t (vs_running s) (set_seqs t s)"
  by (simp add: draining_def set_seqs_def)

lemma draining_tighten: "draining t n s \<Longrightarrow> draining t n (tighten s) \<and> vs_running (tighten s) = vs_running s"
  by (auto simp: draining_def tighten_def Let_def split: option.split)

lemma draining_step: "sched_step s s' \<Longrightarrow> draining t n s \<Longrightarrow> draining t n s'"
proof (induction rule: sched_step.cases)
  case (schedule m u)
  then show ?case using draining_tighten [of t n u] by (auto simp: draining_def)
next
  case (finish m u)
  then show ?case by (auto simp: draining_def)
qed

lemma draining_run: "sched_step\<^sup>*\<^sup>* s s' \<Longrightarrow> draining t n s \<Longrightarrow> draining t n s'"
  by (induction rule: rtranclp_induct) (auto intro: draining_step)

section \<open>The warm reinit\<close>

text \<open>The new sizes of a reinit: the requested ones, converted, and the others as they were.\<close>

definition overlay_int :: "fields \<Rightarrow> string \<Rightarrow> int \<Rightarrow> int" where
  "overlay_int flds k i = (case map_of flds k of None \<Rightarrow> i | Some v \<Rightarrow> (case int_of v of Inl _ \<Rightarrow> i | Inr j \<Rightarrow> j))"

definition overlay_float :: "rounding \<Rightarrow> fields \<Rightarrow> string \<Rightarrow> pyfloat \<Rightarrow> pyfloat" where
  "overlay_float rnd flds k x =
     (case map_of flds k of None \<Rightarrow> x | Some v \<Rightarrow> (case float_of rnd v of Inl _ \<Rightarrow> x | Inr y \<Rightarrow> y))"

definition resized :: "rounding \<Rightarrow> fields \<Rightarrow> 'w vllm_core \<Rightarrow> fields" where
  "resized rnd flds c =
     [(''gpu_memory_utilization'', JFloat (overlay_float rnd flds ''gpu_memory_utilization'' (vc_gpu_util c))),
      (''max_num_seqs'', JInt (overlay_int flds ''max_num_seqs'' (vc_max_seqs c))),
      (''max_num_batched_tokens'', JInt (overlay_int flds ''max_num_batched_tokens'' (vc_max_batched c)))]"

text \<open>vLLM's own steps of a reinit leave the configured sizes to the lines that set them.\<close>

definition sizes_kept :: "('w vllm_core, 'a) stmt \<Rightarrow> bool" where
  "sizes_kept m \<longleftrightarrow> (\<forall>c. sizing (snd (m c)) = sizing c)"

definition env_keeps_sizes :: "('w, 'z) vllm_env_scheme \<Rightarrow> bool" where
  "env_keeps_sizes E \<longleftrightarrow> sizes_kept (ve_release E) \<and> sizes_kept (ve_init_caches E) \<and>
     (\<forall>c. \<exists>w. snd (ve_time E c) = c\<lparr>vc_workers := w\<rparr>)"

lemma sizing_eq: "sizing c' = sizing c \<longleftrightarrow>
    vc_gpu_util c' = vc_gpu_util c \<and> vc_max_seqs c' = vc_max_seqs c \<and> vc_max_batched c' = vc_max_batched c"
  by (auto simp: sizing_def)

lemma sizes_keptD: "sizes_kept m \<Longrightarrow> m c = (r, c') \<Longrightarrow> sizing c' = sizing c"
  unfolding sizes_kept_def by (metis snd_conv)

lemma when_field_runs:
  "when_field k flds (float_of rnd) (\<lambda>x c. c\<lparr>vc_gpu_util := x\<rparr>) c = (Inr u, c') \<Longrightarrow>
    c' = c\<lparr>vc_gpu_util := overlay_float rnd flds k (vc_gpu_util c)\<rparr>"
  "when_field k flds int_of (\<lambda>i c. c\<lparr>vc_max_seqs := i\<rparr>) c = (Inr u, c') \<Longrightarrow>
    c' = c\<lparr>vc_max_seqs := overlay_int flds k (vc_max_seqs c)\<rparr>"
  "when_field k flds int_of (\<lambda>i c. c\<lparr>vc_max_batched := i\<rparr>) c = (Inr u, c') \<Longrightarrow>
    c' = c\<lparr>vc_max_batched := overlay_int flds k (vc_max_batched c)\<rparr>"
  by (auto simp: when_field_def overlay_float_def overlay_int_def split: option.splits sum.splits)

lemma rebuild_sizes:
  assumes "env_keeps_sizes E" and "rebuild E flds c = (Inr blocks, c')"
  shows "sizing c' = resized (ve_rounding E) flds c"
proof -
  obtain u1 c1 u2 c2 u3 c3 c4 u5 where
    s: "when_field ''gpu_memory_utilization'' flds (float_of (ve_rounding E)) (\<lambda>x c. c\<lparr>vc_gpu_util := x\<rparr>) c = (Inr u1, c1)"
    "when_field ''max_num_seqs'' flds int_of (\<lambda>i c. c\<lparr>vc_max_seqs := i\<rparr>) c1 = (Inr u2, c2)"
    "when_field ''max_num_batched_tokens'' flds int_of (\<lambda>i c. c\<lparr>vc_max_batched := i\<rparr>) c2 = (Inr u3, c3)"
    "ve_init_caches E (c3\<lparr>vc_blocks := None\<rparr>) = (Inr blocks, c4)" "install_sched E c4 = (Inr u5, c')"
    using assms(2) unfolding rebuild_def by (auto elim!: andthen_InrE simp: modify_def)
  have "sizing c' = sizing c4" using s(5) by (auto simp: install_sched_def sizing_def split: sum.splits)
  also have "\<dots> = sizing c3"
    using sizes_keptD [where m = "ve_init_caches E", OF _ s(4)] assms(1) by (simp add: env_keeps_sizes_def sizing_def)
  also have "\<dots> = resized (ve_rounding E) flds c"
    unfolding when_field_runs(3) [OF s(3)] when_field_runs(2) [OF s(2)] when_field_runs(1) [OF s(1)]
    by (simp add: sizing_def resized_def)
  finally show ?thesis .
qed

lemma rebuild_previous_sizes:
  assumes "env_keeps_sizes E" and "rebuild E (sizing c0) c = (Inr blocks, c')"
  shows "sizing c' = sizing c0"
  using rebuild_sizes [OF assms] by (simp add: resized_def sizing_def overlay_int_def overlay_float_def)

lemma rebuild_or_restore_sizes:
  assumes "env_keeps_sizes E" and "rebuild_or_restore E flds (sizing c) c1 = (Inr (flds', blocks), c')"
    and "sizing c1 = sizing c"
  shows "flds' = flds \<and> sizing c' = resized (ve_rounding E) flds c \<or>
    ''error'' \<in> set (keys flds') \<and> sizing c' = sizing c"
proof -
  obtain r c2 where m: "rebuild E flds c1 = (r, c2)" by (cases "rebuild E flds c1")
  have same: "resized (ve_rounding E) flds c1 = resized (ve_rounding E) flds c"
    using assms(3) by (simp add: resized_def sizing_eq)
  show ?thesis
  proof (cases r)
    case (Inr b)
    then show ?thesis
      using assms(2) m rebuild_sizes [OF assms(1), of flds c1 b c2] same
      by (simp add: rebuild_or_restore_def on_error_def andthen_def)
  next
    case (Inl e)
    then obtain rel c3 where "ve_release E c2 = (Inr rel, c3)" and again: "rebuild E (sizing c) c3 = (Inr blocks, c')"
      and "flds' = [(''error'', JStr (ve_exn_text E e)), (''restored'', JObj (sizing c))]"
      using assms(2) m by (auto simp: rebuild_or_restore_def on_error_def elim!: andthen_InrE)
    then show ?thesis using rebuild_previous_sizes [OF assms(1) again] by simp
  qed
qed


lemma time_run: "env_keeps_sizes E \<Longrightarrow> ve_time E c = (r, c') \<Longrightarrow> \<exists>w. c' = c\<lparr>vc_workers := w\<rparr>"
  unfolding env_keeps_sizes_def by (metis snd_conv)

lemma resize_sizes:
  assumes "env_keeps_sizes E" and "resize E flds t0 c = (Inr info, c')" and "''error'' \<notin> set (keys flds)"
  shows "(map_of info ''ok'' = Some (JBool True) \<and> sizing c' = resized (ve_rounding E) flds c \<or>
      map_of info ''ok'' = Some (JBool False) \<and> sizing c' = sizing c) \<and>
    vllm_ceilings c' = [(''max_num_seqs'', vs_max_running (vc_sched c')),
      (''max_num_batched_tokens'', vs_max_scheduled (vc_sched c'))] \<and> vc_last_reinit c' = JObj info"
proof -
  have release: "sizes_kept (ve_release E)" using assms(1) by (simp add: env_keeps_sizes_def)
  obtain rel c1 freed c2 flds' blocks c3 fin c4 where
    s: "ve_release E c = (Inr rel, c1)" "ve_time E c1 = (Inr freed, c2)"
    "rebuild_or_restore E flds (sizing c) c2 = (Inr (flds', blocks), c3)"
    "ve_time E (reset_ceilings c3) = (Inr fin, c4)"
    and info: "info = vllm_reinit_info E flds' blocks rel t0 freed fin c4" "c' = c4\<lparr>vc_last_reinit := JObj info\<rparr>"
    using assms(2) unfolding resize_def Let_def
    by (elim andthen_InrE) (auto simp: modify_def note_info_def elim!: andthen_InrE)
  obtain w1 w2 where w: "c2 = c1\<lparr>vc_workers := w1\<rparr>" "c4 = (reset_ceilings c3)\<lparr>vc_workers := w2\<rparr>"
    using time_run [OF assms(1) s(2)] time_run [OF assms(1) s(4)] by blast
  have "sizing c2 = sizing c" using sizes_keptD [OF release s(1)] w(1) by (simp add: sizing_def)
  from rebuild_or_restore_sizes [OF assms(1) s(3) this] assms(3)
  have "map_of info ''ok'' = Some (JBool True) \<and> sizing c3 = resized (ve_rounding E) flds c \<or>
    map_of info ''ok'' = Some (JBool False) \<and> sizing c3 = sizing c"
    by (auto simp: info(1) vllm_reinit_info_def)
  moreover have "sizing c' = sizing c3" by (simp add: info(2) w(2) reset_ceilings_def sizing_def)
  ultimately show ?thesis
    by (simp add: info(2) w(2) reset_ceilings_def vllm_ceilings_def)
qed

section \<open>Properties\<close>

definition demo_core :: "unit vllm_core" where
  "demo_core =
     \<lparr>vc_sched = \<lparr>vs_max_running = 8, vs_max_scheduled = 64, vs_running = 5, vs_pending = None,
        vs_ceilings = Some [(''max_num_seqs'', 8), (''max_num_batched_tokens'', 64)], vs_log = None\<rparr>,
      vc_long_prefill = 0, vc_logger = ''INFO'', vc_gpu_util = Fin (9 / 10), vc_max_seqs = 8, vc_max_batched = 64,
      vc_blocks = Some 4, vc_sleep_mode = True, vc_has_requests = False, vc_last_reinit = JNull, vc_workers = ()\<rparr>"

definition demo_vllm_env :: "unit vllm_env" where
  "demo_vllm_env =
     \<lparr>ve_rounding = Fin, ve_text = \<lambda>_. ''1'', ve_release = ret [],
      ve_init_caches = \<lambda>c. (if vc_max_seqs c \<le> 16 then Inr 4 else Inl (RuntimeError ''no memory''), c),
      ve_new_sched = \<lambda>c. Inr \<lparr>vs_max_running = vc_max_seqs c, vs_max_scheduled = vc_max_batched c, vs_running = 0,
        vs_pending = None, vs_ceilings = None, vs_log = None\<rparr>,
      ve_time = ret (Fin 0), ve_round3 = \<lambda>x. x, ve_exn_text = \<lambda>_. ''no memory''\<rparr>"

text \<open>
  C24. A call moves exactly the knobs it may. With the ceilings recorded, a call whose numbers
  convert answers \<open>ok\<close> exactly when every knob of the call admits its value; each knob whose
  value is admitted, whatever the others are, then reads back the value it was given, also a
  request cap that is still being drained to, and each other knob reads back what it did before;
  the ceilings, the running requests and the configured sizes are untouched.
\<close>

theorem call_moves_admitted:
  assumes "ceiled c" and "wf_dict kvs" and "\<forall>k v. map_of kvs k = Some v \<longrightarrow> vllm_quiet k v"
  shows "\<exists>info c'. trimtab_set_knobs fr kvs c = (Inr info, c') \<and>
    map_of info ''ok'' = Some (JBool (\<forall>k v. map_of kvs k = Some v \<longrightarrow> vllm_admits fr c k v)) \<and>
    (\<forall>k \<in> set vllm_knobs. map_of (trimtab_get_knobs c') k =
      (case map_of kvs k of
         None \<Rightarrow> map_of (trimtab_get_knobs c) k
       | Some v \<Rightarrow> if vllm_admits fr c k v then Some (vllm_stored fr k v) else map_of (trimtab_get_knobs c) k)) \<and>
    vs_ceilings (vc_sched c') = vs_ceilings (vc_sched c) \<and> vs_running (vc_sched c') = vs_running (vc_sched c) \<and>
    sizing c' = sizing c"
proof -
  have rec: "record_ceilings c = c" using assms(1) by (auto simp: ceiled_def record_ceilings_def Let_def)
  have mem: "(k, v) \<in> set kvs \<longleftrightarrow> map_of kvs k = Some v" for k v
    using map_of_wf [OF assms(2)] map_of_SomeD by metis
  have quiet: "\<And>k v. (k, v) \<in> set kvs \<Longrightarrow> vllm_quiet k v" using assms(3) mem by blast
  obtain a r c' where loop: "vllm_loop fr kvs [] [] c = (Inr (a, r), c')"
    and r: "r = [] \<longleftrightarrow> (\<forall>(k, v) \<in> set kvs. vllm_admits fr c k v)"
    and c': "vs_ceilings (vc_sched c') = vs_ceilings (vc_sched c)" "vs_running (vc_sched c') = vs_running (vc_sched c)"
      "sizing c' = sizing c" "\<forall>k \<in> set vllm_knobs. map_of (trimtab_get_knobs c') k = knob_after fr kvs c k"
    using vllm_loop_pointwise [OF assms(2,1) quiet, of fr "[]" "[]"] unfolding simp_thms by blast
  have all: "(r = []) = (\<forall>k v. map_of kvs k = Some v \<longrightarrow> vllm_admits fr c k v)"
    by (simp only: r Ball_def split_paired_All mem prod.case)
  show ?thesis
    unfolding trimtab_set_knobs_def rec using loop c' all
    by (simp add: andthen_def knob_after_def)
qed

theorem call_moves_admitted_witness:
  "\<exists>info c'. trimtab_set_knobs (\<lambda>_. ''1'') [(''max_num_seqs'', JInt 3)] demo_core = (Inr info, c') \<and>
    map_of info ''ok'' = Some (JBool True) \<and> map_of (trimtab_get_knobs c') ''max_num_seqs'' = Some (JInt 3)"
proof -
  have "ceiled demo_core" by (simp add: ceiled_def demo_core_def)
  moreover have "vllm_admits (\<lambda>_. ''1'') demo_core ''max_num_seqs'' (JInt 3)"
    by (simp add: vllm_admits_def vllm_ceilings_def demo_core_def int_in_def is_num_def)
  moreover have "vllm_stored (\<lambda>_. ''1'') ''max_num_seqs'' (JInt 3) = JInt 3" by (simp add: vllm_stored_def)
  moreover have "\<forall>k v. map_of [(''max_num_seqs'', JInt 3)] k = Some v \<longrightarrow> vllm_quiet k v"
    by (auto simp: vllm_quiet_def split: if_splits)
  moreover have "\<forall>k v. map_of [(''max_num_seqs'', JInt 3)] k = Some v \<longrightarrow> vllm_admits (\<lambda>_. ''1'') demo_core k v"
    using calculation(2) by (auto split: if_splits)
  ultimately show ?thesis
    using call_moves_admitted [of demo_core "[(''max_num_seqs'', JInt 3)]" "\<lambda>_. ''1''"]
    by (simp add: vllm_knobs_def) (elim exE conjE, intro exI conjI, assumption+)
qed

text \<open>
  C25. A lowered cap drains. After a call that sets the request cap to t, through any sequence of
  scheduler steps and finished requests: the scheduler's own assertion, that no more requests run
  than the cap allows, holds before every step and at the head of it; the requests never outnumber
  the larger of t and those running at the call, and while more than t run no step adds one; the
  read-back names t throughout; and the first step that finds at most t running sets the cap to t.
\<close>

theorem lowered_cap_drains:
  assumes "sched_step\<^sup>*\<^sup>* (set_seqs t s) s'"
  shows "int (vs_running s') \<le> vs_max_running s' \<and> int (vs_running (tighten s')) \<le> vs_max_running (tighten s') \<and>
    int (vs_running s') \<le> max t (int (vs_running s)) \<and>
    (\<forall>s''. sched_step s' s'' \<longrightarrow> int (vs_running s'') \<le> max t (int (vs_running s'))) \<and>
    (vs_pending s' = Some t \<or> vs_pending s' = None \<and> vs_max_running s' = t) \<and>
    (int (vs_running s') \<le> t \<longrightarrow> vs_max_running (tighten s') = t \<and> vs_pending (tighten s') = None)"
proof -
  have d: "draining t (vs_running s) s'" by (rule draining_run [OF assms draining_start])
  have "int (vs_running s'') \<le> max t (int (vs_running s'))" if "sched_step s' s''" for s''
    using that d by (cases) (auto simp: draining_def tighten_def Let_def split: option.splits if_splits)
  then show ?thesis
    using d draining_tighten [OF d]
    by (auto simp: draining_def tighten_def Let_def split: option.split)
qed

theorem lowered_cap_drains_witness:
  "vs_max_running (tighten ((tighten (set_seqs 2 (vc_sched demo_core)))\<lparr>vs_running := 1\<rparr>)) = 2"
proof -
  let ?s = "set_seqs 2 (vc_sched demo_core)"
  have "sched_step ?s ((tighten ?s)\<lparr>vs_running := 1\<rparr>)"
    by (rule schedule) (simp add: tighten_def set_seqs_def demo_core_def)
  then have "sched_step\<^sup>*\<^sup>* ?s ((tighten ?s)\<lparr>vs_running := 1\<rparr>)" by (rule r_into_rtranclp)
  from lowered_cap_drains [OF this] show ?thesis by simp
qed

text \<open>
  C26. A warm reinit is all or nothing. A request for a field that cannot be resized, without
  sleep mode, or while requests are there is answered with an error before anything is released,
  and leaves the engine core as it was. Any other that returns either answers \<open>ok\<close>, and the
  configured sizes are the requested ones with the rest as before, or answers not \<open>ok\<close>, and the
  configured sizes are all as before; either way the ceilings are those of the scheduler it built.
\<close>

theorem reinit_all_or_nothing:
  assumes "env_keeps_sizes E" and "trimtab_reinit E flds c = (Inr info, c')"
  shows "if vllm_not_warm flds \<noteq> [] \<or> \<not> vc_sleep_mode c \<or> vc_has_requests c
    then map_of info ''ok'' = Some (JBool False) \<and> (\<exists>w. c' = c\<lparr>vc_workers := w\<rparr>)
    else (map_of info ''ok'' = Some (JBool True) \<and> sizing c' = resized (ve_rounding E) flds c \<or>
        map_of info ''ok'' = Some (JBool False) \<and> sizing c' = sizing c) \<and>
      vllm_ceilings c' = [(''max_num_seqs'', vs_max_running (vc_sched c')),
        (''max_num_batched_tokens'', vs_max_scheduled (vc_sched c'))] \<and> vc_last_reinit c' = JObj info"
proof -
  obtain t0 c0 where t0: "ve_time E c = (Inr t0, c0)" and body: "(if vllm_not_warm flds \<noteq> []
       then (Inr (err_json (''not warm-reinitable: '' @ repr_str_list (vllm_not_warm flds))), c0)
       else if \<not> vc_sleep_mode c0
       then (Inr (err_json ''warm reinit needs the server launched with --enable-sleep-mode''), c0)
       else if vc_has_requests c0 then (Inr (err_json ''engine busy, drain before a warm reinit''), c0)
       else resize E flds t0 c0) = (Inr info, c')"
    using assms(2) unfolding trimtab_reinit_def by (elim andthen_InrE) blast
  obtain w where w: "c0 = c\<lparr>vc_workers := w\<rparr>" using time_run [OF assms(1) t0] by blast
  show ?thesis
  proof (cases "vllm_not_warm flds \<noteq> [] \<or> \<not> vc_sleep_mode c \<or> vc_has_requests c")
    case True
    then show ?thesis using body w by (auto simp: err_json_def split: if_splits)
  next
    case False
    then have run: "resize E flds t0 c0 = (Inr info, c')" using body w by simp
    have "set (keys flds) \<subseteq> set vllm_reinit_allowed"
      using False by (auto simp: vllm_not_warm_def filter_empty_conv dest!: arg_cong [of _ _ set])
    then have "''error'' \<notin> set (keys flds)" by (auto simp: vllm_reinit_allowed_def)
    from resize_sizes [OF assms(1) run this] show ?thesis
      using False w by (simp add: sizing_def resized_def)
  qed
qed

theorem reinit_all_or_nothing_witness:
  "\<exists>info c'. trimtab_reinit demo_vllm_env [(''max_num_seqs'', JInt 32)] demo_core = (Inr info, c') \<and>
    vc_max_seqs c' = 8"
proof -
  let ?r = "trimtab_reinit demo_vllm_env [(''max_num_seqs'', JInt 32)] demo_core"
  have keeps: "env_keeps_sizes demo_vllm_env"
    by (simp add: env_keeps_sizes_def sizes_kept_def demo_vllm_env_def)
  have "case fst ?r of Inr info \<Rightarrow> map_of info ''ok'' = Some (JBool False) | Inl _ \<Rightarrow> False" by code_simp
  then obtain info c' where r: "?r = (Inr info, c')" "map_of info ''ok'' = Some (JBool False)"
    by (cases ?r) (auto split: sum.splits)
  have "\<not> (vllm_not_warm [(''max_num_seqs'', JInt 32)] \<noteq> [] \<or> \<not> vc_sleep_mode demo_core \<or> vc_has_requests demo_core)"
    by (simp add: vllm_not_warm_def vllm_reinit_allowed_def demo_core_def)
  then have "sizing c' = sizing demo_core"
    using reinit_all_or_nothing [OF keeps r(1)] r(2) by auto
  then have "vc_max_seqs c' = 8" by (simp add: sizing_eq demo_core_def)
  then show ?thesis using r(1) by blast
qed

end
