(* ===== verification/Metrics.thy ===== *)
theory Metrics
  imports Py_Values
begin

text \<open>
  The Prometheus scraper (\<open>trimtab/metrics.py\<close>): the parser of the text format, the quantile over
  the bucket deltas of a histogram, and \<open>PrometheusMetrics.sample\<close>, which turns two scrapes of a
  replica into the metrics of the gates. Fetching a page and the clock are arguments.
\<close>

section \<open>Sorting floats\<close>

text \<open>
  \<open>sorted\<close> compares with \<open><\<close>. Python leaves the order open when a NaN is among the values; here
  it comes last.
\<close>

fun f_rank :: "pyfloat \<Rightarrow> nat" where
  "f_rank NInf = 0"
| "f_rank (Fin _) = 1"
| "f_rank PInf = 2"
| "f_rank NaN = 3"

fun f_part :: "pyfloat \<Rightarrow> rat" where
  "f_part (Fin q) = q"
| "f_part _ = 0"

instantiation pyfloat :: linorder
begin

definition less_eq_pyfloat :: "pyfloat \<Rightarrow> pyfloat \<Rightarrow> bool" where
  "a \<le> b \<longleftrightarrow> f_rank a < f_rank b \<or> f_rank a = f_rank b \<and> f_part a \<le> f_part b"

definition less_pyfloat :: "pyfloat \<Rightarrow> pyfloat \<Rightarrow> bool" where
  "a < b \<longleftrightarrow> f_rank a < f_rank b \<or> f_rank a = f_rank b \<and> f_part a < f_part b"

instance
proof
  fix a b c :: pyfloat
  show "a < b \<longleftrightarrow> a \<le> b \<and> \<not> b \<le> a" by (auto simp: less_eq_pyfloat_def less_pyfloat_def)
  show "a \<le> a" by (simp add: less_eq_pyfloat_def)
  show "a \<le> b \<Longrightarrow> b \<le> c \<Longrightarrow> a \<le> c" by (auto simp: less_eq_pyfloat_def)
  show "a \<le> b \<or> b \<le> a" by (auto simp: less_eq_pyfloat_def)
  show "a \<le> b \<Longrightarrow> b \<le> a \<Longrightarrow> a = b" by (cases a; cases b) (auto simp: less_eq_pyfloat_def)
qed

end

section \<open>The text format\<close>

definition is_name_start :: "char \<Rightarrow> bool" where
  "is_name_start c \<longleftrightarrow> CHR ''a'' \<le> c \<and> c \<le> CHR ''z'' \<or> CHR ''A'' \<le> c \<and> c \<le> CHR ''Z'' \<or> c = CHR ''_'' \<or> c = CHR '':''"

definition is_name_char :: "char \<Rightarrow> bool" where
  "is_name_char c \<longleftrightarrow> is_name_start c \<or> is_digit c"

definition is_value_char :: "char \<Rightarrow> bool" where
  "is_value_char c \<longleftrightarrow> is_digit c \<or> c \<in> set ''-+.eE'' \<or> c \<in> set ''naNIif''"

text \<open>
  \<open>LINE.match\<close>: the name, the labels with their braces or nothing, and the text of the value.
  No character can be taken by two neighbouring parts of the pattern, so matching never goes back.
\<close>

definition match_labels :: "string \<Rightarrow> (string \<times> string) option" where
  "match_labels s =
     (case s of
        [] \<Rightarrow> Some ([], [])
      | c # cs \<Rightarrow>
          if c \<noteq> CHR ''{'' then Some ([], s)
          else (case dropWhile (\<lambda>x. x \<noteq> CHR ''}'') cs of
                  [] \<Rightarrow> None
                | x # rest \<Rightarrow> Some (c # takeWhile (\<lambda>x. x \<noteq> CHR ''}'') cs @ [x], rest)))"

definition match_line :: "string \<Rightarrow> (string \<times> string \<times> string) option" where
  "match_line s =
     (case s of
        [] \<Rightarrow> None
      | c # cs \<Rightarrow>
          if \<not> is_name_start c then None
          else (case match_labels (dropWhile is_name_char cs) of
                  None \<Rightarrow> None
                | Some (labels, rest) \<Rightarrow>
                    let v = takeWhile is_value_char (lstrip rest) in
                    if lstrip rest = rest \<or> v = [] then None
                    else Some (c # takeWhile is_name_char cs, labels, v)))"

text \<open>\<open>re.search\<close> for a quoted bound after \<open>le=\<close>: the leftmost place where it matches.\<close>

definition le_here :: "string \<Rightarrow> string option" where
  "le_here s =
     (let t = drop 4 s; v = takeWhile (\<lambda>c. c \<noteq> CHR 0x22) t in
      if take 4 s = ''le='' @ [CHR 0x22] \<and> v \<noteq> [] \<and> v \<noteq> t then Some v else None)"

fun find_le :: "string \<Rightarrow> string option" where
  "find_le [] = None"
| "find_le (c # cs) = (case le_here (c # cs) of Some v \<Rightarrow> Some v | None \<Rightarrow> find_le cs)"

section \<open>Series\<close>

text \<open>
  The dictionary under a name: a \<open>value\<close>, or the buckets, the count and the sum of a histogram.
  Both can be there, when a page has a gauge under the name of a histogram. The keys of the
  buckets are floats, compared as floats.
\<close>

type_synonym buckets = "(pyfloat \<times> pyfloat) list"

record histogram =
  h_buckets :: buckets
  h_count :: pyfloat
  h_sum :: pyfloat

record series =
  s_value :: "pyfloat option"
  s_hist :: "histogram option"

type_synonym scrape = "series dict"

fun bucket_get :: "pyfloat \<Rightarrow> buckets \<Rightarrow> pyfloat" where
  "bucket_get k [] = Fin 0"
| "bucket_get k ((k', v) # bs) = (if f_eq k k' then v else bucket_get k bs)"

fun bucket_set :: "pyfloat \<Rightarrow> pyfloat \<Rightarrow> buckets \<Rightarrow> buckets" where
  "bucket_set k v [] = [(k, v)]"
| "bucket_set k v ((k', v') # bs) = (if f_eq k k' then (k', v) # bs else (k', v') # bucket_set k v bs)"

definition le_value :: "rounding \<Rightarrow> string \<Rightarrow> exn + pyfloat" where
  "le_value rnd s = (if s = ''+Inf'' then Inr PInf else float_of_str rnd s)"

definition setdefault :: "string \<Rightarrow> 'v \<Rightarrow> 'v dict \<Rightarrow> 'v dict" where
  "setdefault k v d = (if k \<in> set (keys d) then d else dset k v d)"

definition no_series :: series where
  "no_series = \<lparr>s_value = None, s_hist = None\<rparr>"

definition lookup :: "string \<Rightarrow> scrape \<Rightarrow> series" where
  "lookup k d = (case map_of d k of None \<Rightarrow> no_series | Some x \<Rightarrow> x)"

definition with_hist :: "string \<Rightarrow> string \<Rightarrow> (histogram \<Rightarrow> histogram) \<Rightarrow> scrape \<Rightarrow> exn + scrape" where
  "with_hist part k f d =
     (case s_hist (lookup k d) of
        None \<Rightarrow> Inl (KeyError part)
      | Some h \<Rightarrow> Inr (dset k ((lookup k d)\<lparr>s_hist := Some (f h)\<rparr>) d))"

definition empty_hist :: histogram where
  "empty_hist = \<lparr>h_buckets = [], h_count = Fin 0, h_sum = Fin 0\<rparr>"

definition drop_end :: "nat \<Rightarrow> string \<Rightarrow> string" where
  "drop_end n s = take (length s - n) s"

definition add_bucket :: "rounding \<Rightarrow> string \<Rightarrow> string \<Rightarrow> pyfloat \<Rightarrow> scrape \<Rightarrow> exn + scrape" where
  "add_bucket rnd base labels v d =
     (let d' = setdefault base \<lparr>s_value = None, s_hist = Some empty_hist\<rparr> d in
      if s_hist (lookup base d') = None then Inl (KeyError ''buckets'')
      else case find_le labels of
          None \<Rightarrow> Inl AttributeError
        | Some s \<Rightarrow>
            (case le_value rnd s of
               Inl e \<Rightarrow> Inl e
             | Inr le \<Rightarrow> with_hist ''buckets'' base
                 (\<lambda>h. h\<lparr>h_buckets := bucket_set le (f_add rnd (bucket_get le (h_buckets h)) v) (h_buckets h)\<rparr>) d'))"

definition add_value_line :: "rounding \<Rightarrow> string \<Rightarrow> pyfloat \<Rightarrow> scrape \<Rightarrow> scrape" where
  "add_value_line rnd name v d =
     (let d' = setdefault name \<lparr>s_value = Some (Fin 0), s_hist = None\<rparr> d;
          s = lookup name d';
          old = (case s_value s of None \<Rightarrow> Fin 0 | Some x \<Rightarrow> x)
      in dset name (s\<lparr>s_value := Some (f_add rnd old v)\<rparr>) d')"

definition add_line :: "rounding \<Rightarrow> string \<Rightarrow> string \<Rightarrow> pyfloat \<Rightarrow> scrape \<Rightarrow> exn + scrape" where
  "add_line rnd name labels v d =
     (if ends_with ''_bucket'' name then add_bucket rnd (drop_end 7 name) labels v d
      else if ends_with ''_count'' name \<and> drop_end 6 name \<in> set (keys d)
      then with_hist ''count'' (drop_end 6 name) (\<lambda>h. h\<lparr>h_count := f_add rnd (h_count h) v\<rparr>) d
      else if ends_with ''_sum'' name \<and> drop_end 4 name \<in> set (keys d)
      then with_hist ''sum'' (drop_end 4 name) (\<lambda>h. h\<lparr>h_sum := f_add rnd (h_sum h) v\<rparr>) d
      else Inr (add_value_line rnd name v d))"

fun parse_lines :: "rounding \<Rightarrow> string list \<Rightarrow> scrape \<Rightarrow> exn + scrape" where
  "parse_lines rnd [] d = Inr d"
| "parse_lines rnd (raw # ls) d =
     (if raw = [] \<or> hd raw = CHR ''#'' then parse_lines rnd ls d
      else case match_line raw of
          None \<Rightarrow> parse_lines rnd ls d
        | Some (name, labels, v) \<Rightarrow>
            (case float_of_str rnd v of
               Inl e \<Rightarrow> Inl e
             | Inr x \<Rightarrow>
                 (case add_line rnd name labels x d of
                    Inl e \<Rightarrow> Inl e
                  | Inr d' \<Rightarrow> parse_lines rnd ls d')))"

definition parse_page :: "rounding \<Rightarrow> string \<Rightarrow> exn + scrape" where
  "parse_page rnd txt = parse_lines rnd (splitlines txt) []"

section \<open>Quantiles\<close>

fun quantile_from ::
  "rounding \<Rightarrow> buckets \<Rightarrow> pyfloat \<Rightarrow> pyfloat \<Rightarrow> pyfloat \<Rightarrow> pyfloat \<Rightarrow> pyfloat list \<Rightarrow> exn + pyfloat option" where
  "quantile_from rnd d rank top_le prev_le prev_cum [] = Inr (Some top_le)"
| "quantile_from rnd d rank top_le prev_le prev_cum (le # les) =
     (let cum = bucket_get le d in
      if f_le rank cum then
        (if f_eq le PInf then Inr (Some prev_le)
         else if f_eq cum prev_cum then Inr (Some le)
         else (case f_div rnd (f_mul rnd (f_sub rnd le prev_le) (f_sub rnd rank prev_cum)) (f_sub rnd cum prev_cum) of
                 Inl e \<Rightarrow> Inl e
               | Inr x \<Rightarrow> Inr (Some (f_add rnd prev_le x))))
      else quantile_from rnd d rank top_le le cum les)"

definition quantile :: "rounding \<Rightarrow> pyfloat \<Rightarrow> buckets \<Rightarrow> exn + pyfloat option" where
  "quantile rnd q d =
     (let les = sort (map fst d);
          total = (if les = [] then Fin 0 else bucket_get (last les) d)
      in if f_le total (Fin 0) then Inr None
         else quantile_from rnd d (f_mul rnd q total) (last les) (Fin 0) (Fin 0) les)"

section \<open>The sample\<close>

definition sglang_map :: "string dict" where
  "sglang_map =
     [(''ttft_s'', ''sglang:time_to_first_token_seconds''), (''e2e_s'', ''sglang:e2e_request_latency_seconds''),
      (''gen_tokens'', ''sglang:generation_tokens_total''), (''running'', ''sglang:num_running_reqs''),
      (''queued'', ''sglang:num_queue_reqs'')]"

definition vllm_map :: "string dict" where
  "vllm_map =
     [(''ttft_s'', ''vllm:time_to_first_token_seconds''), (''e2e_s'', ''vllm:e2e_request_latency_seconds''),
      (''gen_tokens'', ''vllm:generation_tokens_total''), (''running'', ''vllm:num_requests_running''),
      (''queued'', ''vllm:num_requests_waiting'')]"

record 'e scraper =
  sp_urls :: "string dict"
  sp_map :: "string dict"
  sp_fetch :: "string \<Rightarrow> ('e, string) stmt"
  sp_now :: "('e, pyfloat) stmt"
  sp_rounding :: rounding

text \<open>The state: what was scraped last from each replica and when, and the world of the fetches.\<close>

record 'e scraper_state =
  ss_prev :: "(pyfloat \<times> scrape) dict"
  ss_world :: 'e

definition series_of :: "string dict \<Rightarrow> string \<Rightarrow> scrape \<Rightarrow> series option" where
  "series_of nm k d = (case map_of nm k of None \<Rightarrow> None | Some n \<Rightarrow> map_of d n)"

definition gauge :: "string dict \<Rightarrow> scrape \<Rightarrow> string \<Rightarrow> pyfloat dict" where
  "gauge nm cur k =
     (case series_of nm k cur of
        None \<Rightarrow> []
      | Some s \<Rightarrow> (case s_value s of None \<Rightarrow> [] | Some v \<Rightarrow> [(k, v)]))"

definition throughput :: "rounding \<Rightarrow> string dict \<Rightarrow> scrape \<Rightarrow> scrape \<Rightarrow> pyfloat \<Rightarrow> exn + pyfloat dict" where
  "throughput rnd nm cur prev dt =
     (case (series_of nm ''gen_tokens'' cur, series_of nm ''gen_tokens'' prev) of
        (Some c, Some p) \<Rightarrow>
          (case (s_value c, s_value p) of
             (Some a, Some b) \<Rightarrow>
               (case f_div rnd (f_sub rnd a b) dt of Inl e \<Rightarrow> Inl e | Inr x \<Rightarrow> Inr [(''throughput'', x)])
           | _ \<Rightarrow> Inl (KeyError ''value''))
      | _ \<Rightarrow> Inr [])"

definition delta :: "rounding \<Rightarrow> buckets \<Rightarrow> buckets \<Rightarrow> buckets" where
  "delta rnd cur prev = map (\<lambda>(le, v). (le, f_sub rnd v (bucket_get le prev))) cur"

definition quantiles :: "(pyfloat \<times> string) list" where
  "quantiles = [(Fin (1 / 2), ''p50''), (Fin (19 / 20), ''p95''), (Fin (99 / 100), ''p99'')]"

fun quantile_entries :: "rounding \<Rightarrow> buckets \<Rightarrow> string \<Rightarrow> (pyfloat \<times> string) list \<Rightarrow> exn + pyfloat dict" where
  "quantile_entries rnd d lbl [] = Inr []"
| "quantile_entries rnd d lbl ((q, nm) # qs) =
     (case quantile rnd q d of
        Inl e \<Rightarrow> Inl e
      | Inr v \<Rightarrow>
          (case quantile_entries rnd d lbl qs of
             Inl e \<Rightarrow> Inl e
           | Inr out \<Rightarrow>
               Inr (case v of None \<Rightarrow> out | Some x \<Rightarrow> (nm @ ''_'' @ lbl @ ''_ms'', f_mul rnd x (Fin 1000)) # out)))"

definition latency :: "rounding \<Rightarrow> string dict \<Rightarrow> scrape \<Rightarrow> scrape \<Rightarrow> string \<Rightarrow> string \<Rightarrow> exn + pyfloat dict" where
  "latency rnd nm cur prev key lbl =
     (case (series_of nm key cur, series_of nm key prev) of
        (Some c, Some p) \<Rightarrow>
          (case s_hist c of
             None \<Rightarrow> Inr []
           | Some hc \<Rightarrow>
               (case s_hist p of
                  None \<Rightarrow> (if h_buckets hc = [] then Inl (KeyError ''count'') else Inl (KeyError ''buckets''))
                | Some hp \<Rightarrow>
                    (case quantile_entries rnd (delta rnd (h_buckets hc) (h_buckets hp)) lbl
                        (map (\<lambda>(q, n). (case q of Fin x \<Rightarrow> rnd x | _ \<Rightarrow> q, n)) quantiles) of
                       Inl e \<Rightarrow> Inl e
                     | Inr out \<Rightarrow>
                         let n = f_sub rnd (h_count hc) (h_count hp) in
                         Inr (out @ (if f_lt (Fin 0) n then [(lbl @ ''_requests'', n)] else [])))))
      | _ \<Rightarrow> Inr [])"

definition rates :: "rounding \<Rightarrow> string dict \<Rightarrow> scrape \<Rightarrow> pyfloat \<Rightarrow> (pyfloat \<times> scrape) option \<Rightarrow> exn + pyfloat dict" where
  "rates rnd nm cur now prev =
     (case prev of
        None \<Rightarrow> Inr []
      | Some (pt, p) \<Rightarrow>
          (case throughput rnd nm cur p (f_max (f_sub rnd now pt) (rnd (1 / 1000000))) of Inl e \<Rightarrow> Inl e | Inr a \<Rightarrow>
           case latency rnd nm cur p ''ttft_s'' ''ttft'' of Inl e \<Rightarrow> Inl e | Inr b \<Rightarrow>
           case latency rnd nm cur p ''e2e_s'' ''e2e'' of Inl e \<Rightarrow> Inl e | Inr c \<Rightarrow>
           Inr (a @ b @ c)))"

definition on_world :: "('e, 'a) stmt \<Rightarrow> ('e scraper_state, 'a) stmt" where
  "on_world m s = (case m (ss_world s) of (r, e) \<Rightarrow> (r, s\<lparr>ss_world := e\<rparr>))"

definition sample :: "'e scraper \<Rightarrow> string \<Rightarrow> ('e scraper_state, pyfloat dict) stmt" where
  "sample c r =
     andthen (on_world (sp_now c)) (\<lambda>now.
     andthen (of_result (case map_of (sp_urls c) r of None \<Rightarrow> Inl (KeyError r) | Some u \<Rightarrow> Inr u)) (\<lambda>url.
     andthen (on_world (sp_fetch c url)) (\<lambda>txt.
     andthen (of_result (parse_page (sp_rounding c) txt)) (\<lambda>cur s.
       case rates (sp_rounding c) (sp_map c) cur now (map_of (ss_prev s) r) of
         Inl e \<Rightarrow> (Inl e, s)
       | Inr out \<Rightarrow>
           (Inr (gauge (sp_map c) cur ''running'' @ gauge (sp_map c) cur ''queued'' @ out),
            s\<lparr>ss_prev := dset r (now, cur) (ss_prev s)\<rparr>)))))"

end
