(* ===== verification/Metrics_Facts.thy ===== *)
theory Metrics_Facts
  imports Metrics Canary_Facts
begin

text \<open>
  What the scraper guarantees: a quantile lies in the bucket that its rank falls into, and a
  metric that a page does not have is absent from the sample, so that a gate on it fails.
\<close>

section \<open>Quantiles lie in their bucket\<close>

definition cum :: "buckets \<Rightarrow> pyfloat \<Rightarrow> rat" where
  "cum d le = (case bucket_get le d of Fin x \<Rightarrow> x | _ \<Rightarrow> 0)"

text \<open>
  The deltas of a histogram: positive bounds, the last of them perhaps infinite, and counts that
  do not fall from one bound to the next.
\<close>

definition cumulative :: "buckets \<Rightarrow> bool" where
  "cumulative d \<longleftrightarrow> distinct (map fst d) \<and>
     (\<forall>(le, v) \<in> set d. (le = PInf \<or> (\<exists>u. le = Fin u \<and> 0 < u)) \<and> (\<exists>x. v = Fin x \<and> 0 \<le> x)) \<and>
     (\<forall>(le, v) \<in> set d. \<forall>(le', v') \<in> set d. le \<le> le' \<longrightarrow> f_le v v')"

lemma bucket_get_mem:
  "distinct (map fst d) \<Longrightarrow> (\<forall>(le, v) \<in> set d. le \<noteq> NaN) \<Longrightarrow> (le, v) \<in> set d \<Longrightarrow> bucket_get le d = v"
proof (induction d)
  case (Cons p d)
  obtain k w where p: "p = (k, w)" by (cases p)
  have eq: "f_eq le k \<longleftrightarrow> le = k" using Cons.prems(2,3) p by (cases le; cases k) auto
  show ?case
  proof (cases "le = k")
    case True
    then have "v = w" using Cons.prems(1,3) p by force
    then show ?thesis using True p Cons.prems(2) eq by simp
  next
    case False
    then show ?thesis using Cons p eq by auto
  qed
qed simp

lemma f_le_Fin [simp]: "f_le (Fin a) (Fin b) \<longleftrightarrow> a \<le> b"
  by (auto simp: f_le_def)

lemma Fin_order [simp]: "Fin a \<le> Fin b \<longleftrightarrow> a \<le> b" "Fin a < Fin b \<longleftrightarrow> a < b" "Fin a < PInf" "\<not> PInf < Fin a" "Fin a \<le> PInf"
  by (simp_all add: less_eq_pyfloat_def less_pyfloat_def)

lemma interpolation:
  fixes a b x y z :: rat
  assumes "a \<le> b" and "y < x" and "x \<le> z"
  shows "a \<le> a + (b - a) * (x - y) / (z - y) \<and> a + (b - a) * (x - y) / (z - y) \<le> b"
proof -
  let ?t = "(x - y) / (z - y)"
  have t: "0 \<le> ?t" "?t \<le> 1" using assms by (simp_all add: field_simps)
  have "0 \<le> (b - a) * ?t" using assms(1) t(1) by (intro mult_nonneg_nonneg) simp_all
  moreover have "(b - a) * ?t \<le> (b - a) * 1" using assms(1) t(2) by (intro mult_left_mono) simp_all
  ultimately show ?thesis by simp
qed

text \<open>
  \<open>in_bucket\<close>: the value \<open>v\<close> lies in the first bucket of \<open>les\<close> whose count reaches \<open>rk\<close>, above
  the bounds before it; in an infinite bucket it is the bound before it.
\<close>

definition in_bucket :: "buckets \<Rightarrow> pyfloat list \<Rightarrow> rat \<Rightarrow> rat \<Rightarrow> rat \<Rightarrow> bool" where
  "in_bucket d les rk pl v \<longleftrightarrow> pl \<le> v \<and> (\<exists>le \<in> set les. rk \<le> cum d le \<and>
     (\<forall>le' \<in> set les. le' < le \<longrightarrow> cum d le' < rk \<and> le' \<le> Fin v) \<and>
     (\<forall>u. le = Fin u \<longrightarrow> v \<le> u) \<and> (le = PInf \<longrightarrow> v = pl \<or> Fin v \<in> set les))"

lemma quantile_from_in_bucket:
  assumes "sorted les" and "distinct les" and "les \<noteq> []"
    and "\<forall>le \<in> set les. (le = PInf \<or> (\<exists>u. le = Fin u \<and> pl \<le> u)) \<and> bucket_get le d = Fin (cum d le)"
    and "pc < rk" and "rk \<le> cum d (last les)"
  shows "\<exists>v. quantile_from Fin d (Fin rk) t (Fin pl) (Fin pc) les = Inr (Some (Fin v)) \<and> in_bucket d les rk pl v"
  using assms
proof (induction les arbitrary: pl pc)
  case Nil
  then show ?case by simp
next
  case (Cons le les)
  let ?c = "cum d le"
  have get: "bucket_get le d = Fin ?c" using Cons.prems(4) by simp
  have above: "le < le'" if "le' \<in> set les" for le'
    using Cons.prems(1,2) that by (auto simp: less_le)
  show ?case
  proof (cases "rk \<le> ?c")
    case True
    have first: "\<not> le' < le" if "le' \<in> set (le # les)" for le' using above that by force
    consider (inf) "le = PInf" | (fin) u where "le = Fin u" "pl \<le> u" using Cons.prems(4) by auto
    then show ?thesis
    proof cases
      case inf
      then show ?thesis using True get first by (auto simp: in_bucket_def Let_def)
    next
      case fin
      let ?v = "pl + (u - pl) * (rk - pc) / (?c - pc)"
      have v: "pl \<le> ?v \<and> ?v \<le> u" by (rule interpolation [OF fin(2) Cons.prems(5) True])
      have "quantile_from Fin d (Fin rk) t (Fin pl) (Fin pc) (le # les) = Inr (Some (Fin ?v))"
        using True get fin Cons.prems(5) by (simp add: f_sub_def Let_def)
      moreover have "in_bucket d (le # les) rk pl ?v"
        using v fin True first unfolding in_bucket_def by (intro conjI bexI [of _ le]) auto
      ultimately show ?thesis by blast
    qed
  next
    case False
    have ne: "les \<noteq> []" using Cons.prems(6) False by auto
    have "le \<noteq> PInf"
    proof
      assume "le = PInf"
      obtain le' where "le' \<in> set les" using ne by (cases les) auto
      then show False using above [of le'] Cons.prems(4) \<open>le = PInf\<close> by auto
    qed
    then obtain u where u: "le = Fin u" "pl \<le> u" using Cons.prems(4) by auto
    have "\<forall>le' \<in> set les. (le' = PInf \<or> (\<exists>x. le' = Fin x \<and> u \<le> x)) \<and> bucket_get le' d = Fin (cum d le')"
      using Cons.prems(4) above u(1) by (metis Fin_order(2) less_imp_le list.set_intros(2))
    then obtain v where v: "quantile_from Fin d (Fin rk) t (Fin u) (Fin ?c) les = Inr (Some (Fin v))"
      and b: "in_bucket d les rk u v"
      using Cons.IH [of u ?c] Cons.prems(1,2,6) ne False by auto
    obtain le0 where le0: "le0 \<in> set les" "rk \<le> cum d le0"
      "\<forall>le' \<in> set les. le' < le0 \<longrightarrow> cum d le' < rk \<and> le' \<le> Fin v"
      "\<forall>x. le0 = Fin x \<longrightarrow> v \<le> x" "le0 = PInf \<longrightarrow> v = u \<or> Fin v \<in> set les" and uv: "u \<le> v"
      using b unfolding in_bucket_def by blast
    have "le \<le> Fin v" "cum d le < rk" using u(1) uv False by simp_all
    then have "in_bucket d (le # les) rk pl v"
      unfolding in_bucket_def using le0 u uv by (intro conjI bexI [of _ le0]) auto
    moreover have "quantile_from Fin d (Fin rk) t (Fin pl) (Fin pc) (le # les) = Inr (Some (Fin v))"
      using v get False u(1) by (simp add: Let_def)
    ultimately show ?thesis by blast
  qed
qed


section \<open>Where a metric comes from\<close>

definition latency_keys :: "string \<Rightarrow> string list" where
  "latency_keys lbl = map (\<lambda>(q, nm). nm @ ''_'' @ lbl @ ''_ms'') quantiles @ [lbl @ ''_requests'']"

text \<open>The engine series that a metric of the gates is computed from.\<close>

definition metric_sources :: "string dict" where
  "metric_sources =
     [(''running'', ''running''), (''queued'', ''queued''), (''throughput'', ''gen_tokens'')] @
     map (\<lambda>k. (k, ''ttft_s'')) (latency_keys ''ttft'') @ map (\<lambda>k. (k, ''e2e_s'')) (latency_keys ''e2e'')"

lemma keys_gauge: "set (keys (gauge nm cur k)) \<subseteq> {k}"
  "series_of nm k cur = None \<Longrightarrow> gauge nm cur k = []"
  by (auto simp: gauge_def split: option.split)

lemma keys_throughput:
  "throughput rnd nm cur p dt = Inr out \<Longrightarrow> set (keys out) \<subseteq> {''throughput''}"
  "throughput rnd nm cur p dt = Inr out \<Longrightarrow> series_of nm ''gen_tokens'' cur = None \<Longrightarrow> out = []"
  by (auto simp: throughput_def split: option.splits sum.splits)

lemma keys_quantiles:
  "quantile_entries rnd d lbl qs = Inr out \<Longrightarrow> set (keys out) \<subseteq> set (map (\<lambda>(q, nm). nm @ ''_'' @ lbl @ ''_ms'') qs)"
proof (induction qs arbitrary: out)
  case (Cons p qs)
  obtain q nm where p: "p = (q, nm)" by (cases p)
  then obtain v out' where "quantile_entries rnd d lbl qs = Inr out'"
    and "out = (case v of None \<Rightarrow> out' | Some x \<Rightarrow> (nm @ ''_'' @ lbl @ ''_ms'', f_mul rnd x (Fin 1000)) # out')"
    using Cons.prems by (auto split: sum.splits)
  then show ?case using Cons.IH [of out'] p by (auto split: option.splits)
qed simp

lemma keys_latency:
  "latency rnd nm cur p key lbl = Inr out \<Longrightarrow> set (keys out) \<subseteq> set (latency_keys lbl)"
  "latency rnd nm cur p key lbl = Inr out \<Longrightarrow> series_of nm key cur = None \<Longrightarrow> out = []"
proof -
  show "latency rnd nm cur p key lbl = Inr out \<Longrightarrow> set (keys out) \<subseteq> set (latency_keys lbl)"
    using keys_quantiles
    by (fastforce simp: latency_def latency_keys_def Let_def quantiles_def split: option.splits sum.splits if_splits)
  show "latency rnd nm cur p key lbl = Inr out \<Longrightarrow> series_of nm key cur = None \<Longrightarrow> out = []"
    by (simp add: latency_def)
qed

lemma sample_parts:
  assumes "sample c r s = (Inr out, s')"
  obtains now cur rest where "map_of (ss_prev s') r = Some (now, cur)"
    and "rates (sp_rounding c) (sp_map c) cur now (map_of (ss_prev s) r) = Inr rest"
    and "out = gauge (sp_map c) cur ''running'' @ gauge (sp_map c) cur ''queued'' @ rest"
proof -
  obtain now s1 url page s2 cur where
    s: "on_world (sp_now c) s = (Inr now, s1)" "on_world (sp_fetch c url) s1 = (Inr page, s2)"
    "(case rates (sp_rounding c) (sp_map c) cur now (map_of (ss_prev s2) r) of
       Inl e \<Rightarrow> (Inl e, s2)
     | Inr rest \<Rightarrow> (Inr (gauge (sp_map c) cur ''running'' @ gauge (sp_map c) cur ''queued'' @ rest),
        s2\<lparr>ss_prev := dset r (now, cur) (ss_prev s2)\<rparr>)) = (Inr out, s')"
    using assms unfolding sample_def
    by (elim andthen_InrE) (auto simp del: append.simps split: option.splits)
  have "ss_prev s2 = ss_prev s"
    using s(1,2) by (auto simp: on_world_def split: prod.splits)
  then show thesis using that [of now cur] s(3) by (auto split: sum.splits)
qed

definition the_series :: "string dict \<Rightarrow> scrape \<Rightarrow> string \<Rightarrow> bool" where
  "the_series nm cur m \<longleftrightarrow> (\<exists>k. map_of metric_sources m = Some k \<and> series_of nm k cur \<noteq> None)"

lemma latency_sources:
  "m \<in> set (latency_keys ''ttft'') \<Longrightarrow> map_of metric_sources m = Some ''ttft_s''"
  "m \<in> set (latency_keys ''e2e'') \<Longrightarrow> map_of metric_sources m = Some ''e2e_s''"
  by (auto simp: metric_sources_def latency_keys_def quantiles_def)

lemma sample_keys:
  assumes "rates rnd nm cur now prev = Inr rest" and "\<not> the_series nm cur m"
  shows "m \<notin> set (keys (gauge nm cur ''running'' @ gauge nm cur ''queued'' @ rest))"
proof -
  have src: "map_of metric_sources m = Some k \<Longrightarrow> series_of nm k cur = None" for k
    using assms(2) by (auto simp: the_series_def)
  have gauge: "m \<notin> set (keys (gauge nm cur k))" if "map_of metric_sources k = Some k" for k
    using keys_gauge(1) [of nm cur k] keys_gauge(2) [of nm k cur] src [of k] that by (cases "m = k") auto
  have gauges: "m \<notin> set (keys (gauge nm cur ''running''))" "m \<notin> set (keys (gauge nm cur ''queued''))"
    by (rule gauge, simp add: metric_sources_def)+
  have "m \<notin> set (keys rest)"
  proof (cases prev)
    case None
    then show ?thesis using assms(1) by (simp add: rates_def)
  next
    case (Some pp)
    obtain pt p where pp: "pp = (pt, p)" by (cases pp)
    obtain a b d where parts: "throughput rnd nm cur p (f_max (f_sub rnd now pt) (rnd (1 / 1000000))) = Inr a"
      "latency rnd nm cur p ''ttft_s'' ''ttft'' = Inr b" "latency rnd nm cur p ''e2e_s'' ''e2e'' = Inr d" "rest = a @ b @ d"
      using assms(1) Some pp by (auto simp: rates_def split: sum.splits)
    have "m \<notin> set (keys a)"
      using keys_throughput [OF parts(1)] src [of "''gen_tokens''"] by (auto simp: metric_sources_def)
    moreover have "m \<notin> set (keys b)"
      using keys_latency [OF parts(2)] src [of "''ttft_s''"] latency_sources(1) by force
    moreover have "m \<notin> set (keys d)"
      using keys_latency [OF parts(3)] src [of "''e2e_s''"] latency_sources(2) by force
    ultimately show ?thesis using parts(4) by simp
  qed
  then show ?thesis using gauges by simp
qed

section \<open>Properties\<close>

text \<open>
  C27. A quantile lies where its rank falls. Over deltas that are cumulative, with observations in
  the window, the quantile q exists in exact arithmetic, and it lies in the first bucket whose
  count reaches q times the total: not below 0 or any bound before that bucket, not above the
  bound of the bucket, and in the infinite bucket it is the last finite bound. Without
  observations there is no quantile.
\<close>

theorem quantile_in_bucket:
  assumes "cumulative d" and "0 < q"
  shows "if d = [] \<or> cum d (last (sort (map fst d))) = 0 then quantile Fin (Fin q) d = Inr None
    else q \<le> 1 \<longrightarrow> (\<exists>v. quantile Fin (Fin q) d = Inr (Some (Fin v)) \<and> 0 \<le> v \<and>
      (\<exists>le \<in> set (map fst d). q * cum d (last (sort (map fst d))) \<le> cum d le \<and>
        (\<forall>le' \<in> set (map fst d). le' < le \<longrightarrow>
          cum d le' < q * cum d (last (sort (map fst d))) \<and> le' \<le> Fin v) \<and>
        (\<forall>u. le = Fin u \<longrightarrow> v \<le> u) \<and> (le = PInf \<longrightarrow> v = 0 \<or> Fin v \<in> set (map fst d))))"
proof -
  let ?les = "sort (map fst d)"
  let ?n = "cum d (last ?les)"
  have nan: "\<forall>(le, v) \<in> set d. le \<noteq> NaN" and dist: "distinct (map fst d)"
    using assms(1) by (auto simp: cumulative_def)
  have get: "bucket_get le d = Fin (cum d le) \<and> 0 \<le> cum d le" if "le \<in> set (map fst d)" for le
  proof -
    have "\<exists>v. (le, v) \<in> set d" using that by auto
    then obtain v where v: "(le, v) \<in> set d" ..
    then have "bucket_get le d = v" by (rule bucket_get_mem [OF dist nan])
    then show ?thesis using assms(1) v by (auto simp: cumulative_def cum_def)
  qed
  show ?thesis
  proof (cases "d = []")
    case True
    then show ?thesis by (simp add: quantile_def)
  next
    case False
    have "length ?les = length d" by simp
    then have ne: "?les \<noteq> []" using False by (metis length_0_conv)
    have total: "bucket_get (last ?les) d = Fin ?n" "0 \<le> ?n"
      using get [of "last ?les"] last_in_set [OF ne] by simp_all
    have run: "quantile Fin (Fin q) d = (if ?n = 0 then Inr None
        else quantile_from Fin d (Fin (q * ?n)) (last ?les) (Fin 0) (Fin 0) ?les)"
      using total ne by (simp add: quantile_def Let_def)
    show ?thesis
    proof (cases "?n = 0 \<or> 1 < q")
      case True
      then show ?thesis using run \<open>d \<noteq> []\<close> by auto
    next
      case False
      then have n: "0 < ?n" and q1: "q \<le> 1" using total(2) by simp_all
      have "\<forall>le \<in> set ?les. (le = PInf \<or> (\<exists>u. le = Fin u \<and> 0 \<le> u)) \<and> bucket_get le d = Fin (cum d le)"
        using get assms(1) by (fastforce simp: cumulative_def)
      then obtain v where "quantile_from Fin d (Fin (q * ?n)) (last ?les) (Fin 0) (Fin 0) ?les = Inr (Some (Fin v))"
        and "in_bucket d ?les (q * ?n) 0 v"
        using quantile_from_in_bucket [of ?les 0 d 0 "q * ?n"] dist ne n q1 assms(2) by auto
      then show ?thesis using run n \<open>d \<noteq> []\<close> by (simp add: in_bucket_def)
    qed
  qed
qed

theorem quantile_in_bucket_witness:
  "\<exists>v. quantile Fin (Fin (1 / 2)) [(Fin 1, Fin 3), (Fin 2, Fin 4)] = Inr (Some (Fin v)) \<and> 0 \<le> v"
proof -
  let ?d = "[(Fin 1, Fin 3), (Fin 2, Fin 4)]"
  have "cumulative ?d" by (simp add: cumulative_def)
  moreover have "cum ?d (last (sort (map fst ?d))) = 4" by code_simp
  ultimately show ?thesis using quantile_in_bucket [of ?d "1 / 2"] by auto
qed

text \<open>
  A missing metric stays missing. A sample has no entry for a metric whose series the page
  does not have, and the first sample of a replica has none of the rates, quantiles and request
  counts; a gate on a metric that the canary's metrics lack is failed, with the finding that says so.
\<close>

theorem absent_metric_fails:
  assumes "sample c r s = (Inr out, s')" and "map_of (ss_prev s') r = Some (now, cur)"
    and "\<not> the_series (sp_map c) cur m \<or> map_of (ss_prev s) r = None \<and> m \<noteq> ''running'' \<and> m \<noteq> ''queued''"
  shows "map_of out m = None \<and>
    (map_of g ''metric'' = Some (JStr m) \<longrightarrow>
      evaluate rnd tx [g] out bm = Inr (False, [m @ '': no canary sample, gate cannot pass'']))"
proof -
  obtain now' cur' rest where parts: "map_of (ss_prev s') r = Some (now', cur')"
    "rates (sp_rounding c) (sp_map c) cur' now' (map_of (ss_prev s) r) = Inr rest"
    "out = gauge (sp_map c) cur' ''running'' @ gauge (sp_map c) cur' ''queued'' @ rest"
    using sample_parts [OF assms(1)] by blast
  have same: "now' = now" "cur' = cur" using parts(1) assms(2) by simp_all
  note rest = parts(2) [unfolded same]
  note out = parts(3) [unfolded same]
  have "m \<notin> set (keys out)"
  proof (cases "the_series (sp_map c) cur m")
    case False
    then show ?thesis using sample_keys [OF rest] out by simp
  next
    case True
    then have "rest = []" "m \<noteq> ''running''" "m \<noteq> ''queued''" using assms(3) rest by (auto simp: rates_def)
    then show ?thesis
      using keys_gauge(1) [of "sp_map c" cur "''running''"] keys_gauge(1) [of "sp_map c" cur "''queued''"] out by auto
  qed
  then have none: "map_of out m = None" by (simp add: map_of_keys_None)
  moreover have "evaluate rnd tx [g] out bm = Inr (False, [m @ '': no canary sample, gate cannot pass''])"
    if "map_of g ''metric'' = Some (JStr m)"
    using that none by (simp add: gate_check_def gate_metric_def metric_value_def str_json_def)
  ultimately show ?thesis by blast
qed


definition demo_scraper :: "unit scraper" where
  "demo_scraper =
     \<lparr>sp_urls = [(''r0'', ''u'')], sp_map = vllm_map, sp_fetch = \<lambda>_. ret ''vllm:num_requests_running 3'',
      sp_now = ret (Fin 1), sp_rounding = Fin\<rparr>"

definition demo_fresh :: "unit scraper_state" where
  "demo_fresh = \<lparr>ss_prev = [], ss_world = ()\<rparr>"

theorem absent_metric_fails_witness:
  "\<exists>out s'. sample demo_scraper ''r0'' demo_fresh = (Inr out, s') \<and> map_of out ''p99_ttft_ms'' = None"
proof -
  let ?r = "sample demo_scraper ''r0'' demo_fresh"
  have "case fst ?r of Inr out \<Rightarrow> True | Inl _ \<Rightarrow> False" by code_simp
  then obtain out s' where r: "?r = (Inr out, s')" by (cases ?r) (auto split: sum.splits)
  obtain now cur rest where prev: "map_of (ss_prev s') ''r0'' = Some (now, cur)"
    using sample_parts [OF r] by blast
  have "map_of (ss_prev demo_fresh) ''r0'' = None" by (simp add: demo_fresh_def)
  then have "map_of out ''p99_ttft_ms'' = None"
    using absent_metric_fails [OF r prev, of "''p99_ttft_ms''"] by simp
  then show ?thesis using r by blast
qed

end
