(* ===== verification/Operator.thy ===== *)
theory Operator
  imports Canary Server Metrics
begin

text \<open>
  The Kubernetes operator (\<open>trimtab/operator.py\<close>): the client of the Kubernetes API, and the
  reconciliation of an \<open>InferenceConfig\<close> object with the store. The Kubernetes API itself, the
  digest of \<open>spec_hash\<close> and the text of an exception are arguments. Objects are JSON values as
  the API gives them; the second component of the world is the Kubernetes side.
\<close>

section \<open>The Kubernetes client\<close>

record 'k k8s =
  k_req :: "string \<Rightarrow> string \<Rightarrow> json \<Rightarrow> string \<Rightarrow> ('k, json) stmt"

definition k_group :: string where "k_group = ''trimtab.numinous.technology''"
definition k_version :: string where "k_version = ''v1alpha1''"
definition k_plural :: string where "k_plural = ''inferenceconfigs''"

text \<open>\<open>v.get(k, d)\<close> and \<open>v[k]\<close> on a JSON value.\<close>

definition get_default :: "string \<Rightarrow> json \<Rightarrow> json \<Rightarrow> exn + json" where
  "get_default k d v =
     (case v of JObj m \<Rightarrow> Inr (case map_of m k of None \<Rightarrow> d | Some x \<Rightarrow> x) | _ \<Rightarrow> Inl AttributeError)"

definition item :: "string \<Rightarrow> json \<Rightarrow> exn + json" where
  "item k v = (case v of JObj m \<Rightarrow> need k m | _ \<Rightarrow> Inl TypeError)"

definition list_configs :: "'k k8s \<Rightarrow> string option \<Rightarrow> ('k, json list) stmt" where
  "list_configs k ns =
     (let part = (case ns of None \<Rightarrow> [] | Some n \<Rightarrow> if n = [] then [] else ''/namespaces/'' @ n) in
      andthen (k_req k ''GET'' (''/apis/'' @ k_group @ ''/'' @ k_version @ part @ ''/'' @ k_plural) JNull ''application/json'') (\<lambda>r.
      andthen (of_result (get_default ''items'' (JArr []) r)) (\<lambda>items.
      of_result (as_list Inr items))))"

definition meta :: "json \<Rightarrow> string \<Rightarrow> exn + string" where
  "meta obj k = rbind (item ''metadata'' obj) (\<lambda>m. rbind (item k m) as_str)"

definition status_path :: "string \<Rightarrow> string \<Rightarrow> string" where
  "status_path ns name =
     ''/apis/'' @ k_group @ ''/'' @ k_version @ ''/namespaces/'' @ ns @ ''/'' @ k_plural @ ''/'' @ name @ ''/status''"

definition patch_status :: "'k k8s \<Rightarrow> json \<Rightarrow> fields \<Rightarrow> ('k, json) stmt" where
  "patch_status k obj st =
     andthen (of_result (meta obj ''namespace'')) (\<lambda>ns.
     andthen (of_result (meta obj ''name'')) (\<lambda>name.
     k_req k ''PATCH'' (status_path ns name) (JObj [(''status'', JObj st)]) ''application/merge-patch+json''))"

section \<open>The operator\<close>

record ('s, 'k) operator_config =
  op_k8s :: "'k k8s"
  op_api :: "'s store_api"
  op_engine :: string
  op_namespace :: "string option"
  op_replicas :: "string list"
  op_sample :: "string dict \<Rightarrow> string \<Rightarrow> ('k, metrics) stmt"
  op_sleep :: "pyfloat \<Rightarrow> ('k, unit) stmt"
  op_digest :: "json \<Rightarrow> string"
  op_rounding :: rounding
  op_text :: gate_text
  op_exn_text :: "exn \<Rightarrow> string"

definition spec_hash :: "(json \<Rightarrow> string) \<Rightarrow> fields \<Rightarrow> string" where
  "spec_hash digest spec =
     digest (json_sorted (JObj
       [(''fields'', case map_of spec ''fields'' of None \<Rightarrow> JObj [] | Some x \<Rightarrow> x),
        (''canary'', case map_of spec ''canary'' of None \<Rightarrow> JNull | Some x \<Rightarrow> x)]))"

definition field_or :: "string \<Rightarrow> json \<Rightarrow> fields \<Rightarrow> json" where
  "field_or k d m = (case map_of m k of None \<Rightarrow> d | Some x \<Rightarrow> x)"

definition author :: "json \<Rightarrow> exn + string" where
  "author obj = rbind (meta obj ''namespace'') (\<lambda>ns. rbind (meta obj ''name'') (\<lambda>n. Inr (''k8s/'' @ ns @ ''/'' @ n)))"

definition operator_canary :: "('s, 'k) operator_config \<Rightarrow> string \<Rightarrow> string list \<Rightarrow> ('s, 'k) canary_config" where
  "operator_canary c grp reps =
     \<lparr>cc_api = op_api c, cc_sample = op_sample c (if op_engine c = ''sglang'' then sglang_map else vllm_map),
      cc_sleep = op_sleep c, cc_group = grp, cc_all = reps, cc_rounding = op_rounding c, cc_text = op_text c\<rparr>"

definition known_replicas :: "('s, 'k) operator_config \<Rightarrow> string \<Rightarrow> (('s, 'k) world, string list) stmt" where
  "known_replicas c grp =
     (if op_replicas c \<noteq> [] then ret (op_replicas c)
      else andthen (on_store (api_status (op_api c) grp)) (\<lambda>rows. ret (sort (remdups (map s_replica_id rows)))))"

definition open_from_spec ::
  "('s, 'k) operator_config \<Rightarrow> string \<Rightarrow> int \<Rightarrow> json \<Rightarrow> (('s, 'k) world, fields) stmt" where
  "open_from_spec c grp vid can =
     andthen (known_replicas c grp) (\<lambda>reps.
     andthen (of_result (rbind (item ''scope'' can) (as_list as_str))) (\<lambda>scope.
     andthen (of_result (rbind (item ''gates'' can) (as_list as_obj))) (\<lambda>gates.
     andthen (of_result (rbind (get_default ''window_s'' (JInt 300) can) (float_of (op_rounding c)))) (\<lambda>window.
     andthen (start (operator_canary c grp reps) vid scope gates window) (\<lambda>cid.
     ret [(''phase'', JStr ''canary''), (''canaryId'', JInt cid)])))))"

definition promote_from_spec :: "('s, 'k) operator_config \<Rightarrow> string \<Rightarrow> int \<Rightarrow> (('s, 'k) world, fields) stmt" where
  "promote_from_spec c grp vid =
     andthen (on_store (api_promote (op_api c) grp vid)) (\<lambda>_. ret [(''phase'', JStr ''promoted'')])"

text \<open>A changed spec: a version is proposed, and promoted or put on a canary.\<close>

definition apply_spec ::
  "('s, 'k) operator_config \<Rightarrow> json \<Rightarrow> fields \<Rightarrow> string \<Rightarrow> fields \<Rightarrow> (('s, 'k) world, fields) stmt" where
  "apply_spec c obj spec grp st =
     (let h = spec_hash (op_digest c) spec in
      if map_of st ''appliedHash'' = Some (JStr h) \<or> \<not> truthy (field_or ''fields'' JNull spec) then ret st
      else
        andthen (of_result (as_obj (field_or ''fields'' JNull spec))) (\<lambda>flds.
        andthen (of_result (author obj)) (\<lambda>who.
        andthen (of_result (as_str (field_or ''reason'' (JStr []) spec))) (\<lambda>why.
        andthen (on_store (api_propose (op_api c) grp flds who why)) (\<lambda>v.
        andthen (if truthy (field_or ''canary'' JNull spec)
                 then open_from_spec c grp (cv_id v) (field_or ''canary'' JNull spec)
                 else promote_from_spec c grp (cv_id v)) (\<lambda>upd.
        ret (dict_update (dict_update st [(''appliedHash'', JStr h), (''versionId'', JInt (cv_id v))]) upd)))))))"

definition follow_canary :: "('s, 'k) operator_config \<Rightarrow> fields \<Rightarrow> (('s, 'k) world, fields) stmt" where
  "follow_canary c st =
     (if map_of st ''phase'' = Some (JStr ''canary'') \<and> truthy (field_or ''canaryId'' JNull st) then
        andthen (of_result (int_of (field_or ''canaryId'' JNull st))) (\<lambda>cid.
        andthen (on_store (api_canary (op_api c) cid)) (\<lambda>row.
        ret (if c_status row = ''observing'' then st
          else dict_update st [(''phase'', JStr (c_status row)), (''canaryDecision'', JStr (c_decision row))])))
      else ret st)"

definition replica_json :: "status_row \<Rightarrow> json" where
  "replica_json r =
     JObj [(''replica'', JStr (s_replica_id r)), (''appliedVersionId'', opt_int (s_applied r)),
       (''state'', JStr (s_state r)), (''detail'', JStr (s_detail r))]"

definition report_view :: "('s, 'k) operator_config \<Rightarrow> string \<Rightarrow> fields \<Rightarrow> (('s, 'k) world, fields) stmt" where
  "report_view c grp st =
     andthen (on_store (api_desired (op_api c) grp)) (\<lambda>d.
     andthen (on_store (api_status (op_api c) grp)) (\<lambda>rows.
     ret (dict_update st [(''desiredVersionId'', opt_int (map_option cv_id d)), (''replicas'', JArr (map replica_json rows))])))"

definition spec_of :: "json \<Rightarrow> exn + fields" where
  "spec_of obj = rbind (get_default ''spec'' (JObj []) obj) as_obj"

definition status_of :: "json \<Rightarrow> exn + fields" where
  "status_of obj = rbind (get_default ''status'' (JObj []) obj) (\<lambda>s. if truthy s then as_obj s else Inr [])"

definition reconcile_one :: "('s, 'k) operator_config \<Rightarrow> json \<Rightarrow> (('s, 'k) world, fields) stmt" where
  "reconcile_one c obj =
     andthen (of_result (spec_of obj)) (\<lambda>spec.
     andthen (of_result (status_of obj)) (\<lambda>st.
     andthen (of_result (rbind (need ''group'' spec) as_str)) (\<lambda>grp.
     andthen (apply_spec c obj spec grp st) (\<lambda>st1.
     andthen (follow_canary c st1) (\<lambda>st2.
     andthen (report_view c grp st2) (\<lambda>st3.
     andthen (if dict_eq st3 st then ret JNull else on_engine (patch_status (op_k8s c) obj st3)) (\<lambda>_.
     ret st3)))))))"

fun caught :: "exn \<Rightarrow> bool" where
  "caught (ValueError _) = True"
| "caught (KeyError _) = True"
| "caught (HTTPError _) = True"
| "caught _ = False"

definition error_status :: "('s, 'k) operator_config \<Rightarrow> exn \<Rightarrow> fields" where
  "error_status c e = [(''phase'', JStr ''error''), (''error'', JStr (op_exn_text c e))]"

text \<open>\<open>out[name] = ...\<close>: the key is read after the value, inside the same \<open>try\<close>.\<close>

definition put_out :: "json \<Rightarrow> fields dict \<Rightarrow> fields \<Rightarrow> ('w, fields dict) stmt" where
  "put_out obj out st = andthen (of_result (meta obj ''name'')) (\<lambda>name. ret (dset name st out))"

definition handle_one :: "('s, 'k) operator_config \<Rightarrow> json \<Rightarrow> fields dict \<Rightarrow> (('s, 'k) world, fields dict) stmt" where
  "handle_one c obj out w =
     (case andthen (reconcile_one c obj) (put_out obj out) w of
        (Inl e, w') \<Rightarrow>
          if caught e
          then andthen (on_engine (patch_status (op_k8s c) obj (error_status c e)))
                 (\<lambda>_. put_out obj out (error_status c e)) w'
          else (Inl e, w')
      | (Inr out', w') \<Rightarrow> (Inr out', w'))"

fun op_loop :: "('s, 'k) operator_config \<Rightarrow> json list \<Rightarrow> fields dict \<Rightarrow> (('s, 'k) world, fields dict) stmt" where
  "op_loop c [] out = ret out"
| "op_loop c (obj # objs) out = andthen (handle_one c obj out) (\<lambda>out'. op_loop c objs out')"

definition op_tick :: "('s, 'k) operator_config \<Rightarrow> (('s, 'k) world, fields dict) stmt" where
  "op_tick c = andthen (on_engine (list_configs (op_k8s c) (op_namespace c))) (\<lambda>objs. op_loop c objs [])"

fun op_run :: "nat \<Rightarrow> ('s, 'k) operator_config \<Rightarrow> (('s, 'k) world, fields dict list) stmt" where
  "op_run 0 c = ret []"
| "op_run (Suc n) c = andthen (op_tick c) (\<lambda>r. andthen (op_run n c) (\<lambda>rs. ret (r # rs)))"

end
