(* ===== verification/Operator_Facts.thy ===== *)
theory Operator_Facts
  imports Operator Local_Store
begin

text \<open>
  What the operator does to the store and to the status of its objects: a status it returned is
  final until the spec or the store changes, a changed spec without a canary becomes what the group
  runs, and a spec whose canary is refused is proposed again in every tick.
\<close>

section \<open>Values that equal themselves\<close>

text \<open>
  \<open>new_status != status\<close> compares two dictionaries. A value is equal to itself when it holds no NaN
  and its keys are distinct, as in every value \<open>json.loads\<close> builds from text that has no NaN.
\<close>

fun self_equal :: "json \<Rightarrow> bool" where
  "self_equal (JArr xs) = list_all self_equal xs"
| "self_equal (JObj d) = (distinct (map fst d) \<and> list_all (\<lambda>(k, x). self_equal x) d)"
| "self_equal (JFloat f) = (f \<noteq> NaN)"
| "self_equal _ = True"

lemma self_equal_py_eq: "self_equal v \<Longrightarrow> py_eq v v"
proof (induction v)
  case (JObj d)
  have "map_of d k = Some x \<and> py_eq x x" if "(k, x) \<in> set d" for k x
    using JObj.IH [of "(k, x)" x] JObj.prems that by (auto simp: list_all_iff)
  then show ?case by (auto simp: list_all_iff split: option.split)
qed (auto simp: f_eq_refl list_all2_same list_all_iff)

lemma set_dset: "set (dset k v d) \<subseteq> insert (k, v) (set d)"
  by (induction d) auto

lemma self_equal_dset: "self_equal (JObj d) \<Longrightarrow> self_equal v \<Longrightarrow> self_equal (JObj (dset k v d))"
  using set_dset [of k v d] by (auto simp: distinct_update list_all_iff)

lemma self_equal_update:
  "self_equal (JObj d) \<Longrightarrow> list_all (\<lambda>(k, x). self_equal x) e \<Longrightarrow> self_equal (JObj (dict_update d e))"
  unfolding dict_update_def by (induction e arbitrary: d) (auto simp: self_equal_dset simp del: self_equal.simps(2))

lemma dict_update_same: "list_all (\<lambda>(k, x). map_of d k = Some x) e \<Longrightarrow> dict_update d e = d"
  unfolding dict_update_def by (induction e) (auto simp: dset_same)

lemma dict_update_Nil [simp]: "dict_update d [] = d"
  by (simp add: dict_update_def)

lemma dict_update_Cons [simp]: "dict_update d ((k, v) # e) = dict_update (dset k v d) e"
  by (simp add: dict_update_def)

section \<open>The parts of a reconciliation, on the database\<close>

lemma local_ops [simp]:
  "api_propose local_store = propose" "api_promote local_store = promote"
  "api_desired local_store = desired" "api_status local_store = status"
  "api_canary local_store = canary" "api_open_canary local_store = open_canary"
  "api_set_overrides local_store = set_overrides"
  by (simp_all add: local_store_def)

lemma on_store_read: "snd (m (w_store w)) = w_store w \<Longrightarrow> on_store m w = (fst (m (w_store w)), w)"
  by (cases "m (w_store w)") (simp add: on_store_def)

definition skipped :: "(json \<Rightarrow> string) \<Rightarrow> fields \<Rightarrow> fields \<Rightarrow> bool" where
  "skipped digest spec st \<longleftrightarrow>
     map_of st ''appliedHash'' = Some (JStr (spec_hash digest spec)) \<or> \<not> truthy (field_or ''fields'' JNull spec)"

lemma apply_skipped: "skipped (op_digest c) spec st \<Longrightarrow> apply_spec c obj spec grp st w = (Inr st, w)"
  by (simp add: apply_spec_def skipped_def Let_def)

lemma open_from_spec_keys:
  "open_from_spec c grp vid can w = (Inr upd, w') \<Longrightarrow> \<exists>cid. upd = [(''phase'', JStr ''canary''), (''canaryId'', JInt cid)]"
  unfolding open_from_spec_def by (auto elim!: andthen_InrE)

lemma promote_from_spec_keys:
  "promote_from_spec c grp vid w = (Inr upd, w') \<Longrightarrow> upd = [(''phase'', JStr ''promoted'')]"
  unfolding promote_from_spec_def by (auto elim!: andthen_InrE)

text \<open>A spec that was applied leaves its hash, the version and a phase.\<close>

definition applied_status :: "string \<Rightarrow> int \<Rightarrow> fields \<Rightarrow> fields \<Rightarrow> fields" where
  "applied_status h i upd st =
     dict_update (dict_update st [(''appliedHash'', JStr h), (''versionId'', JInt i)]) upd"

definition phase_update :: "fields \<Rightarrow> bool" where
  "phase_update upd \<longleftrightarrow>
     (\<exists>cid. upd = [(''phase'', JStr ''canary''), (''canaryId'', JInt cid)]) \<or> upd = [(''phase'', JStr ''promoted'')]"

lemma applied_keys:
  assumes a: "apply_spec c obj spec grp st w = (Inr st1, w1)" and n: "\<not> skipped (op_digest c) spec st"
  shows "\<exists>i upd. phase_update upd \<and> st1 = applied_status (spec_hash (op_digest c) spec) i upd st"
proof -
  let ?can = "field_or ''canary'' JNull spec"
  from n have "\<not> (map_of st ''appliedHash'' = Some (JStr (spec_hash (op_digest c) spec)) \<or>
      \<not> truthy (field_or ''fields'' JNull spec))"
    by (simp add: skipped_def)
  note run = a [unfolded apply_spec_def Let_def if_not_P [OF this]]
  have "\<exists>(v :: config_version) upd w2 w3.
      (if truthy ?can then open_from_spec c grp (cv_id v) ?can else promote_from_spec c grp (cv_id v)) w2 = (Inr upd, w3) \<and>
      ret (dict_update (dict_update st [(''appliedHash'', JStr (spec_hash (op_digest c) spec)),
        (''versionId'', JInt (cv_id v))]) upd) w3 = (Inr st1, w1)"
    using run by (elim andthen_InrE) (intro exI conjI, assumption, assumption)
  then obtain v :: config_version and upd w2 w3 where
    i: "(if truthy ?can then open_from_spec c grp (cv_id v) ?can else promote_from_spec c grp (cv_id v)) w2 = (Inr upd, w3)"
    and r: "ret (dict_update (dict_update st [(''appliedHash'', JStr (spec_hash (op_digest c) spec)),
        (''versionId'', JInt (cv_id v))]) upd) w3 = (Inr st1, w1)"
    by (elim exE conjE) (rule that)
  from r have "st1 = applied_status (spec_hash (op_digest c) spec) (cv_id v) upd st"
    by (simp add: applied_status_def del: dict_update_Cons)
  moreover from i have "phase_update upd"
    using open_from_spec_keys [of c grp "cv_id v" ?can w2 upd w3]
      promote_from_spec_keys [of c grp "cv_id v" w2 upd w3]
    by (simp add: phase_update_def split: if_splits)
  ultimately show ?thesis by blast
qed

lemma applied_skips:
  assumes "apply_spec c obj spec grp st w = (Inr st1, w1)"
  shows "skipped (op_digest c) spec st1" and "self_equal (JObj st) \<Longrightarrow> self_equal (JObj st1)"
proof -
  have "skipped (op_digest c) spec st1 \<and> (self_equal (JObj st) \<longrightarrow> self_equal (JObj st1))"
  proof (cases "skipped (op_digest c) spec st")
    case True
    with assms show ?thesis by (simp add: apply_skipped)
  next
    case False
    from applied_keys [OF assms this] obtain i upd
      where "phase_update upd" and "st1 = applied_status (spec_hash (op_digest c) spec) i upd st"
      by blast
    then show ?thesis
      by (auto simp: skipped_def applied_status_def phase_update_def self_equal_dset
          simp del: self_equal.simps(2))
  qed
  then show "skipped (op_digest c) spec st1" and "self_equal (JObj st) \<Longrightarrow> self_equal (JObj st1)" by blast+
qed

lemma follow_outcome:
  assumes local: "op_api c = local_store" and f: "follow_canary c st w = (Inr st', w')"
  obtains (same) "w' = w" and "st' = st" and "map_of st ''phase'' \<noteq> Some (JStr ''canary'') \<or> \<not> truthy (field_or ''canaryId'' JNull st)"
  | (read) cid row where "w' = w" and "int_of (field_or ''canaryId'' JNull st) = Inr cid"
      and "canary cid (w_store w) = (Inr row, w_store w)"
      and "st' = (if c_status row = ''observing'' then st
             else dict_update st [(''phase'', JStr (c_status row)), (''canaryDecision'', JStr (c_decision row))])"
proof (cases "map_of st ''phase'' = Some (JStr ''canary'') \<and> truthy (field_or ''canaryId'' JNull st)")
  case False
  with f same show ?thesis by (auto simp: follow_canary_def split: if_splits)
next
  case True
  then have eq: "follow_canary c st w =
      andthen (of_result (int_of (field_or ''canaryId'' JNull st))) (\<lambda>cid.
      andthen (on_store (canary cid)) (\<lambda>row. ret (if c_status row = ''observing'' then st
        else dict_update st [(''phase'', JStr (c_status row)), (''canaryDecision'', JStr (c_decision row))]))) w"
    using local by (simp add: follow_canary_def)
  note run = f [unfolded eq]
  then obtain cid where i: "int_of (field_or ''canaryId'' JNull st) = Inr cid"
    using f by (auto elim!: andthen_InrE)
  obtain r where c: "canary cid (w_store w) = (r, w_store w)"
    by (metis canary_state prod.collapse)
  then have "on_store (canary cid) w = (r, w)"
    by (simp add: on_store_def)
  with run i obtain row where "r = Inr row" and "w' = w"
    and "st' = (if c_status row = ''observing'' then st
       else dict_update st [(''phase'', JStr (c_status row)), (''canaryDecision'', JStr (c_decision row))])"
    by (cases r) auto
  with i c read show ?thesis by blast
qed

lemma follow_keys:
  assumes "op_api c = local_store" and "follow_canary c st w = (Inr st', w')"
  shows "w' = w" and "map_of st' ''appliedHash'' = map_of st ''appliedHash''"
    and "self_equal (JObj st) \<Longrightarrow> self_equal (JObj st')"
  using assms by (auto elim!: follow_outcome simp: self_equal_dset simp del: self_equal.simps(2))

text \<open>Following the canary again, on a status with the same canary fields, changes nothing.\<close>

lemma follow_again:
  assumes local: "op_api c = local_store" and f: "follow_canary c st w = (Inr st', w')"
    and same: "w_store v = w_store w"
    and k: "\<And>k. k \<in> {''phase'', ''canaryId'', ''canaryDecision''} \<Longrightarrow> map_of u k = map_of st' k"
  shows "follow_canary c u v = (Inr u, v)"
proof (cases "map_of u ''phase'' = Some (JStr ''canary'') \<and> truthy (field_or ''canaryId'' JNull u)")
  case False
  then show ?thesis by (auto simp: follow_canary_def)
next
  case True
  have id: "field_or ''canaryId'' JNull u = field_or ''canaryId'' JNull st'"
    and ph: "map_of st' ''phase'' = Some (JStr ''canary'')"
    using True k by (simp_all add: field_or_def)
  from local f show ?thesis
  proof (cases rule: follow_outcome)
    case same
    with True id ph show ?thesis by simp
  next
    case (read cid row)
    have keep: "field_or ''canaryId'' JNull st' = field_or ''canaryId'' JNull st"
      using read(4) by (simp add: field_or_def)
    have c: "on_store (canary cid) v = (Inr row, v)"
      using read(3) same by (simp add: on_store_def)
    have run: "follow_canary c u v = (Inr (if c_status row = ''observing'' then u
        else dict_update u [(''phase'', JStr (c_status row)), (''canaryDecision'', JStr (c_decision row))]), v)"
      using True local read(2) c by (simp add: follow_canary_def id keep)
    show ?thesis
    proof (cases "c_status row = ''observing''")
      case True
      with run show ?thesis by simp
    next
      case False
      with read(4) have "map_of u ''phase'' = Some (JStr (c_status row))"
        and "map_of u ''canaryDecision'' = Some (JStr (c_decision row))"
        using k by simp_all
      with run show ?thesis by (simp add: dset_same)
    qed
  qed
qed

lemma desired_read: "on_store (desired g) w = (fst (desired g (w_store w)), w)"
  by (simp add: on_store_read)

lemma status_read: "on_store (status g) w = (Inr (sort_key s_replica_id (filter (\<lambda>r. s_group r = g) (map snd (t_status (w_store w))))), w)"
  by (simp add: on_store_def status_def)

lemma report_view_run:
  assumes "op_api c = local_store"
  shows "report_view c g st w = (case fst (desired g (w_store w)) of Inl e \<Rightarrow> (Inl e, w)
    | Inr d \<Rightarrow> (Inr (dict_update st [(''desiredVersionId'', opt_int (map_option cv_id d)),
        (''replicas'', JArr (map replica_json
          (sort_key s_replica_id (filter (\<lambda>r. s_group r = g) (map snd (t_status (w_store w)))))))]), w))"
  using assms desired_read [of g w] status_read [of g w]
  by (cases "fst (desired g (w_store w))") (simp_all add: report_view_def)

lemma self_equal_opt_int [simp]: "self_equal (opt_int x)"
  by (cases x) (simp_all add: opt_int_def)

lemma self_equal_replica [simp]: "self_equal (replica_json r)"
  by (simp add: replica_json_def)

lemma report_keys:
  assumes "op_api c = local_store" and "report_view c g st w = (Inr st', w')"
  shows "w' = w" and "\<And>k. k \<notin> {''desiredVersionId'', ''replicas''} \<Longrightarrow> map_of st' k = map_of st k"
    and "self_equal (JObj st) \<Longrightarrow> self_equal (JObj st')"
    and "w_store v = w_store w \<Longrightarrow> report_view c g st' v = (Inr st', v)"
  using assms
  by (auto simp: report_view_run self_equal_dset list_all_iff dset_same simp del: self_equal.simps(2) split: sum.splits)

section \<open>A reconciliation in parts\<close>

lemma reconcile_parts:
  assumes "reconcile_one c obj w = (Inr st, w')"
  shows "\<exists>spec st0 grp st1 w1 st2 w2 w3.
    spec_of obj = Inr spec \<and> status_of obj = Inr st0 \<and> rbind (need ''group'' spec) as_str = Inr grp \<and>
    apply_spec c obj spec grp st0 w = (Inr st1, w1) \<and> follow_canary c st1 w1 = (Inr st2, w2) \<and>
    report_view c grp st2 w2 = (Inr st, w3) \<and> w_store w' = w_store w3"
proof -
  have patch: "w_store b = w_store a"
    if "(if x then ret JNull else on_engine m) a = (Inr y, b)" for x m a y b
    using that by (auto simp: on_engine_def split: if_splits prod.splits)
  show ?thesis
    using assms unfolding reconcile_one_def of_result_def
    apply (elim andthen_InrE)
    apply (simp only: prod.inject ret_run sum.inject)
    apply (elim conjE)
    apply hypsubst
    apply (drule patch)
    apply (intro exI conjI)
    apply (rule refl, rule refl)
    apply assumption+
    done
qed

lemma reconcile_again:
  assumes local: "op_api c = local_store"
    and "spec_of obj = Inr spec" and "status_of obj = Inr st" and "rbind (need ''group'' spec) as_str = Inr grp"
    and "skipped (op_digest c) spec st" and "follow_canary c st w = (Inr st, w)"
    and "report_view c grp st w = (Inr st, w)" and "self_equal (JObj st)"
  shows "reconcile_one c obj w = (Inr st, w)"
  using assms(2-7) self_equal_py_eq [OF assms(8)]
  by (simp add: reconcile_one_def apply_skipped dict_eq_def del: py_eq.simps)

text \<open>
  C28. A returned status is final. When a reconciliation over the database succeeded, the object with
  the status it returned, the spec unchanged and the status free of NaN, is reconciled again without
  any effect: no version is proposed, nothing is promoted, no status is written to Kubernetes, and the
  same status is returned.
\<close>

theorem reconcile_settles:
  assumes "op_api c = local_store" and "reconcile_one c obj w = (Inr st, w')"
    and "status_of obj = Inr st0" and "self_equal (JObj st0)"
    and "spec_of again = spec_of obj" and "status_of again = Inr st"
  shows "reconcile_one c again w' = (Inr st, w')"
proof -
  from reconcile_parts [OF assms(2), unfolded assms(3) sum.inject] obtain spec grp st1 w1 st2 w2 w3 where
    spec: "spec_of obj = Inr spec" and grp: "rbind (need ''group'' spec) as_str = Inr grp"
    and a: "apply_spec c obj spec grp st0 w = (Inr st1, w1)" and f: "follow_canary c st1 w1 = (Inr st2, w2)"
    and r: "report_view c grp st2 w2 = (Inr st, w3)" and w': "w_store w' = w_store w3"
    by (elim exE conjE) (rule that, simp_all only:)
  note fk = follow_keys [OF assms(1) f] and rk = report_keys [OF assms(1) r]
  have store: "w_store w' = w_store w1" "w_store w' = w_store w2"
    using w' fk(1) rk(1) by simp_all
  have "skipped (op_digest c) spec st"
    using applied_skips(1) [OF a] fk(2) rk(2) [of "''appliedHash''"] by (simp add: skipped_def)
  moreover have "follow_canary c st w' = (Inr st, w')"
    by (rule follow_again [OF assms(1) f store(1)], rule rk(2)) auto
  moreover have "report_view c grp st w' = (Inr st, w')"
    by (rule rk(4) [OF store(2)])
  moreover have "self_equal (JObj st)"
    using applied_skips(2) [OF a assms(4)] fk(3) rk(3) by blast
  ultimately show ?thesis
    using assms(1,5,6) spec grp by (intro reconcile_again) simp_all
qed

section \<open>A changed spec without a canary\<close>

lemma reconcile_patched:
  assumes "spec_of obj = Inr spec" and "status_of obj = Inr st0" and "rbind (need ''group'' spec) as_str = Inr grp"
    and "apply_spec c obj spec grp st0 w = (Inr st1, w1)" and "follow_canary c st1 w1 = (Inr st2, w2)"
    and "report_view c grp st2 w2 = (Inr st, w3)" and "patch_status (op_k8s c) obj st (w_engine w3) = (Inr r, k)"
  shows "\<exists>k. reconcile_one c obj w = (Inr st, w3\<lparr>w_engine := k\<rparr>)"
proof (cases "dict_eq st st0")
  case True
  with assms have "reconcile_one c obj w = (Inr st, w3\<lparr>w_engine := w_engine w3\<rparr>)"
    by (simp add: reconcile_one_def)
  then show ?thesis ..
next
  case False
  with assms have "reconcile_one c obj w = (Inr st, w3\<lparr>w_engine := k\<rparr>)"
    by (simp add: reconcile_one_def on_engine_def)
  then show ?thesis ..
qed

text \<open>
  C29. A changed spec becomes what the group runs. Over the database, an object whose spec names
  fields that were not applied yet, and no canary, is reconciled, when Kubernetes takes the status,
  into one new version of the group, made by the object, with the fields of the spec; it is the
  group's desired version, and the status says so.
\<close>

theorem spec_becomes_desired:
  assumes "op_api c = local_store" and "wf_store (w_store w)"
    and "spec_of obj = Inr spec" and "status_of obj = Inr st0" and "rbind (need ''group'' spec) as_str = Inr grp"
    and "map_of spec ''fields'' = Some (JObj flds)" and "flds \<noteq> []"
    and "map_of st0 ''appliedHash'' \<noteq> Some (JStr (spec_hash (op_digest c) spec))"
    and "\<not> truthy (field_or ''canary'' JNull spec)"
    and "author obj = Inr who" and "as_str (field_or ''reason'' (JStr []) spec) = Inr why"
    and "\<And>st. \<exists>r k. patch_status (op_k8s c) obj st (w_engine w) = (Inr r, k)"
  shows "\<exists>st w' v. reconcile_one c obj w = (Inr st, w') \<and>
    t_version (w_store w') = t_version (w_store w) @ [v] \<and>
    cv_fields v = sorted_fields flds \<and> cv_created_by v = who \<and> cv_group v = grp \<and>
    desired grp (w_store w') = (Inr (Some v), w_store w') \<and>
    map_of st ''phase'' = Some (JStr ''promoted'') \<and> map_of st ''versionId'' = Some (JInt (cv_id v)) \<and>
    map_of st ''desiredVersionId'' = Some (JInt (cv_id v)) \<and>
    map_of st ''appliedHash'' = Some (JStr (spec_hash (op_digest c) spec))"
proof -
  obtain v s1 where p: "propose grp flds who why (w_store w) = (Inr v, s1)" and wf1: "wf_store s1"
    and v1: "t_version s1 = t_version (w_store w) @ [v]" and g: "cv_group v = grp"
    and vf: "cv_fields v = sorted_fields flds" "cv_created_by v = who"
    using propose_local [OF assms(2), of grp flds who why] by blast
  obtain s2 where q: "promote grp (cv_id v) s1 = (Inr (), s2)" and v2: "t_version s2 = t_version s1"
    and d: "desired grp s2 = (Inr (Some v), s2)"
    using promote_local [OF wf1, of v] v1 g by auto
  let ?st1 = "dict_update (dict_update st0 [(''appliedHash'', JStr (spec_hash (op_digest c) spec)), (''versionId'', JInt (cv_id v))])
    [(''phase'', JStr ''promoted'')]"
  let ?w2 = "w\<lparr>w_store := s2\<rparr>"
  have "apply_spec c obj spec grp st0 w = (Inr ?st1, ?w2)"
    using assms(1,6-11) p q
    by (simp add: apply_spec_def promote_from_spec_def on_store_def field_or_def)
  moreover have "follow_canary c ?st1 ?w2 = (Inr ?st1, ?w2)"
    by (simp add: follow_canary_def)
  moreover obtain rs where "report_view c grp ?st1 ?w2 =
      (Inr (dict_update ?st1 [(''desiredVersionId'', JInt (cv_id v)), (''replicas'', rs)]), ?w2)"
    using d by (simp add: report_view_run [OF assms(1)] opt_int_def)
  moreover obtain r k where "patch_status (op_k8s c) obj
      (dict_update ?st1 [(''desiredVersionId'', JInt (cv_id v)), (''replicas'', rs)]) (w_engine w) = (Inr r, k)"
    using assms(12) by blast
  ultimately have "\<exists>k. reconcile_one c obj w =
      (Inr (dict_update ?st1 [(''desiredVersionId'', JInt (cv_id v)), (''replicas'', rs)]), ?w2\<lparr>w_engine := k\<rparr>)"
    by (intro reconcile_patched [OF assms(3-5)]) simp_all
  then show ?thesis
    using v1 v2 vf g d by auto
qed

section \<open>A spec whose canary is refused\<close>

definition replicas_of :: "('s, 'k) operator_config \<Rightarrow> string \<Rightarrow> store \<Rightarrow> string list" where
  "replicas_of c grp s =
     (if op_replicas c \<noteq> [] then op_replicas c
      else sort (remdups (map s_replica_id (sort_key s_replica_id (filter (\<lambda>r. s_group r = grp) (map snd (t_status s)))))))"

lemma known_replicas_local:
  "op_api c = local_store \<Longrightarrow> known_replicas c grp w = (Inr (replicas_of c grp (w_store w)), w)"
  using status_read [of grp w] by (simp add: known_replicas_def replicas_of_def)

lemma start_refused:
  "\<not> set scope \<subset> set (cc_all cf) \<Longrightarrow> \<exists>m. start cf i scope gates win w = (Inl (ValueError m), w)"
  by (auto simp: start_def bad_scope_def no_baseline_def)

lemma open_refused:
  assumes "op_api c = local_store" and "rbind (item ''scope'' can) (as_list as_str) = Inr scope"
    and "rbind (item ''gates'' can) (as_list as_obj) = Inr gates"
    and "rbind (get_default ''window_s'' (JInt 300) can) (float_of (op_rounding c)) = Inr win"
    and "\<not> set scope \<subset> set (replicas_of c grp (w_store w))"
  shows "\<exists>m. open_from_spec c grp i can w = (Inl (ValueError m), w)"
  using start_refused [of scope "operator_canary c grp (replicas_of c grp (w_store w))" i gates win w] assms
  by (auto simp: open_from_spec_def known_replicas_local operator_canary_def)

text \<open>
  An object asks for a canary that cannot start: its fields are not applied yet, and the scope is not
  a proper part of the replicas.
\<close>

definition asks_bad_canary :: "('s, 'k) operator_config \<Rightarrow> string \<Rightarrow> string \<Rightarrow> store \<Rightarrow> json \<Rightarrow> bool" where
  "asks_bad_canary c grp name s obj \<longleftrightarrow>
     (\<exists>spec st flds can who why scope gates win.
        spec_of obj = Inr spec \<and> status_of obj = Inr st \<and> rbind (need ''group'' spec) as_str = Inr grp \<and>
        map_of spec ''fields'' = Some (JObj flds) \<and> flds \<noteq> [] \<and>
        map_of st ''appliedHash'' \<noteq> Some (JStr (spec_hash (op_digest c) spec)) \<and>
        map_of spec ''canary'' = Some can \<and> truthy can \<and> author obj = Inr who \<and> meta obj ''name'' = Inr name \<and>
        as_str (field_or ''reason'' (JStr []) spec) = Inr why \<and>
        rbind (item ''scope'' can) (as_list as_str) = Inr scope \<and>
        rbind (item ''gates'' can) (as_list as_obj) = Inr gates \<and>
        rbind (get_default ''window_s'' (JInt 300) can) (float_of (op_rounding c)) = Inr win \<and>
        \<not> set scope \<subset> set (replicas_of c grp s))"

lemma asks_bad_canary_status: "t_status s = t_status t \<Longrightarrow> asks_bad_canary c grp name s = asks_bad_canary c grp name t"
  by (simp add: asks_bad_canary_def replicas_of_def fun_eq_iff)

lemma reconcile_refused:
  assumes "op_api c = local_store" and "wf_store (w_store w)" and "asks_bad_canary c grp name (w_store w) obj"
  shows "\<exists>m v s. reconcile_one c obj w = (Inl (ValueError m), w\<lparr>w_store := s\<rparr>) \<and> wf_store s \<and>
    t_version s = t_version (w_store w) @ [v] \<and> t_desired s = t_desired (w_store w) \<and>
    t_status s = t_status (w_store w)"
proof -
  obtain spec st flds can who why scope gates win where
    a: "spec_of obj = Inr spec" "status_of obj = Inr st" "rbind (need ''group'' spec) as_str = Inr grp"
      "map_of spec ''fields'' = Some (JObj flds)" "flds \<noteq> []"
      "map_of st ''appliedHash'' \<noteq> Some (JStr (spec_hash (op_digest c) spec))"
      "map_of spec ''canary'' = Some can" "truthy can" "author obj = Inr who"
      "as_str (field_or ''reason'' (JStr []) spec) = Inr why"
    and can: "rbind (item ''scope'' can) (as_list as_str) = Inr scope"
      "rbind (item ''gates'' can) (as_list as_obj) = Inr gates"
      "rbind (get_default ''window_s'' (JInt 300) can) (float_of (op_rounding c)) = Inr win"
      "\<not> set scope \<subset> set (replicas_of c grp (w_store w))"
    using assms(3) unfolding asks_bad_canary_def by (elim exE conjE) (rule that)
  obtain v s where p: "propose grp flds who why (w_store w) = (Inr v, s)" and s: "wf_store s"
      "t_version s = t_version (w_store w) @ [v]" "t_desired s = t_desired (w_store w)" "t_status s = t_status (w_store w)"
    using propose_local [OF assms(2), of grp flds who why] by blast
  have "replicas_of c grp s = replicas_of c grp (w_store w)"
    using s(4) by (simp add: replicas_of_def)
  then obtain m where "open_from_spec c grp (cv_id v) can (w\<lparr>w_store := s\<rparr>) = (Inl (ValueError m), w\<lparr>w_store := s\<rparr>)"
    using open_refused [OF assms(1) can(1-3), of grp "w\<lparr>w_store := s\<rparr>" "cv_id v"] can(4) by auto
  then have "apply_spec c obj spec grp st w = (Inl (ValueError m), w\<lparr>w_store := s\<rparr>)"
    using assms(1) a p by (simp add: apply_spec_def on_store_def field_or_def)
  then have "reconcile_one c obj w = (Inl (ValueError m), w\<lparr>w_store := s\<rparr>)"
    using a(1-3) by (simp add: reconcile_one_def)
  with s show ?thesis by blast
qed

lemma op_tick_refused:
  assumes local: "op_api c = local_store" and wf: "wf_store (w_store w)"
    and l: "list_configs (op_k8s c) (op_namespace c) (w_engine w) = (Inr [obj], k1)"
    and bad: "asks_bad_canary c grp name (w_store w) obj"
    and p: "\<And>e. \<exists>r k2. patch_status (op_k8s c) obj (error_status c e) k1 = (Inr r, k2) \<and> J k2"
  shows "\<exists>e w' v. op_tick c w = (Inr [(name, error_status c e)], w') \<and> J (w_engine w') \<and> wf_store (w_store w') \<and>
    t_version (w_store w') = t_version (w_store w) @ [v] \<and> t_desired (w_store w') = t_desired (w_store w) \<and>
    t_status (w_store w') = t_status (w_store w)"
proof -
  obtain m v s where r: "reconcile_one c obj (w\<lparr>w_engine := k1\<rparr>) = (Inl (ValueError m), w\<lparr>w_engine := k1, w_store := s\<rparr>)"
    and s: "wf_store s" "t_version s = t_version (w_store w) @ [v]" "t_desired s = t_desired (w_store w)"
      "t_status s = t_status (w_store w)"
    using reconcile_refused [OF local, of "w\<lparr>w_engine := k1\<rparr>" grp name obj] wf bad by auto
  obtain r k2 where k2: "patch_status (op_k8s c) obj (error_status c (ValueError m)) k1 = (Inr r, k2)" "J k2"
    using p by blast
  have name: "meta obj ''name'' = Inr name"
    using bad unfolding asks_bad_canary_def by blast
  have "handle_one c obj [] (w\<lparr>w_engine := k1\<rparr>) =
      (Inr [(name, error_status c (ValueError m))], w\<lparr>w_engine := k2, w_store := s\<rparr>)"
    using k2(1) name by (simp add: handle_one_def r on_engine_def put_out_def)
  then have "op_tick c w = (Inr [(name, error_status c (ValueError m))], w\<lparr>w_engine := k2, w_store := s\<rparr>)"
    using l by (simp add: op_tick_def on_engine_def)
  with s k2(2) show ?thesis by auto
qed

text \<open>
  C30. A refused canary is proposed again in every tick. As long as Kubernetes lists an object whose
  fields were not applied and whose canary scope is not a proper part of the replicas, and takes the
  status \<open>error\<close>, \<open>n\<close> ticks of the operator over the database append \<open>n\<close> versions to the history:
  the version is proposed before the scope is looked at, and the status written on an error does not
  hold the hash. The version the group runs is the same throughout.
\<close>

theorem refused_canary_fills_history:
  assumes local: "op_api c = local_store" and wf: "wf_store (w_store w)" and inv: "J (w_engine w)"
    and l: "\<And>k. J k \<Longrightarrow> \<exists>obj k'. list_configs (op_k8s c) (op_namespace c) k = (Inr [obj], k') \<and> J k' \<and>
      asks_bad_canary c grp name (w_store w) obj"
    and p: "\<And>k obj e. J k \<Longrightarrow> asks_bad_canary c grp name (w_store w) obj \<Longrightarrow>
      \<exists>r k'. patch_status (op_k8s c) obj (error_status c e) k = (Inr r, k') \<and> J k'"
  shows "\<exists>es w' vs. op_run n c w = (Inr (map (\<lambda>e. [(name, error_status c e)]) es), w') \<and> length es = n \<and>
    t_version (w_store w') = t_version (w_store w) @ vs \<and> length vs = n \<and>
    t_desired (w_store w') = t_desired (w_store w)"
proof -
  have "\<exists>es w' vs. op_run n c u = (Inr (map (\<lambda>e. [(name, error_status c e)]) es), w') \<and> length es = n \<and>
      t_version (w_store w') = t_version (w_store u) @ vs \<and> length vs = n \<and> t_desired (w_store w') = t_desired (w_store u)"
    if "wf_store (w_store u)" "J (w_engine u)" "t_status (w_store u) = t_status (w_store w)" for u
    using that
  proof (induction n arbitrary: u)
    case 0
    then show ?case by simp
  next
    case (Suc n)
    note same = asks_bad_canary_status [OF Suc.prems(3)]
    obtain obj k where k: "list_configs (op_k8s c) (op_namespace c) (w_engine u) = (Inr [obj], k)" "J k"
      and bad: "asks_bad_canary c grp name (w_store w) obj"
      using l [OF Suc.prems(2)] by blast
    have "asks_bad_canary c grp name (w_store u) obj"
      using bad by (simp only: same)
    from op_tick_refused [OF local Suc.prems(1) k(1) this p [OF k(2) bad]]
    obtain e u1 v where t: "op_tick c u = (Inr [(name, error_status c e)], u1)" and u1: "J (w_engine u1)" "wf_store (w_store u1)"
      and v: "t_version (w_store u1) = t_version (w_store u) @ [v]" "t_desired (w_store u1) = t_desired (w_store u)"
      and s: "t_status (w_store u1) = t_status (w_store u)"
      by blast
    obtain es w' vs where r: "op_run n c u1 = (Inr (map (\<lambda>e. [(name, error_status c e)]) es), w')" "length es = n"
      and vs: "t_version (w_store w') = t_version (w_store u1) @ vs" "length vs = n"
        "t_desired (w_store w') = t_desired (w_store u1)"
      using Suc.IH [OF u1(2,1)] s Suc.prems(3) by auto
    have "op_run (Suc n) c u = (Inr (map (\<lambda>e. [(name, error_status c e)]) (e # es)), w')"
      using t r(1) by simp
    moreover have "length (e # es) = Suc n" "t_version (w_store w') = t_version (w_store u) @ v # vs" "length (v # vs) = Suc n"
      "t_desired (w_store w') = t_desired (w_store u)"
      using r(2) vs v by simp_all
    ultimately show ?case by blast
  qed
  from this [OF wf inv refl] show ?thesis .
qed

section \<open>Examples\<close>

text \<open>
  A Kubernetes side that holds one object, whose spec is fixed and whose status is the state: a patch
  is merged into it.
\<close>

definition demo_object :: "fields \<Rightarrow> fields \<Rightarrow> json" where
  "demo_object spec st =
     JObj [(''metadata'', JObj [(''namespace'', JStr ''n''), (''name'', JStr ''o'')]), (''spec'', JObj spec), (''status'', JObj st)]"

definition demo_k8s :: "fields \<Rightarrow> fields k8s" where
  "demo_k8s spec = \<lparr>k_req = \<lambda>verb path body ct st.
     if verb = ''GET'' then (Inr (JObj [(''items'', JArr [demo_object spec st])]), st)
     else case body of JObj [(_, JObj upd)] \<Rightarrow> (Inr JNull, dict_update st upd) | _ \<Rightarrow> (Inl TypeError, st)\<rparr>"

definition demo_operator :: "fields \<Rightarrow> (store, fields) operator_config" where
  "demo_operator spec =
     \<lparr>op_k8s = demo_k8s spec, op_api = local_store, op_engine = ''sglang'', op_namespace = None, op_replicas = [''r''],
      op_sample = \<lambda>_ _. ret [], op_sleep = \<lambda>_. ret (), op_digest = \<lambda>_. ''h'', op_rounding = Fin,
      op_text = \<lparr>gt_repr = \<lambda>_. [], gt_4g = \<lambda>_. [], gt_3f = \<lambda>_. []\<rparr>, op_exn_text = \<lambda>_. ''refused''\<rparr>"

definition demo_spec :: fields where
  "demo_spec = [(''group'', JStr ''g''), (''fields'', JObj [(''max_running_requests'', JInt 8)])]"

definition bad_spec :: fields where
  "bad_spec = demo_spec @ [(''canary'', JObj [(''scope'', JArr [JStr ''r'']), (''gates'', JArr [])])]"

definition demo_world :: "(store, fields) world" where
  "demo_world = \<lparr>w_store = demo_store, w_engine = []\<rparr>"

lemma demo_patch: "\<exists>r k'. patch_status (demo_k8s spec) (demo_object spec st) upd k = (Inr r, k') \<and> k' = dict_update k upd"
  by (simp add: patch_status_def demo_k8s_def demo_object_def meta_def item_def need_def rbind_def)

theorem spec_becomes_desired_witness:
  "\<exists>st w' v. reconcile_one (demo_operator demo_spec) (demo_object demo_spec []) demo_world = (Inr st, w') \<and>
    t_version (w_store w') = t_version demo_store @ [v] \<and>
    cv_fields v = sorted_fields [(''max_running_requests'', JInt 8)] \<and> cv_created_by v = ''k8s/n/o'' \<and> cv_group v = ''g'' \<and>
    desired ''g'' (w_store w') = (Inr (Some v), w_store w') \<and>
    map_of st ''phase'' = Some (JStr ''promoted'') \<and> map_of st ''versionId'' = Some (JInt (cv_id v)) \<and>
    map_of st ''desiredVersionId'' = Some (JInt (cv_id v)) \<and> map_of st ''appliedHash'' = Some (JStr ''h'')"
proof -
  have [simp]: "spec_hash (op_digest (demo_operator demo_spec)) demo_spec = ''h''"
    by (simp add: spec_hash_def demo_operator_def)
  have p: "\<exists>r k. patch_status (op_k8s (demo_operator demo_spec)) (demo_object demo_spec []) st (w_engine demo_world) = (Inr r, k)" for st
    using demo_patch [of demo_spec "[]" st "w_engine demo_world"] by (auto simp: demo_operator_def)
  have "wf_store (w_store demo_world)"
    using wf_reachable [OF reachable_demo] by (simp add: demo_world_def)
  from spec_becomes_desired [where c = "demo_operator demo_spec" and w = demo_world and obj = "demo_object demo_spec []"
      and spec = demo_spec and ?st0.0 = "[]" and grp = "''g''" and flds = "[(''max_running_requests'', JInt 8)]"
      and who = "''k8s/n/o''" and why = "[]", OF _ this _ _ _ _ _ _ _ _ _ p]
  show ?thesis
    by (simp add: demo_world_def demo_operator_def demo_object_def demo_spec_def spec_of_def status_of_def get_default_def
        need_def field_or_def author_def meta_def item_def spec_hash_def rbind_def)
qed

definition settled_status :: fields where
  "settled_status =
     [(''appliedHash'', JStr ''h''), (''versionId'', JInt 2), (''phase'', JStr ''promoted''),
      (''desiredVersionId'', JInt 2), (''replicas'', JArr [])]"

theorem reconcile_settles_witness:
  "let w' = snd (reconcile_one (demo_operator demo_spec) (demo_object demo_spec []) demo_world) in
   reconcile_one (demo_operator demo_spec) (demo_object demo_spec settled_status) w' = (Inr settled_status, w')"
proof -
  have "fst (reconcile_one (demo_operator demo_spec) (demo_object demo_spec []) demo_world) = Inr settled_status"
    by code_simp
  then have "reconcile_one (demo_operator demo_spec) (demo_object demo_spec []) demo_world =
      (Inr settled_status, snd (reconcile_one (demo_operator demo_spec) (demo_object demo_spec []) demo_world))"
    by (simp add: prod_eq_iff)
  from reconcile_settles [OF _ this, of "[]" "demo_object demo_spec settled_status"] show ?thesis
    by (simp add: Let_def demo_operator_def status_of_def spec_of_def demo_object_def get_default_def settled_status_def
        rbind_def)
qed

theorem refused_canary_fills_history_witness:
  "\<exists>es w' vs. op_run 3 (demo_operator bad_spec) demo_world =
      (Inr (map (\<lambda>e. [(''o'', error_status (demo_operator bad_spec) e)]) es), w') \<and> length es = 3 \<and>
    t_version (w_store w') = t_version (w_store demo_world) @ vs \<and> length vs = 3 \<and>
    t_desired (w_store w') = t_desired (w_store demo_world)"
proof -
  let ?J = "\<lambda>k :: fields. map_of k ''appliedHash'' = None"
  have bad: "asks_bad_canary (demo_operator bad_spec) ''g'' ''o'' (w_store demo_world) (demo_object bad_spec k)"
    if "?J k" for k
    using that
    by (simp add: asks_bad_canary_def spec_of_def status_of_def demo_object_def get_default_def demo_operator_def
        need_def bad_spec_def demo_spec_def field_or_def author_def meta_def item_def rbind_def replicas_of_def
        float_of_int_def)
  have l: "\<exists>obj k'. list_configs (op_k8s (demo_operator bad_spec)) (op_namespace (demo_operator bad_spec)) k = (Inr [obj], k') \<and>
      ?J k' \<and> asks_bad_canary (demo_operator bad_spec) ''g'' ''o'' (w_store demo_world) obj" if "?J k" for k
    using bad [OF that] that
    by (intro exI [of _ "demo_object bad_spec k"] exI [of _ k])
      (simp add: list_configs_def demo_operator_def demo_k8s_def get_default_def)
  have wf: "wf_store (w_store demo_world)"
    using wf_reachable [OF reachable_demo] by (simp add: demo_world_def)
  have p: "\<exists>r k'. patch_status (op_k8s (demo_operator bad_spec)) obj (error_status (demo_operator bad_spec) e) k = (Inr r, k') \<and> ?J k'"
    if "?J k" and "asks_bad_canary (demo_operator bad_spec) ''g'' ''o'' (w_store demo_world) obj" for k obj e
  proof -
    from that(2) obtain ns name where "meta obj ''namespace'' = Inr ns" "meta obj ''name'' = Inr name"
      unfolding asks_bad_canary_def author_def rbind_def by (auto split: sum.splits)
    with that(1) show ?thesis
      by (simp add: patch_status_def demo_operator_def demo_k8s_def error_status_def)
  qed
  show ?thesis
    by (rule refused_canary_fills_history [where J = ?J, OF _ wf _ l p]) (simp_all add: demo_operator_def demo_world_def)
qed

end
