(* ===== verification/Sglang_Reinit.thy ===== *)
theory Sglang_Reinit
  imports Sglang_Patch
begin

text \<open>
  The warm reinit that the patch adds to the SGLang scheduler (\<open>engine/sglang/reinit_body.py\<close>). Pools,
  caches and graph runners are objects known by a reference; SGLang's own construction of them, its
  memory saver and the CUDA calls are arguments, the record \<open>reinit_env\<close>. A scheduler that gets past
  the guards has a memory saver, so the branch without one, with \<open>_hollow\<close>, is never entered and is
  left out.
\<close>

section \<open>The scheduler's inside\<close>

type_synonym ref = nat

datatype saver = Noop_Saver | Memory_Saver

text \<open>A worker's model runner: its memory fraction, and the attributes that hold pools and runners.\<close>

record runner =
  ru_class :: string
  ru_fraction :: pyfloat
  ru_attrs :: "ref option dict"

text \<open>
  A component of the scheduler: the name of its class, and those of its attributes that can be read.
  \<open>in_components\<close> are the objects among the values of \<open>vars(self)\<close>, the workers included, each once.
\<close>

record component =
  cp_class :: string
  cp_attrs :: "ref option dict"

record 'g inside =
  in_saver :: "saver option"
  in_runner :: runner
  in_draft :: "runner option"
  in_queue :: "nat option"
  in_last_batch :: bool
  in_running :: nat
  in_chunked :: bool
  in_tree :: "ref option"
  in_req_pool :: "ref option"
  in_kv_alloc :: "ref option"
  in_req_len :: int
  in_req_input_len :: int
  in_components :: "component list"
  in_gen :: nat
  in_class_gen :: nat
  in_paused :: "ref dict list"
  in_gpu :: 'g

type_synonym 'g sgl = "'g inside scheduler"

text \<open>
  What SGLang and CUDA provide. \<open>re_info\<close> is the part of \<open>get_worker_info\<close> that is used, \<open>re_class\<close> the
  class of an object.
\<close>

record 'g reinit_env =
  re_rounding :: rounding
  re_round2 :: "pyfloat \<Rightarrow> pyfloat"
  re_round3 :: "pyfloat \<Rightarrow> pyfloat"
  re_exn_text :: "exn \<Rightarrow> string"
  re_time :: "('g sgl, pyfloat) stmt"
  re_free :: "('g sgl, int) stmt"
  re_idle :: "'g sgl \<Rightarrow> bool"
  re_flush :: "('g sgl, unit) stmt"
  re_pause :: "string \<Rightarrow> ('g sgl, unit) stmt"
  re_collect :: "('g sgl, unit) stmt"
  re_override :: "fields \<Rightarrow> ('g sgl, unit) stmt"
  re_init_pools :: "('g sgl, unit) stmt"
  re_init_attention :: "('g sgl, unit) stmt"
  re_init_graphs :: "('g sgl, unit) stmt"
  re_info :: "('g sgl, int \<times> int \<times> int \<times> int option \<times> int \<times> int) stmt"
  re_build_cache :: "('g sgl, ref option \<times> ref option \<times> ref option) stmt"
  re_class :: "ref \<Rightarrow> string"
  re_ratio_reset :: "ratio_tracker \<Rightarrow> ratio_tracker"

definition on_inside :: "('g inside \<Rightarrow> 'g inside) \<Rightarrow> ('g sgl, unit) stmt" where
  "on_inside f s = (Inr (), s\<lparr>sg_rest := f (sg_rest s)\<rparr>)"

section \<open>The guards\<close>

definition sg_warm_fields :: "string list" where
  "sg_warm_fields = [''mem_fraction_static'', ''max_total_tokens'', ''kv_cache_dtype'', ''max_running_requests'']"

definition sg_not_warm :: "fields \<Rightarrow> string list" where
  "sg_not_warm flds = sort (filter (\<lambda>k. k \<notin> set sg_warm_fields) (remdups (keys flds)))"

definition refused :: "string \<Rightarrow> fields" where
  "refused m = [(''ok'', JBool False), (''error'', JStr m)]"

definition note_refusal :: "string \<Rightarrow> ('g sgl, fields) stmt" where
  "note_refusal m s = (Inr (refused m), s\<lparr>sg_last_reinit := JObj (refused m)\<rparr>)"

definition sg_busy :: "'g reinit_env \<Rightarrow> 'g sgl \<Rightarrow> bool" where
  "sg_busy E s \<longleftrightarrow>
     \<not> re_idle E s \<or> (case in_queue (sg_rest s) of None \<Rightarrow> False | Some n \<Rightarrow> n \<noteq> 0) \<or> in_last_batch (sg_rest s)"

section \<open>Letting go of the old pools\<close>

definition kinds :: "string list" where
  "kinds = [''token_to_kv_pool'', ''token_to_kv_pool_allocator'', ''req_to_token_pool'', ''_unified_memory_pool'',
     ''decode_cuda_graph_runner'', ''prefill_cuda_graph_runner'', ''tree_cache'']"

definition attr :: "string \<Rightarrow> ref option dict \<Rightarrow> ref option" where
  "attr k d = (case map_of d k of None \<Rightarrow> None | Some r \<Rightarrow> r)"

text \<open>The object of each kind, and those that are there.\<close>

definition of_kind :: "'g inside \<Rightarrow> string \<Rightarrow> ref option" where
  "of_kind i k = (if k = ''tree_cache'' then in_tree i else attr k (ru_attrs (in_runner i)))"

definition held :: "'g inside \<Rightarrow> ref dict" where
  "held i = List.map_filter (\<lambda>k. map_option (\<lambda>r. (k, r)) (of_kind i k)) kinds"

definition runner_attrs :: "string list" where
  "runner_attrs = [''decode_cuda_graph_runner'', ''prefill_cuda_graph_runner'', ''eager_runner'',
     ''token_to_kv_pool'', ''token_to_kv_pool_allocator'', ''req_to_token_pool'', ''_unified_memory_pool'',
     ''attn_backend'', ''decode_attn_backend'', ''prefill_attn_backend'', ''graph_shared_output'']"

definition dropped_attrs :: "runner \<Rightarrow> runner" where
  "dropped_attrs r = r\<lparr>ru_attrs := map (\<lambda>(k, v). (k, if k \<in> set runner_attrs then None else v)) (ru_attrs r)\<rparr>"

definition fraction_of :: "'g reinit_env \<Rightarrow> fields \<Rightarrow> exn + pyfloat option" where
  "fraction_of E flds =
     (case map_of flds ''mem_fraction_static'' of
        None \<Rightarrow> Inr None
      | Some v \<Rightarrow> (case float_of (re_rounding E) v of Inl e \<Rightarrow> Inl e | Inr f \<Rightarrow> Inr (Some f)))"

definition with_fraction :: "pyfloat option \<Rightarrow> runner \<Rightarrow> runner" where
  "with_fraction x r = (case x of None \<Rightarrow> r | Some f \<Rightarrow> r\<lparr>ru_fraction := f\<rparr>)"

text \<open>The loop over the workers: the first one loses its attributes before its fraction is converted.\<close>

definition clear_workers :: "'g reinit_env \<Rightarrow> fields \<Rightarrow> ('g sgl, unit) stmt" where
  "clear_workers E flds =
     andthen (on_inside (\<lambda>i. i\<lparr>in_runner := dropped_attrs (in_runner i)\<rparr>)) (\<lambda>_.
     andthen (of_result (fraction_of E flds)) (\<lambda>x.
     on_inside (\<lambda>i. i\<lparr>in_runner := with_fraction x (in_runner i),
       in_draft := map_option (with_fraction x \<circ> dropped_attrs) (in_draft i)\<rparr>)))"

text \<open>The tags of a generation: those the old pools were allocated under are paused, errors aside.\<close>

definition region_tag :: "nat \<Rightarrow> string \<Rightarrow> string" where
  "region_tag g tag =
     (if g \<noteq> 0 \<and> (tag = ''kv_cache'' \<or> tag = ''cuda_graph'') then tag @ ''.g'' @ show_int (int g) else tag)"

definition tag_suffix :: "nat \<Rightarrow> string" where
  "tag_suffix g = (if g \<noteq> 0 then ''.g'' @ show_int (int g) else [])"

definition pause_tag :: "'g reinit_env \<Rightarrow> string \<Rightarrow> ('g sgl, unit) stmt" where
  "pause_tag E tag s = (case re_pause E tag s of (_, s') \<Rightarrow> (Inr (), s'))"

definition pause_generation :: "'g reinit_env \<Rightarrow> ref dict \<Rightarrow> ('g sgl, unit) stmt" where
  "pause_generation E old s =
     (let g = in_gen (sg_rest s) in
      andthen (pause_tag E (''kv_cache'' @ tag_suffix g)) (\<lambda>_.
      andthen (pause_tag E (''cuda_graph'' @ tag_suffix g)) (\<lambda>_.
      on_inside (\<lambda>i. i\<lparr>in_gen := Suc g, in_class_gen := Suc g, in_paused := in_paused i @ [old]\<rparr>)))) s"

definition owned_by_runner :: "string list" where
  "owned_by_runner = [''kv_cache_configurator'', ''canary_manager'', ''kv_index_translator'']"

definition drop_owned :: "'g inside \<Rightarrow> 'g inside" where
  "drop_owned i = i\<lparr>in_runner := (in_runner i)\<lparr>ru_attrs :=
     map (\<lambda>(k, v). (k, if k \<in> set owned_by_runner then None else v)) (ru_attrs (in_runner i))\<rparr>\<rparr>"

definition empty_batches :: "'g inside \<Rightarrow> 'g inside" where
  "empty_batches i = i\<lparr>in_running := 0, in_last_batch := False, in_chunked := False\<rparr>"

definition let_go :: "'g reinit_env \<Rightarrow> fields \<Rightarrow> ref dict \<Rightarrow> ('g sgl, unit) stmt" where
  "let_go E flds old =
     andthen (clear_workers E flds) (\<lambda>_.
     andthen (on_inside (\<lambda>i. i\<lparr>in_tree := None, in_req_pool := None, in_kv_alloc := None\<rparr>)) (\<lambda>_.
     andthen (pause_generation E old) (\<lambda>_.
     andthen (on_inside drop_owned) (\<lambda>_. re_collect E))))"

section \<open>Building the new ones\<close>

definition set_fractions :: "'g reinit_env \<Rightarrow> fields \<Rightarrow> ('g sgl, unit) stmt" where
  "set_fractions E values =
     andthen (of_result (fraction_of E values)) (\<lambda>x.
     on_inside (\<lambda>i. i\<lparr>in_runner := with_fraction x (in_runner i), in_draft := map_option (with_fraction x) (in_draft i)\<rparr>))"

definition sg_rebuild :: "'g reinit_env \<Rightarrow> fields \<Rightarrow> ('g sgl, unit) stmt" where
  "sg_rebuild E values =
     andthen (re_override E values) (\<lambda>_.
     andthen (set_fractions E values) (\<lambda>_.
     andthen (re_init_pools E) (\<lambda>_.
     andthen (re_init_attention E) (\<lambda>_. re_init_graphs E))))"

definition sg_previous :: "'g sgl \<Rightarrow> fields" where
  "sg_previous s =
     [(''mem_fraction_static'', JFloat (ru_fraction (in_runner (sg_rest s)))),
      (''max_total_tokens'', JInt (sg_total_tokens s)), (''max_running_requests'', JInt (sg_max_running s))]"

definition restore_values :: "fields \<Rightarrow> fields \<Rightarrow> fields" where
  "restore_values flds previous = filter (\<lambda>(k, v). k \<in> set (keys flds) \<or> k = ''mem_fraction_static'') previous"

definition sg_rebuild_or_restore :: "'g reinit_env \<Rightarrow> fields \<Rightarrow> fields \<Rightarrow> ('g sgl, fields) stmt" where
  "sg_rebuild_or_restore E flds previous s =
     (case sg_rebuild E flds s of
        (Inr _, s') \<Rightarrow> (Inr flds, s')
      | (Inl e, s') \<Rightarrow>
          andthen (sg_rebuild E (restore_values flds previous)) (\<lambda>_.
          ret [(''error'', JStr (re_exn_text E e)), (''restored'', JObj previous)]) s')"

text \<open>The sizes the workers report, and the caches the scheduler holds itself.\<close>

definition take_sizes :: "int \<times> int \<times> int \<times> int option \<times> int \<times> int \<Rightarrow> ('g sgl, unit) stmt" where
  "take_sizes = (\<lambda>(total, prefill, running, queued, len, input_len) s.
     (Inr (), s\<lparr>sg_total_tokens := total, sg_max_prefill := prefill, sg_max_running := running, sg_max_queued := queued,
        sg_rest := (sg_rest s)\<lparr>in_req_len := len, in_req_input_len := input_len\<rparr>\<rparr>))"

definition take_caches :: "ref option \<times> ref option \<times> ref option \<Rightarrow> ('g sgl, unit) stmt" where
  "take_caches = (\<lambda>(pool, alloc, tree). on_inside (\<lambda>i. i\<lparr>in_req_pool := pool, in_kv_alloc := alloc, in_tree := tree\<rparr>))"

section \<open>Rewiring\<close>

definition wired :: "string list" where
  "wired = [''tree_cache'', ''token_to_kv_pool_allocator'', ''req_to_token_pool'', ''token_to_kv_pool'']"

definition must_rewire :: "'g reinit_env \<Rightarrow> ref dict \<Rightarrow> (string \<Rightarrow> ref option) \<Rightarrow> string \<Rightarrow> ref option \<Rightarrow> bool" where
  "must_rewire E old new k cur =
     (case (cur, new k) of
        (Some c, Some t) \<Rightarrow> c \<noteq> t \<and> (re_class E c = re_class E t \<or> c \<in> snd ` set old)
      | _ \<Rightarrow> False)"

fun rewire_attrs ::
  "'g reinit_env \<Rightarrow> ref dict \<Rightarrow> (string \<Rightarrow> ref option) \<Rightarrow> string \<Rightarrow> string list \<Rightarrow> ref option dict \<Rightarrow>
    ref option dict \<times> string list" where
  "rewire_attrs E old new cls [] d = (d, [])"
| "rewire_attrs E old new cls (k # ks) d =
     (case map_of d k of
        None \<Rightarrow> rewire_attrs E old new cls ks d
      | Some cur \<Rightarrow>
          if must_rewire E old new k cur
          then (case rewire_attrs E old new cls ks (dset k (new k) d) of (d', out) \<Rightarrow> (d', (cls @ ''.'' @ k) # out))
          else rewire_attrs E old new cls ks d)"

fun rewire_components ::
  "'g reinit_env \<Rightarrow> ref dict \<Rightarrow> (string \<Rightarrow> ref option) \<Rightarrow> component list \<Rightarrow> component list \<times> string list" where
  "rewire_components E old new [] = ([], [])"
| "rewire_components E old new (c # cs) =
     (case rewire_attrs E old new (cp_class c) wired (cp_attrs c) of (d, out) \<Rightarrow>
      case rewire_components E old new cs of (cs', out') \<Rightarrow> (c\<lparr>cp_attrs := d\<rparr> # cs', out @ out'))"

text \<open>The components, and the model runner among them.\<close>

definition rewire :: "'g reinit_env \<Rightarrow> ref dict \<Rightarrow> ('g sgl, string list) stmt" where
  "rewire E old s =
     (let i = sg_rest s; new = of_kind i;
          (cs, out) = rewire_components E old new (in_components i);
          (d, out') = rewire_attrs E old new (ru_class (in_runner i)) wired (ru_attrs (in_runner i))
      in (Inr (out @ out'), s\<lparr>sg_rest := i\<lparr>in_components := cs, in_runner := (in_runner i)\<lparr>ru_attrs := d\<rparr>\<rparr>\<rparr>))"

section \<open>The reinit\<close>

definition reset_limits :: "'g reinit_env \<Rightarrow> ('g sgl, unit) stmt" where
  "reset_limits E s = (Inr (), s\<lparr>sg_ratio := re_ratio_reset E (sg_ratio s), sg_ceiling := Some (sg_max_running s)\<rparr>)"

definition gib :: "'g reinit_env \<Rightarrow> int \<Rightarrow> int \<Rightarrow> exn + pyfloat" where
  "gib E after before =
     (case f_div (re_rounding E) (Fin (of_int (after - before))) (Fin (2 ^ 30)) of
        Inl e \<Rightarrow> Inl e | Inr x \<Rightarrow> Inr (re_round2 E x))"

definition sg_span :: "'g reinit_env \<Rightarrow> pyfloat \<Rightarrow> pyfloat \<Rightarrow> json" where
  "sg_span E a b = JFloat (re_round3 E (f_sub (re_rounding E) b a))"

definition sg_reinit_info ::
  "'g reinit_env \<Rightarrow> fields \<Rightarrow> pyfloat \<Rightarrow> string list \<Rightarrow> pyfloat \<Rightarrow> pyfloat \<Rightarrow> pyfloat \<Rightarrow> 'g sgl \<Rightarrow> fields" where
  "sg_reinit_info E flds freed rewired t0 freed_at fin s =
     [(''ok'', JBool (''error'' \<notin> set (keys flds))), (''fields'', JObj flds), (''released'', JArr []),
      (''freed_gib'', JFloat freed), (''memory_saver'', JBool True),
      (''rewired'', JArr (map JStr (sort (remdups rewired)))),
      (''max_total_num_tokens'', JInt (sg_total_tokens s)), (''max_running_requests'', JInt (sg_max_running s)),
      (''free_s'', sg_span E t0 freed_at), (''rebuild_s'', sg_span E freed_at fin), (''total_s'', sg_span E t0 fin)]"

definition note_reinit_info :: "fields \<Rightarrow> ('g sgl, fields) stmt" where
  "note_reinit_info info s = (Inr info, s\<lparr>sg_last_reinit := JObj info\<rparr>)"

text \<open>The second half of a reinit, from the rebuilt pools on.\<close>

definition sg_finish :: "'g reinit_env \<Rightarrow> ref dict \<Rightarrow> fields \<Rightarrow> pyfloat \<Rightarrow> pyfloat \<Rightarrow> int \<Rightarrow> int \<Rightarrow> ('g sgl, fields) stmt" where
  "sg_finish E old flds' t0 freed_at before after =
      andthen (re_info E) (\<lambda>sizes.
      andthen (take_sizes sizes) (\<lambda>_.
      andthen (re_build_cache E) (\<lambda>caches.
      andthen (take_caches caches) (\<lambda>_.
      andthen (rewire E old) (\<lambda>rewired.
      andthen (reset_limits E) (\<lambda>_.
      andthen (re_time E) (\<lambda>fin.
      andthen (of_result (gib E after before)) (\<lambda>freed s.
      note_reinit_info (sg_reinit_info E flds' freed rewired t0 freed_at fin s) s))))))))"

definition sg_resize :: "'g reinit_env \<Rightarrow> fields \<Rightarrow> pyfloat \<Rightarrow> ('g sgl, fields) stmt" where
  "sg_resize E flds t0 =
     andthen (re_flush E) (\<lambda>_.
     andthen (on_inside empty_batches) (\<lambda>_ s.
     (let previous = sg_previous s; old = held (sg_rest s) in
      andthen (re_free E) (\<lambda>before.
      andthen (let_go E flds old) (\<lambda>_.
      andthen (re_free E) (\<lambda>after.
      andthen (re_time E) (\<lambda>freed_at.
      andthen (sg_rebuild_or_restore E flds previous) (\<lambda>flds'.
      sg_finish E old flds' t0 freed_at before after))))) s)))"

definition sg_reinit :: "'g reinit_env \<Rightarrow> fields \<Rightarrow> ('g sgl, fields) stmt" where
  "sg_reinit E flds =
     andthen (re_time E) (\<lambda>t0 s.
       if sg_not_warm flds \<noteq> []
       then (Inr (refused (''not warm-reinitable: '' @ repr_str_list (sg_not_warm flds))), s)
       else if in_saver (sg_rest s) \<noteq> Some Memory_Saver
       then note_refusal ''warm reinit needs the server launched with --enable-memory-saver'' s
       else if sg_busy E s then note_refusal ''scheduler busy, drain before a warm reinit'' s
       else sg_resize E flds t0 s)"

end
