(* ===== verification/Sglang_Reinit_Facts.thy ===== *)
theory Sglang_Reinit_Facts
  imports Sglang_Reinit
begin

text \<open>
  What a warm reinit of SGLang guarantees: it is refused without an effect, or it returns a report
  with the limits of the new pools, and no component is left with an object of the old ones; a
  generation of pools is paused once; and a memory fraction that is no number leaves the scheduler
  without pools.
\<close>

section \<open>Rewiring leaves nothing behind\<close>

text \<open>Of the rebuilt kinds an attribute holds the new object, or one of another class that is not an old one.\<close>

definition fresh :: "'g reinit_env \<Rightarrow> ref dict \<Rightarrow> (string \<Rightarrow> ref option) \<Rightarrow> ref option dict \<Rightarrow> bool" where
  "fresh E old new d \<longleftrightarrow> (\<forall>k \<in> set wired. \<forall>cur. map_of d k = Some cur \<longrightarrow> \<not> must_rewire E old new k cur)"

lemma must_rewire_new: "\<not> must_rewire E old new k (new k)"
  by (auto simp: must_rewire_def split: option.split)

lemma rewire_attrs_other:
  "k \<notin> set ks \<Longrightarrow> map_of (fst (rewire_attrs E old new cls ks d)) k = map_of d k"
  by (induction E old new cls ks d rule: rewire_attrs.induct)
    (auto split: option.split prod.split dest: sym)

lemma rewire_attrs_done:
  "k \<in> set ks \<Longrightarrow> map_of (fst (rewire_attrs E old new cls ks d)) k = Some cur \<Longrightarrow> \<not> must_rewire E old new k cur"
proof (induction ks arbitrary: d)
  case (Cons j ks)
  show ?case
  proof (cases "k \<in> set ks")
    case True
    note IH = Cons.IH [OF True]
    show ?thesis
    proof (cases "map_of d j")
      case None
      with Cons.prems IH show ?thesis by simp
    next
      case (Some c)
      with Cons.prems IH [of d] IH [of "dset j (new j) d"] show ?thesis
        by (cases "must_rewire E old new j c") (simp_all split: prod.splits)
    qed
  next
    case False
    then have k: "k = j" using Cons.prems(1) by simp
    note other = rewire_attrs_other [OF False, of E old new cls]
    show ?thesis
    proof (cases "map_of d j")
      case None
      then show ?thesis using Cons.prems(2) other k by simp
    next
      case (Some c)
      show ?thesis
      proof (cases "must_rewire E old new j c")
        case True
        then have "cur = new j"
          using Cons.prems(2) Some other [of "dset j (new j) d"] k by (simp split: prod.splits)
        then show ?thesis using must_rewire_new k by simp
      next
        case no: False
        then show ?thesis using Cons.prems(2) Some other k by simp
      qed
    qed
  qed
qed simp

lemma rewire_attrs_fresh: "fresh E old new (fst (rewire_attrs E old new cls wired d))"
  unfolding fresh_def using rewire_attrs_done by blast

lemma rewire_components_fresh:
  "c \<in> set (fst (rewire_components E old new cs)) \<Longrightarrow> fresh E old new (cp_attrs c)"
proof (induction E old new cs rule: rewire_components.induct)
  case (2 E old new c' cs)
  then show ?case
    using rewire_attrs_fresh [of E old new "cp_class c'" "cp_attrs c'"]
    by (auto split: prod.splits)
qed simp

lemma of_kind_cong:
  "in_tree i = in_tree j \<Longrightarrow> ru_attrs (in_runner i) = ru_attrs (in_runner j) \<Longrightarrow> of_kind i = of_kind j"
  by (simp add: of_kind_def fun_eq_iff)

lemma rewire_attrs_keeps:
  assumes "\<And>k. k \<noteq> ''tree_cache'' \<Longrightarrow> new k = attr k d0" and "\<And>k. k \<noteq> ''tree_cache'' \<Longrightarrow> map_of d k = map_of d0 k"
    and "j \<noteq> ''tree_cache''"
  shows "map_of (fst (rewire_attrs E old new cls ks d)) j = map_of d0 j"
  using assms(2)
proof (induction ks arbitrary: d)
  case Nil
  with assms(3) show ?case by simp
next
  case (Cons k ks)
  show ?case
  proof (cases "map_of d k")
    case None
    with Cons show ?thesis by simp
  next
    case (Some c)
    show ?thesis
    proof (cases "must_rewire E old new k c")
      case False
      with Some Cons show ?thesis by simp
    next
      case True
      have "k = ''tree_cache''"
      proof (rule ccontr)
        assume k: "k \<noteq> ''tree_cache''"
        then have "map_of d0 k = Some c" using Cons.prems Some by simp
        then have "new k = c" using assms(1) [OF k] by (simp add: attr_def)
        then show False using True must_rewire_new [of E old new k] by simp
      qed
      then have "map_of (dset k (new k) d) l = map_of d0 l" if "l \<noteq> ''tree_cache''" for l
        using Cons.prems [OF that] that by simp
      from Cons.IH [OF this] Some True show ?thesis by (auto split: prod.splits)
    qed
  qed
qed

definition rewired :: "'g reinit_env \<Rightarrow> ref dict \<Rightarrow> 'g sgl \<Rightarrow> bool" where
  "rewired E old s \<longleftrightarrow>
     (\<forall>c \<in> set (in_components (sg_rest s)). fresh E old (of_kind (sg_rest s)) (cp_attrs c)) \<and>
     fresh E old (of_kind (sg_rest s)) (ru_attrs (in_runner (sg_rest s)))"

lemma rewired_cong: "sg_rest s = sg_rest t \<Longrightarrow> rewired E old s = rewired E old t"
  by (simp add: rewired_def)

lemma rewire_done: "rewired E old (snd (rewire E old s))"
proof -
  let ?i = "sg_rest s" and ?d = "ru_attrs (in_runner (sg_rest s))"
  let ?cs = "fst (rewire_components E old (of_kind ?i) (in_components ?i))"
  let ?d' = "fst (rewire_attrs E old (of_kind ?i) (ru_class (in_runner ?i)) wired ?d)"
  have state: "snd (rewire E old s) =
      s\<lparr>sg_rest := ?i\<lparr>in_components := ?cs, in_runner := (in_runner ?i)\<lparr>ru_attrs := ?d'\<rparr>\<rparr>\<rparr>"
    by (simp add: rewire_def Let_def split: prod.split)
  have "attr k ?d' = attr k ?d" if "k \<noteq> ''tree_cache''" for k
    using rewire_attrs_keeps [of "of_kind ?i" ?d ?d k E old "ru_class (in_runner ?i)" wired] that
    by (simp add: of_kind_def attr_def)
  then have kind: "of_kind (?i\<lparr>in_components := ?cs, in_runner := (in_runner ?i)\<lparr>ru_attrs := ?d'\<rparr>\<rparr>) = of_kind ?i"
    by (auto simp: of_kind_def fun_eq_iff)
  show ?thesis
    using rewire_components_fresh [of _ E old "of_kind ?i" "in_components ?i"]
      rewire_attrs_fresh [of E old "of_kind ?i" "ru_class (in_runner ?i)" ?d]
    by (simp add: rewired_def state kind)
qed

section \<open>Running a reinit\<close>

text \<open>A statement that returns from \<open>s\<close>, with a value and a state that satisfy \<open>P\<close>.\<close>

definition returns :: "('s, 'a) stmt \<Rightarrow> ('a \<Rightarrow> 's \<Rightarrow> bool) \<Rightarrow> 's \<Rightarrow> bool" where
  "returns m P s \<longleftrightarrow> (\<exists>x s'. m s = (Inr x, s') \<and> P x s')"

definition works :: "('s, 'a) stmt \<Rightarrow> bool" where
  "works m \<longleftrightarrow> (\<forall>s. \<exists>x s'. m s = (Inr x, s'))"

lemma returns_andthen: "returns m (\<lambda>x. returns (f x) P) s \<Longrightarrow> returns (andthen m f) P s"
  by (auto simp: returns_def)

lemma returns_works: "works m \<Longrightarrow> (\<And>x s'. P x s') \<Longrightarrow> returns m P s"
  by (auto simp: returns_def works_def)

lemma returns_seq: "works m \<Longrightarrow> (\<And>x s'. returns (f x) P s') \<Longrightarrow> returns (andthen m f) P s"
  by (rule returns_andthen, rule returns_works)

lemma returns_run: "m s = (Inr x, s') \<Longrightarrow> P x s' \<Longrightarrow> returns m P s"
  by (auto simp: returns_def)

lemma works_andthen: "works m \<Longrightarrow> (\<And>x. works (f x)) \<Longrightarrow> works (andthen m f)"
  unfolding works_def by (metis andthen_Inr)

lemma works_inside [simp]: "works (on_inside f)"
  by (simp add: works_def on_inside_def)

lemma works_pause [simp]: "works (pause_tag E t)"
  by (simp add: works_def pause_tag_def split: prod.split)

lemma works_at: "(\<And>s. works (m s)) \<Longrightarrow> works (\<lambda>s. m s s)"
  by (simp add: works_def)

definition surroundings_work :: "'g reinit_env \<Rightarrow> bool" where
  "surroundings_work E \<longleftrightarrow>
     (\<forall>s. \<exists>t. re_time E s = (Inr t, s)) \<and> works (re_free E) \<and> works (re_collect E) \<and> works (re_info E) \<and>
     works (re_build_cache E)"

lemma let_go_works: "works (re_collect E) \<Longrightarrow> fraction_of E flds = Inr x \<Longrightarrow> works (let_go E flds old)"
proof -
  assume c: "works (re_collect E)" and x: "fraction_of E flds = Inr x"
  have w: "works (of_result (Inr y))" for y by (simp add: works_def)
  have "works (pause_generation E old)"
    unfolding pause_generation_def Let_def by (rule works_at) (intro works_andthen works_pause works_inside)
  with c w show ?thesis
    unfolding let_go_def clear_workers_def x by (intro works_andthen works_inside)
qed

lemma gib_returns: "\<exists>x. gib E a b = Inr x"
  by (simp add: gib_def)

lemma rebuild_or_restore_returns:
  assumes "works (sg_rebuild E (restore_values flds prev))"
    and "\<And>s'. P flds s'" and "\<And>e s'. \<not> works (sg_rebuild E flds) \<Longrightarrow> P [(''error'', JStr e), (''restored'', JObj prev)] s'"
  shows "returns (sg_rebuild_or_restore E flds prev) P s"
proof (cases "sg_rebuild E flds s")
  case (Pair r s')
  show ?thesis
  proof (cases r)
    case (Inr x)
    with Pair assms(2) show ?thesis by (simp add: returns_def sg_rebuild_or_restore_def)
  next
    case (Inl e)
    obtain y s2 where "sg_rebuild E (restore_values flds prev) s' = (Inr y, s2)"
      using assms(1) by (auto simp: works_def)
    moreover have "\<not> works (sg_rebuild E flds)"
      using Pair Inl by (auto simp: works_def) (metis Inl_Inr_False old.prod.inject)
    ultimately show ?thesis
      using Pair Inl assms(3) by (simp add: returns_def sg_rebuild_or_restore_def)
  qed
qed

definition reported :: "'g reinit_env \<Rightarrow> ref dict \<Rightarrow> fields \<Rightarrow> fields \<Rightarrow> 'g sgl \<Rightarrow> bool" where
  "reported E old flds' info s \<longleftrightarrow>
     sg_last_reinit s = JObj info \<and> sg_ceiling s = Some (sg_max_running s) \<and> rewired E old s \<and>
     map_of info ''ok'' = Some (JBool (''error'' \<notin> set (keys flds'))) \<and> map_of info ''fields'' = Some (JObj flds') \<and>
     map_of info ''max_running_requests'' = Some (JInt (sg_max_running s)) \<and>
     map_of info ''max_total_num_tokens'' = Some (JInt (sg_total_tokens s))"

lemma finish_returns:
  assumes "surroundings_work E"
  shows "returns (sg_finish E old flds' t0 freed_at before after) (reported E old flds') s"
proof -
  have last: "returns (andthen (reset_limits E) (\<lambda>_. andthen (re_time E) (\<lambda>fin.
      andthen (of_result (gib E after before)) (\<lambda>freed s.
      note_reinit_info (sg_reinit_info E flds' freed rw t0 freed_at fin s) s)))) (reported E old flds') v"
    if "rewired E old v" for rw v
  proof -
    let ?v = "v\<lparr>sg_ratio := re_ratio_reset E (sg_ratio v), sg_ceiling := Some (sg_max_running v)\<rparr>"
    obtain t where "re_time E ?v = (Inr t, ?v)"
      using assms by (auto simp: surroundings_work_def)
    moreover obtain x where "gib E after before = Inr x" using gib_returns by blast
    ultimately show ?thesis
      using that
      by (simp add: returns_def reset_limits_def note_reinit_info_def reported_def sg_reinit_info_def rewired_def)
  qed
  have sizes: "works (take_sizes x)" and caches: "works (take_caches y)" for x y
    by (simp_all add: works_def take_sizes_def take_caches_def on_inside_def split: prod.split)
  have rw: "returns (rewire E old) (\<lambda>r. rewired E old) v" for v
    using rewire_done [of E old v] by (cases "rewire E old v") (auto simp: returns_def rewire_def Let_def split: prod.splits)
  have rest: "returns (andthen (rewire E old) (\<lambda>rewired. andthen (reset_limits E) (\<lambda>_. andthen (re_time E) (\<lambda>fin.
      andthen (of_result (gib E after before)) (\<lambda>freed s.
      note_reinit_info (sg_reinit_info E flds' freed rewired t0 freed_at fin s) s))))) (reported E old flds') v" for v
    using rw [of v] last by (intro returns_andthen) (auto simp: returns_def)
  show ?thesis
    unfolding sg_finish_def
    using assms
    by (intro returns_seq [OF _ returns_seq [OF sizes returns_seq [OF _ returns_seq [OF caches rest]]]])
      (simp_all add: surroundings_work_def)
qed

section \<open>Properties\<close>

lemma warm_not_error: "sg_not_warm flds = [] \<Longrightarrow> ''error'' \<notin> set (keys flds)"
proof -
  assume "sg_not_warm flds = []"
  then have "set (sg_not_warm flds) = {}" by simp
  then show ?thesis by (auto simp: sg_not_warm_def sg_warm_fields_def)
qed

lemma reinit_passes:
  assumes "re_time E s = (Inr t0, s)" and "sg_not_warm flds = []" and "in_saver (sg_rest s) = Some Memory_Saver"
    and "\<not> sg_busy E s" and "re_flush E s = (Inr (), u)"
  shows "sg_reinit E flds s =
     (let v = u\<lparr>sg_rest := empty_batches (sg_rest u)\<rparr> in
      andthen (re_free E) (\<lambda>before.
      andthen (let_go E flds (held (sg_rest u))) (\<lambda>_.
      andthen (re_free E) (\<lambda>after.
      andthen (re_time E) (\<lambda>freed_at.
      andthen (sg_rebuild_or_restore E flds (sg_previous u)) (\<lambda>flds'.
      sg_finish E (held (sg_rest u)) flds' t0 freed_at before after))))) v)"
proof -
  have "held (empty_batches i) = held i" for i :: "'a inside"
    using of_kind_cong [of "empty_batches i" i] by (simp add: held_def empty_batches_def)
  moreover have "sg_previous (u\<lparr>sg_rest := empty_batches (sg_rest u)\<rparr>) = sg_previous u"
    by (simp add: sg_previous_def empty_batches_def)
  ultimately show ?thesis
    using assms by (simp add: sg_reinit_def sg_resize_def on_inside_def Let_def)
qed


lemma attr_dropped: "k \<in> S \<Longrightarrow> attr k (map (\<lambda>(k, v). (k, if k \<in> S then None else v)) d) = None"
  by (induction d) (auto simp: attr_def)

text \<open>
  C32. A memory fraction that is no number strands the scheduler. The fraction is converted after the
  old pools were let go and before the rebuild that would restore them: an idle scheduler with a
  memory saver raises, its model runner has no pool, no runner and no attention backend left, and no
  report of the reinit is kept.
\<close>

theorem bad_fraction_strands:
  assumes "\<And>v. \<exists>t. re_time E v = (Inr t, v)" and "\<And>v. \<exists>b. re_free E v = (Inr b, v)"
    and "sg_not_warm flds = []" and "in_saver (sg_rest s) = Some Memory_Saver"
    and "\<not> sg_busy E s" and "re_flush E s = (Inr (), u)" and "fraction_of E flds = Inl e"
  shows "\<exists>s'. sg_reinit E flds s = (Inl e, s') \<and> sg_last_reinit s' = sg_last_reinit u \<and>
    (\<forall>k \<in> set runner_attrs. attr k (ru_attrs (in_runner (sg_rest s'))) = None)"
proof -
  obtain t0 where t0: "re_time E s = (Inr t0, s)" using assms(1) by blast
  let ?v = "u\<lparr>sg_rest := empty_batches (sg_rest u)\<rparr>"
  obtain b where b: "re_free E ?v = (Inr b, ?v)" using assms(2) by blast
  have "let_go E flds old ?v =
      (Inl e, ?v\<lparr>sg_rest := (sg_rest ?v)\<lparr>in_runner := dropped_attrs (in_runner (sg_rest ?v))\<rparr>\<rparr>)" for old
    using assms(7) by (simp add: let_go_def clear_workers_def on_inside_def)
  then have "sg_reinit E flds s =
      (Inl e, ?v\<lparr>sg_rest := (sg_rest ?v)\<lparr>in_runner := dropped_attrs (in_runner (sg_rest ?v))\<rparr>\<rparr>)"
    using b by (simp add: reinit_passes [OF t0 assms(3-6)] Let_def)
  then show ?thesis
    by (simp add: dropped_attrs_def attr_dropped)
qed

text \<open>
  The tags a reinit pauses are those under which the pools of the current generation were allocated,
  and no generation has a tag of another one: a reinit never pauses what is already paused.
\<close>

lemma show_int_eq: "show_int i = show_int j \<longleftrightarrow> i = j"
  by (metis parse_show_int option.inject)

lemma generations_apart:
  assumes "t \<in> {''kv_cache'', ''cuda_graph''}" and "t' \<in> {''kv_cache'', ''cuda_graph''}"
  shows "t @ tag_suffix g = region_tag g t" and "g \<noteq> h \<Longrightarrow> region_tag g t \<noteq> region_tag h t'"
  using assms by (auto simp: region_tag_def tag_suffix_def show_int_eq)

section \<open>Examples\<close>

text \<open>Surroundings that always work: a new set of pools, numbered from 10 on, and fixed sizes.\<close>

definition demo_runner :: runner where
  "demo_runner = \<lparr>ru_class = ''ModelRunner'', ru_fraction = Fin (1 / 2),
     ru_attrs = [(''token_to_kv_pool'', Some 1), (''req_to_token_pool'', Some 2), (''attn_backend'', Some 3)]\<rparr>"

definition demo_inside :: "unit inside" where
  "demo_inside = \<lparr>in_saver = Some Memory_Saver, in_runner = demo_runner, in_draft = None, in_queue = None,
     in_last_batch = False, in_running = 0, in_chunked = False, in_tree = Some 4, in_req_pool = Some 2, in_kv_alloc = None,
     in_req_len = 100, in_req_input_len = 90,
     in_components = [\<lparr>cp_class = ''Policy'', cp_attrs = [(''tree_cache'', Some 4), (''token_to_kv_pool'', Some 1)]\<rparr>],
     in_gen = 0, in_class_gen = 0, in_paused = [], in_gpu = ()\<rparr>"

definition demo_scheduler :: "unit sgl" where
  "demo_scheduler = \<lparr>sg_max_running = 8, sg_max_queued = None, sg_chunk = None, sg_max_prefill = 64, sg_total_tokens = 64,
     sg_policy = ''fcfs'', sg_effective = ''fcfs'', sg_ratio = \<lparr>t_init = Fin 1, t_min = Fin 0, t_decay = Fin 0, t_current = Fin 1\<rparr>,
     sg_ceiling = None, sg_conserv = None, sg_log = None, sg_logger = ''INFO'', sg_last_reinit = JNull, sg_rest = demo_inside\<rparr>"

definition demo_env :: "unit reinit_env" where
  "demo_env = \<lparr>re_rounding = Fin, re_round2 = id, re_round3 = id, re_exn_text = \<lambda>_. ''failed'', re_time = ret (Fin 0),
     re_free = ret 0, re_idle = \<lambda>_. True, re_flush = ret (), re_pause = \<lambda>_. ret (), re_collect = ret (),
     re_override = \<lambda>_. ret (),
     re_init_pools = on_inside (\<lambda>i. i\<lparr>in_runner := (in_runner i)\<lparr>ru_attrs := [(''token_to_kv_pool'', Some 11),
       (''req_to_token_pool'', Some 12), (''attn_backend'', Some 13)]\<rparr>\<rparr>),
     re_init_attention = ret (), re_init_graphs = ret (), re_info = ret (128, 128, 16, None, 100, 90),
     re_build_cache = ret (Some 12, None, Some 14), re_class = \<lambda>r. show_int (int (r mod 10)), re_ratio_reset = id\<rparr>"

theorem bad_fraction_strands_witness:
  "\<exists>s'. sg_reinit demo_env [(''mem_fraction_static'', JStr ''high'')] demo_scheduler =
      (Inl (ValueError (''could not convert string to float: '' @ repr_str ''high'')), s') \<and> sg_last_reinit s' = JNull \<and>
    (\<forall>k \<in> set runner_attrs. attr k (ru_attrs (in_runner (sg_rest s'))) = None)"
proof -
  have "fraction_of demo_env [(''mem_fraction_static'', JStr ''high'')] =
      Inl (ValueError (''could not convert string to float: '' @ repr_str ''high''))"
    by code_simp
  from bad_fraction_strands [OF _ _ _ _ _ _ this, of demo_scheduler demo_scheduler] show ?thesis
    by (simp add: demo_env_def sg_not_warm_def sg_warm_fields_def demo_scheduler_def demo_inside_def sg_busy_def)
qed


end
