(* ===== verification/Patchers.thy ===== *)
theory Patchers
  imports Py_Values
begin

text \<open>
  The scripts that put the injected code into an installed engine (\<open>edit\<close> and \<open>main\<close> of
  \<open>engine/vllm/apply_patch.py\<close>, \<open>patch_io_struct\<close> and \<open>main\<close> of \<open>engine/sglang/apply_patch.py\<close>) over a disk of
  text files. Where the engine is installed and what Python parses are arguments, and so are the
  injected texts, which the other theories model as code; the anchors are the scripts' own.
\<close>

section \<open>Texts\<close>

text \<open>The first place where \<open>w\<close> occurs in \<open>s\<close>: what is before it and what is after.\<close>

fun split_first :: "string \<Rightarrow> string \<Rightarrow> (string \<times> string) option" where
  "split_first w [] = (if w = [] then Some ([], []) else None)"
| "split_first w (c # cs) =
     (if prefix w (c # cs) then Some ([], drop (length w) (c # cs))
      else map_option (\<lambda>(a, b). (c # a, b)) (split_first w cs))"

lemma split_first_Some: "split_first w s = Some (a, b) \<Longrightarrow> s = a @ w @ b"
proof (induction s arbitrary: a)
  case (Cons c cs)
  then show ?case by (auto simp: prefix_def split: if_splits)
qed (simp split: if_splits)

text \<open>\<open>s.count(w)\<close>: occurrences that do not overlap; \<open>s.replace(w, b, 1)\<close>.\<close>

function count_of :: "string \<Rightarrow> string \<Rightarrow> nat" where
  "count_of w s =
     (if w = [] then Suc (length s)
      else case split_first w s of None \<Rightarrow> 0 | Some (a, b) \<Rightarrow> Suc (count_of w b))"
  by pat_completeness auto
termination
  by (relation "measure (\<lambda>(w, s). length s)") (auto dest: split_first_Some)

declare count_of.simps [simp del]

definition replace_first :: "string \<Rightarrow> string \<Rightarrow> string \<Rightarrow> string" where
  "replace_first w b s = (case split_first w s of None \<Rightarrow> s | Some (x, y) \<Rightarrow> x @ b @ y)"

definition newline :: string where "newline = [CHR 0x0A]"

section \<open>The disk\<close>

record disk =
  d_files :: "string dict"
  d_out :: "string list"

definition read_file :: "string \<Rightarrow> (disk, string) stmt" where
  "read_file p d = (case map_of (d_files d) p of None \<Rightarrow> (Inl (FileNotFoundError p), d) | Some t \<Rightarrow> (Inr t, d))"

definition write_file :: "string \<Rightarrow> string \<Rightarrow> (disk, unit) stmt" where
  "write_file p t d = (Inr (), d\<lparr>d_files := dset p t (d_files d)\<rparr>)"

definition copy_file :: "string \<Rightarrow> string \<Rightarrow> (disk, unit) stmt" where
  "copy_file a b = andthen (read_file a) (write_file b)"

text \<open>\<open>open(p, "a").close()\<close>.\<close>

definition touch :: "string \<Rightarrow> (disk, unit) stmt" where
  "touch p d = (Inr (), case map_of (d_files d) p of None \<Rightarrow> d\<lparr>d_files := dset p [] (d_files d)\<rparr> | Some _ \<Rightarrow> d)"

definition say :: "string \<Rightarrow> (disk, unit) stmt" where
  "say t d = (Inr (), d\<lparr>d_out := d_out d @ [t]\<rparr>)"

text \<open>\<open>sys.exit(message)\<close>.\<close>

definition give_up :: "string \<Rightarrow> (disk, 'a) stmt" where
  "give_up t = andthen (say t) (\<lambda>_. raise (SystemExit 1))"

text \<open>\<open>ast.parse\<close>: nothing for a text that parses, or the text of the error.\<close>

type_synonym python_check = "string \<Rightarrow> string option"

definition check_syntax :: "python_check \<Rightarrow> string \<Rightarrow> (disk, unit) stmt" where
  "check_syntax parses t = (if parses t = None then ret () else raise SyntaxError)"

definition backup :: "string \<Rightarrow> string" where
  "backup p = p @ ''.trimtab-orig''"

section \<open>vLLM\<close>

definition vllm_markers :: "string list" where
  "vllm_markers = [''trimtab_set_knobs'', ''attach_trimtab_router'', ''_trimtab_pending_max_num_seqs'', ''trimtab_release_kv'']"

definition marked :: "string \<Rightarrow> bool" where
  "marked t \<longleftrightarrow> (\<exists>m \<in> set vllm_markers. contains m t)"

definition edit :: "python_check \<Rightarrow> bool \<Rightarrow> string \<Rightarrow> string \<Rightarrow> string \<Rightarrow> (disk, string) stmt" where
  "edit parses check_only path anchor body =
     andthen (read_file path) (\<lambda>src.
     if marked src then ret ''already patched''
     else if count_of anchor src \<noteq> 1 then
       give_up (''anchor matched '' @ show_int (int (count_of anchor src)) @ '' times in '' @ path @ '', refusing to edit'')
     else if check_only then ret ''anchor ok''
     else
       andthen (check_syntax parses (replace_first anchor body src)) (\<lambda>_.
       andthen (copy_file path (backup path)) (\<lambda>_.
       andthen (write_file path (replace_first anchor body src)) (\<lambda>_. ret ''patched''))))"

record vllm_texts =
  vt_core :: string
  vt_init :: string
  vt_sched :: string
  vt_worker :: string
  vt_router :: string

definition core_anchor :: string where
  "core_anchor = ''    def _reject_add_in_shutdown(self, request: Request) -> bool:'' @ newline"

definition worker_anchor :: string where
  "worker_anchor = ''    def sleep(self, level: int = 1) -> None:'' @ newline"

definition sched_anchor :: string where
  "sched_anchor = ''    def schedule(self, throttle_prefills: bool = False) -> SchedulerOutput:'' @ newline @
     ''        self.current_step += 1'' @ newline"

definition init_anchor :: string where
  "init_anchor = ''    from .dev.sleep.api_router import attach_router as attach_sleep_router'' @ newline"

text \<open>The four edits: what is printed before the verdict, the file, the anchor and what replaces it.\<close>

definition vllm_edits :: "vllm_texts \<Rightarrow> string \<Rightarrow> (string \<times> string \<times> string \<times> string) list" where
  "vllm_edits t r =
     [(''core   '', r @ ''/v1/engine/core.py'', core_anchor, vt_core t @ core_anchor),
      (''serve  '', r @ ''/entrypoints/serve/__init__.py'', init_anchor, init_anchor @ vt_init t),
      (''sched  '', r @ ''/v1/core/sched/scheduler.py'', sched_anchor, sched_anchor @ vt_sched t),
      (''worker '', r @ ''/v1/worker/gpu_worker.py'', worker_anchor, vt_worker t @ worker_anchor)]"

definition run_edit :: "python_check \<Rightarrow> bool \<Rightarrow> string \<times> string \<times> string \<times> string \<Rightarrow> (disk, unit) stmt" where
  "run_edit parses check_only = (\<lambda>(name, path, anchor, body).
     andthen (edit parses check_only path anchor body) (\<lambda>v. say (name @ '' '' @ v)))"

definition router_init :: "string \<Rightarrow> string" where
  "router_init r = r @ ''/entrypoints/serve/dev/trimtab/__init__.py''"

definition router_file :: "string \<Rightarrow> string" where
  "router_file r = r @ ''/entrypoints/serve/dev/trimtab/api_router.py''"

definition install_router :: "python_check \<Rightarrow> vllm_texts \<Rightarrow> string \<Rightarrow> (disk, unit) stmt" where
  "install_router parses t r =
     andthen (touch (router_init r)) (\<lambda>_.
     andthen (write_file (router_file r) (vt_router t)) (\<lambda>_.
     andthen (check_syntax parses (vt_router t)) (\<lambda>_.
     say (''router  written '' @ router_file r))))"

definition package_root :: "string \<Rightarrow> string option \<Rightarrow> (disk, string) stmt" where
  "package_root name found =
     (case found of None \<Rightarrow> give_up (name @ '' is not installed in this environment'') | Some r \<Rightarrow> ret r)"

definition patch_vllm :: "python_check \<Rightarrow> vllm_texts \<Rightarrow> string option \<Rightarrow> bool \<Rightarrow> (disk, unit) stmt" where
  "patch_vllm parses t found check_only =
     andthen (package_root ''vllm'' found) (\<lambda>r.
     andthen (for_each (run_edit parses check_only) (vllm_edits t r)) (\<lambda>_.
     if check_only then ret () else install_router parses t r))"

section \<open>SGLang\<close>

definition sglang_marker :: string where "sglang_marker = ''_trimtab_apply_hot_knobs''"

definition io_anchor :: string where
  "io_anchor = ''    server_args: Dict[str, Union[int, float]]'' @ newline"

definition io_body :: string where
  "io_body = ''    server_args: Dict[str, Union[int, float, str]]  # trimtab: str for schedule_policy, log_level'' @ newline"

definition handler_anchor :: string where
  "handler_anchor = ''    def set_internal_state(self, recv_req: SetInternalStateReq):'' @ newline @
     ''        server_args_dict = recv_req.server_args'' @ newline"

definition readback_anchor :: string where
  "readback_anchor = ''        ret['' @ [CHR 0x22] @ ''effective_max_running_requests_per_dp'' @ [CHR 0x22] @
     ''] = self.max_running_requests'' @ newline"

definition reinit_anchor :: string where
  "reinit_anchor = ''    def flush_cache(self, empty_cache: bool = True):'' @ newline"

record sglang_texts =
  st_inject :: string
  st_readback :: string
  st_reinit :: string
  st_tail :: string

definition patch_io_struct :: "bool \<Rightarrow> string \<Rightarrow> (disk, string) stmt" where
  "patch_io_struct check_only path =
     andthen (read_file path) (\<lambda>src.
     if contains io_body src then ret ''already patched''
     else if count_of io_anchor src \<noteq> 1 then
       give_up (''io_struct anchor matched '' @ show_int (int (count_of io_anchor src)) @ '' times, refusing to edit'')
     else if check_only then ret ''anchor ok''
     else
       andthen (copy_file path (backup path)) (\<lambda>_.
       andthen (write_file path (replace_first io_anchor io_body src)) (\<lambda>_. ret ''patched'')))"

text \<open>The scheduler's file with the handler, the read-back, the reinit and the tail.\<close>

definition with_handler :: "sglang_texts \<Rightarrow> string \<Rightarrow> string" where
  "with_handler t src =
     replace_first readback_anchor (readback_anchor @ st_readback t)
       (replace_first handler_anchor (handler_anchor @ st_inject t) src)"

definition with_tail :: "sglang_texts \<Rightarrow> string \<Rightarrow> string" where
  "with_tail t out =
     rstrip_char (CHR 0x0A) (replace_first reinit_anchor (st_reinit t @ reinit_anchor) out) @ newline @ st_tail t"

definition patch_scheduler :: "python_check \<Rightarrow> sglang_texts \<Rightarrow> string \<Rightarrow> string \<Rightarrow> (disk, unit) stmt" where
  "patch_scheduler parses t target src =
     (if count_of readback_anchor src \<noteq> 1 then
        give_up (''read-back anchor matched '' @ show_int (int (count_of readback_anchor src)) @ '' times, refusing to edit'')
      else if count_of handler_anchor src \<noteq> 1 then
        give_up (''anchor matched '' @ show_int (int (count_of handler_anchor src)) @ '' times in '' @ target @
          '', refusing to edit. The installed SGLang version differs from what this patch expects.'')
      else
        andthen (copy_file target (backup target)) (\<lambda>_.
        let out = with_handler t src in
        if count_of reinit_anchor out \<noteq> 1 then
          give_up (''reinit anchor matched '' @ show_int (int (count_of reinit_anchor out)) @ '' times, refusing to edit'')
        else case parses (with_tail t out) of
          Some why \<Rightarrow> give_up (''patched file failed to parse, original left untouched ('' @ why @ '')'')
        | None \<Rightarrow>
          andthen (write_file target (with_tail t out)) (\<lambda>_.
          andthen (say (''patched '' @ target)) (\<lambda>_.
          say (''backup at '' @ backup target)))))"

text \<open>\<open>find_target\<close>, and \<open>scheduler_path.replace("scheduler.py", "io_struct.py")\<close> for a root without that name.\<close>

definition sg_target :: "string \<Rightarrow> string" where "sg_target r = r @ ''/srt/managers/scheduler.py''"
definition sg_io :: "string \<Rightarrow> string" where "sg_io r = r @ ''/srt/managers/io_struct.py''"

definition patch_target :: "python_check \<Rightarrow> sglang_texts \<Rightarrow> string \<Rightarrow> string \<Rightarrow> bool \<Rightarrow> (disk, unit) stmt" where
  "patch_target parses t target src check_only =
     (if contains sglang_marker src then say (''already patched, nothing to do ('' @ target @ '')'')
      else if check_only then
        andthen (say (''not patched, anchor matches='' @ show_int (int (count_of handler_anchor src)) @ '' ('' @ target @ '')'')) (\<lambda>_.
        raise (SystemExit (if count_of handler_anchor src = 1 then 0 else 2)))
      else patch_scheduler parses t target src)"

definition patch_sglang :: "python_check \<Rightarrow> sglang_texts \<Rightarrow> string option \<Rightarrow> bool \<Rightarrow> (disk, unit) stmt" where
  "patch_sglang parses t found check_only =
     andthen (package_root ''sglang'' found) (\<lambda>r.
     andthen (read_file (sg_target r)) (\<lambda>src.
     andthen (patch_io_struct check_only (sg_io r)) (\<lambda>v.
     andthen (say (''io_struct '' @ v)) (\<lambda>_.
     patch_target parses t (sg_target r) src check_only))))"

end
