(* ===== verification/Patchers_Facts.thy ===== *)
theory Patchers_Facts
  imports Patchers
begin

text \<open>
  What the patch scripts guarantee: whatever happens, a file of the engine is as it was or holds the
  whole patch with the original beside it; a check writes nothing; and a patched engine is left alone.
\<close>

section \<open>Texts\<close>

lemma replace_once:
  assumes "count_of w s = 1" and "w \<noteq> []"
  shows "\<exists>a b. s = a @ w @ b \<and> replace_first w t s = a @ t @ b"
proof -
  from assms obtain a b where "split_first w s = Some (a, b)"
    by (cases "split_first w s") (auto simp: count_of.simps [of w s])
  with split_first_Some [OF this] show ?thesis
    by (auto simp: replace_first_def)
qed

lemma contains_middle: "contains m t \<Longrightarrow> contains m (a @ t @ b)"
  by (intro contains_append_right contains_append_left)

lemma marked_middle: "marked t \<Longrightarrow> marked (a @ t @ b)"
  unfolding marked_def using contains_middle by blast

section \<open>Files\<close>

definition text_of :: "disk \<Rightarrow> string \<Rightarrow> string option" where
  "text_of d p = map_of (d_files d) p"

lemma text_of_say [simp]: "text_of (d\<lparr>d_out := o'\<rparr>) = text_of d"
  by (simp add: text_of_def fun_eq_iff)

lemma read_run: "read_file p d = (case text_of d p of None \<Rightarrow> (Inl (FileNotFoundError p), d) | Some t \<Rightarrow> (Inr t, d))"
  by (simp add: read_file_def text_of_def)

lemma write_run: "write_file p t d = (Inr (), d\<lparr>d_files := dset p t (d_files d)\<rparr>)"
  by (simp add: write_file_def)

lemma text_of_files: "text_of (d\<lparr>d_files := fs\<rparr>) = map_of fs"
  by (simp add: text_of_def fun_eq_iff)

lemma text_of_write [simp]: "text_of (d\<lparr>d_files := dset p t (d_files d)\<rparr>) = (text_of d)(p \<mapsto> t)"
  by (simp add: text_of_def fun_eq_iff)

lemma copy_run: "text_of d a = Some t \<Longrightarrow> copy_file a b d = (Inr (), d\<lparr>d_files := dset b t (d_files d)\<rparr>)"
  by (simp add: copy_file_def read_run write_run)

lemma give_up_run: "give_up t d = (Inl (SystemExit 1), d\<lparr>d_out := d_out d @ [t]\<rparr>)"
  by (simp add: give_up_def say_def)

lemma backup_other [simp]: "backup p \<noteq> p" "p \<noteq> backup p"
  by (simp_all add: backup_def)

text \<open>A file that holds the whole patch, where it was an unpatched file with one anchor.\<close>

definition patched_file :: "python_check \<Rightarrow> disk \<Rightarrow> disk \<Rightarrow> string \<times> string \<times> string \<times> string \<Rightarrow> bool" where
  "patched_file parses d d' = (\<lambda>(name, path, anchor, body).
     \<exists>a b. text_of d path = Some (a @ anchor @ b) \<and> \<not> marked (a @ anchor @ b) \<and> count_of anchor (a @ anchor @ b) = 1 \<and>
       text_of d' path = Some (a @ body @ b) \<and> parses (a @ body @ b) = None \<and>
       text_of d' (backup path) = text_of d path)"

definition path_of :: "string \<times> string \<times> string \<times> string \<Rightarrow> string" where
  "path_of = (\<lambda>(name, path, anchor, body). path)"

definition body_of :: "string \<times> string \<times> string \<times> string \<Rightarrow> string" where
  "body_of = (\<lambda>(name, path, anchor, body). body)"

definition anchor_of :: "string \<times> string \<times> string \<times> string \<Rightarrow> string" where
  "anchor_of = (\<lambda>(name, path, anchor, body). anchor)"

lemma edit_run:
  assumes "text_of d path = Some src"
  shows "edit parses co path anchor body d =
    (if marked src then (Inr ''already patched'', d)
     else if count_of anchor src \<noteq> 1 then
       give_up (''anchor matched '' @ show_int (int (count_of anchor src)) @ '' times in '' @ path @ '', refusing to edit'') d
     else if co then (Inr ''anchor ok'', d)
     else if parses (replace_first anchor body src) \<noteq> None then (Inl SyntaxError, d)
     else (Inr ''patched'',
       d\<lparr>d_files := dset path (replace_first anchor body src) (dset (backup path) src (d_files d))\<rparr>))"
  using assms by (simp add: edit_def read_run check_syntax_def copy_run write_run del: One_nat_def)

lemma run_edit_eq:
  "run_edit parses co (name, path, anchor, body) d =
     (case edit parses co path anchor body d of (Inl e, d') \<Rightarrow> (Inl e, d')
      | (Inr v, d') \<Rightarrow> (Inr (), d'\<lparr>d_out := d_out d' @ [name @ '' '' @ v]\<rparr>))"
  by (simp add: run_edit_def andthen_def say_def split: prod.split sum.split)

lemma run_edit_outcome:
  assumes "anchor_of e \<noteq> []" and "run_edit parses co e d = (r, d')"
  shows "text_of d' = text_of d \<and> (r = Inr () \<longrightarrow> co \<or> (\<exists>t. text_of d (path_of e) = Some t \<and> marked t)) \<or>
    r = Inr () \<and> \<not> co \<and> patched_file parses d d' e \<and>
    (\<forall>q. q \<noteq> path_of e \<longrightarrow> q \<noteq> backup (path_of e) \<longrightarrow> text_of d' q = text_of d q)"
proof -
  obtain name path anchor body where e: "e = (name, path, anchor, body)" by (cases e)
  show ?thesis
  proof (cases "text_of d path")
    case None
    with assms e show ?thesis by (auto simp: run_edit_eq edit_def read_run)
  next
    case (Some src)
    show ?thesis
    proof (cases "marked src \<or> count_of anchor src \<noteq> 1 \<or> co \<or> parses (replace_first anchor body src) \<noteq> None")
      case True
      with Some assms e show ?thesis
        by (auto simp: run_edit_eq edit_run give_up_run path_of_def simp del: One_nat_def split: if_splits)
    next
      case False
      with assms(1) obtain a b where ab: "src = a @ anchor @ b" "replace_first anchor body src = a @ body @ b"
        using replace_once [of anchor src body] by (auto simp: e anchor_of_def)
      have "run_edit parses co e d = (Inr (), d\<lparr>d_files := dset path (a @ body @ b) (dset (backup path) src (d_files d)),
          d_out := d_out d @ [name @ '' '' @ ''patched'']\<rparr>)"
        using False Some ab(2)
        by (simp add: e run_edit_eq edit_run del: One_nat_def)
      moreover have "text_of (d\<lparr>d_files := dset path (a @ body @ b) (dset (backup path) src (d_files d)),
          d_out := o'\<rparr>) = (text_of d)(backup path \<mapsto> src, path \<mapsto> a @ body @ b)" for o'
        by (simp add: text_of_def fun_eq_iff)
      ultimately show ?thesis
        using False Some ab assms(2) by (auto simp: e patched_file_def path_of_def)
    qed
  qed
qed

section \<open>A list of edits\<close>

type_synonym edits = "(string \<times> string \<times> string \<times> string) list"

definition apart :: "edits \<Rightarrow> bool" where
  "apart es \<longleftrightarrow> distinct (map path_of es) \<and> (\<forall>p \<in> path_of ` set es. \<forall>q \<in> path_of ` set es. p \<noteq> backup q) \<and>
     (\<forall>e \<in> set es. anchor_of e \<noteq> [])"

definition touched :: "edits \<Rightarrow> string set" where
  "touched es = path_of ` set es \<union> backup ` path_of ` set es"

lemma backup_inject [simp]: "backup p = backup q \<longleftrightarrow> p = q"
  by (simp add: backup_def)

lemma patched_file_cong:
  "text_of d (path_of e) = text_of c (path_of e) \<Longrightarrow> text_of d' (path_of e) = text_of c' (path_of e) \<Longrightarrow>
   text_of d' (backup (path_of e)) = text_of c' (backup (path_of e)) \<Longrightarrow>
   patched_file parses d d' e = patched_file parses c c' e"
  by (cases e) (simp add: patched_file_def path_of_def)

lemma patched_file_marked:
  "patched_file parses d d' e \<Longrightarrow> marked (body_of e) \<Longrightarrow> \<exists>t. text_of d' (path_of e) = Some t \<and> marked t"
  using marked_middle by (cases e) (auto simp: patched_file_def path_of_def body_of_def)

definition edited :: "python_check \<Rightarrow> disk \<Rightarrow> disk \<Rightarrow> edits \<Rightarrow> bool" where
  "edited parses d d' es \<longleftrightarrow>
     (\<forall>e \<in> set es. text_of d' (path_of e) = text_of d (path_of e) \<or> patched_file parses d d' e) \<and>
     (\<forall>q. q \<notin> touched es \<longrightarrow> text_of d' q = text_of d q)"

definition all_marked :: "disk \<Rightarrow> edits \<Rightarrow> bool" where
  "all_marked d es \<longleftrightarrow> (\<forall>e \<in> set es. \<exists>t. text_of d (path_of e) = Some t \<and> marked t)"

lemma edits_outcome:
  assumes "apart es" and "for_each (run_edit parses co) es d = (r, d')"
  shows "edited parses d d' es \<and> (co \<longrightarrow> text_of d' = text_of d) \<and>
    (r = Inr () \<longrightarrow> \<not> co \<longrightarrow> (\<forall>e \<in> set es. marked (body_of e)) \<longrightarrow> all_marked d' es)"
  using assms
proof (induction es arbitrary: d)
  case Nil
  then show ?case by (simp add: edited_def all_marked_def)
next
  case (Cons e es)
  have apart: "apart es" and anchor: "anchor_of e \<noteq> []"
    using Cons.prems(1) by (auto simp: apart_def)
  have away': "path_of f \<noteq> path_of e" "path_of f \<noteq> backup (path_of e)" if "f \<in> set es" for f
    using Cons.prems(1) imageI [OF that, of path_of] by (auto simp: apart_def)
  have away0: "path_of e \<notin> touched es" "backup (path_of e) \<notin> touched es"
    using Cons.prems(1) by (auto simp: apart_def touched_def)
  obtain r1 d1 where e: "run_edit parses co e d = (r1, d1)" by fastforce
  note out = run_edit_outcome [OF anchor e]
  have first: "text_of d1 q = text_of d q" if "q \<noteq> path_of e" "q \<noteq> backup (path_of e)" for q
    using out that by auto
  have own: "text_of d1 (path_of e) = text_of d (path_of e) \<or> patched_file parses d d1 e"
    using out by auto
  show ?case
  proof (cases r1)
    case (Inl x)
    then have d': "d' = d1" "r = Inl x" using Cons.prems(2) e by simp_all
    have "text_of d1 = text_of d" using out Inl by auto
    then show ?thesis by (simp add: d' edited_def)
  next
    case (Inr u)
    then have rest: "for_each (run_edit parses co) es d1 = (r, d')" using Cons.prems(2) e by simp
    note IH = Cons.IH [OF apart rest]
    have same: "text_of d' q = text_of d1 q" if "q \<notin> touched es" for q
      using IH that by (simp add: edited_def)
    have e_own: "text_of d' (path_of e) = text_of d (path_of e) \<or> patched_file parses d d' e"
      using own same [OF away0(1)] patched_file_cong [of d e d d1 d' parses] same [OF away0(2)] by auto
    have others: "text_of d' (path_of f) = text_of d (path_of f) \<or> patched_file parses d d' f" if "f \<in> set es" for f
      using IH that first [OF away' [OF that]] patched_file_cong [of d1 f d d' d' parses] by (auto simp: edited_def)
    have outside: "text_of d' q = text_of d q" if "q \<notin> touched (e # es)" for q
      using same [of q] first [of q] that by (simp add: touched_def)
    have check: "text_of d' = text_of d" if co
      using IH out that by auto
    have marked: "all_marked d' (e # es)" if "r = Inr ()" "\<not> co" "\<forall>f \<in> set (e # es). marked (body_of f)"
    proof -
      have "\<exists>t. text_of d1 (path_of e) = Some t \<and> marked t"
        using out Inr that patched_file_marked [of parses d d1 e] by auto
      then show ?thesis
        using IH that same [OF away0(1)] by (simp add: all_marked_def)
    qed
    show ?thesis
      using e_own others outside check marked by (auto simp: edited_def)
  qed
qed

lemma edits_again:
  "all_marked d es \<Longrightarrow> \<exists>d'. for_each (run_edit parses False) es d = (Inr (), d') \<and> text_of d' = text_of d"
proof (induction es arbitrary: d)
  case (Cons e es)
  then obtain t where t: "text_of d (path_of e) = Some t" "marked t" by (auto simp: all_marked_def)
  obtain name path anchor body where e: "e = (name, path, anchor, body)" by (cases e)
  let ?d = "d\<lparr>d_out := d_out d @ [name @ '' '' @ ''already patched'']\<rparr>"
  have "run_edit parses False e d = (Inr (), ?d)"
    using t by (simp add: e run_edit_eq edit_run path_of_def)
  moreover have "all_marked ?d es" using Cons.prems by (simp add: all_marked_def)
  ultimately show ?case using Cons.IH [of ?d] by auto
qed simp

section \<open>vLLM\<close>

lemma vllm_apart: "apart (vllm_edits t r)"
  by (simp add: apart_def vllm_edits_def path_of_def anchor_of_def backup_def core_anchor_def init_anchor_def
      sched_anchor_def worker_anchor_def)

lemma router_away: "router_init r \<notin> touched (vllm_edits t r)" "router_file r \<notin> touched (vllm_edits t r)"
  by (simp_all add: touched_def vllm_edits_def path_of_def backup_def router_init_def router_file_def)

lemma router_outcome:
  assumes "install_router parses t r d = (x, d')"
  shows "text_of d' = (text_of d)(router_init r \<mapsto> (case text_of d (router_init r) of None \<Rightarrow> [] | Some c \<Rightarrow> c),
      router_file r \<mapsto> vt_router t)" and "x = Inr () \<longleftrightarrow> parses (vt_router t) = None"
proof -
  let ?init = "case text_of d (router_init r) of None \<Rightarrow> d\<lparr>d_files := dset (router_init r) [] (d_files d)\<rparr> | Some c \<Rightarrow> d"
  let ?d = "?init\<lparr>d_files := dset (router_file r) (vt_router t) (d_files ?init)\<rparr>"
  have "install_router parses t r d =
      (if parses (vt_router t) = None then say (''router  written '' @ router_file r) ?d else (Inl SyntaxError, ?d))"
    by (simp add: install_router_def touch_def write_run check_syntax_def text_of_def)
  moreover have "text_of ?d = (text_of d)(router_init r \<mapsto> (case text_of d (router_init r) of None \<Rightarrow> [] | Some c \<Rightarrow> c),
      router_file r \<mapsto> vt_router t)"
    by (cases "text_of d (router_init r)") (auto simp: fun_eq_iff text_of_def)
  ultimately show "text_of d' = (text_of d)(router_init r \<mapsto> (case text_of d (router_init r) of None \<Rightarrow> [] | Some c \<Rightarrow> c),
      router_file r \<mapsto> vt_router t)" and "x = Inr () \<longleftrightarrow> parses (vt_router t) = None"
    using assms by (auto simp: say_def split: if_splits)
qed

lemma vllm_outcome:
  assumes "patch_vllm parses t found co d = (x, d')"
  shows "(co \<longrightarrow> text_of d' = text_of d) \<and>
    (\<forall>r e. found = Some r \<longrightarrow> e \<in> set (vllm_edits t r) \<longrightarrow>
       text_of d' (path_of e) = text_of d (path_of e) \<or> patched_file parses d d' e)"
proof (cases found)
  case None
  with assms show ?thesis by (auto simp: patch_vllm_def package_root_def give_up_run)
next
  case (Some r)
  obtain y d1 where e: "for_each (run_edit parses co) (vllm_edits t r) d = (y, d1)" by fastforce
  note out = edits_outcome [OF vllm_apart e]
  have run: "(case y of Inl z \<Rightarrow> (Inl z, d1) | Inr _ \<Rightarrow> (if co then ret () else install_router parses t r) d1) = (x, d')"
    using assms e by (simp add: Some patch_vllm_def package_root_def andthen_def split: sum.splits)
  have co: "text_of d' = text_of d" if co
    using out run that by (auto split: sum.splits)
  have keep: "text_of d' q = text_of d1 q" if "q \<in> touched (vllm_edits t r)" for q
    using run router_outcome(1) [of parses t r d1 x d'] router_away [of r t] that
    by (auto split: sum.splits if_splits)
  have "text_of d' (path_of e) = text_of d (path_of e) \<or> patched_file parses d d' e" if "e \<in> set (vllm_edits t r)" for e
  proof -
    have "path_of e \<in> touched (vllm_edits t r)" "backup (path_of e) \<in> touched (vllm_edits t r)"
      using that by (auto simp: touched_def)
    then show ?thesis
      using out that keep patched_file_cong [of d e d d' d1 parses] by (auto simp: edited_def)
  qed
  with co Some show ?thesis by blast
qed

lemma vllm_again:
  assumes "\<forall>e \<in> set (vllm_edits t r). marked (body_of e)" and "patch_vllm parses t (Some r) False d = (Inr (), d')"
  shows "\<exists>d''. patch_vllm parses t (Some r) False d' = (Inr (), d'') \<and> text_of d'' = text_of d'"
proof -
  obtain d1 where e: "for_each (run_edit parses False) (vllm_edits t r) d = (Inr (), d1)"
    and i: "install_router parses t r d1 = (Inr (), d')"
    using assms(2) by (auto simp: patch_vllm_def package_root_def elim!: andthen_InrE)
  note rt = router_outcome [OF i]
  have m: "all_marked d1 (vllm_edits t r)"
    using edits_outcome [OF vllm_apart e] assms(1) by blast
  have keep: "text_of d' q = text_of d1 q" if "q \<in> touched (vllm_edits t r)" for q
    using rt(1) router_away [of r t] that by auto
  have "all_marked d' (vllm_edits t r)"
    using m keep by (auto simp: all_marked_def touched_def)
  from edits_again [OF this] obtain d2 where d2: "for_each (run_edit parses False) (vllm_edits t r) d' = (Inr (), d2)"
    and same: "text_of d2 = text_of d'" by blast
  obtain x d3 where i2: "install_router parses t r d2 = (x, d3)" by fastforce
  note rt2 = router_outcome [OF i2]
  have "x = Inr ()" using rt(2) rt2(2) by simp
  moreover have "text_of d3 = text_of d'"
    using rt(1) rt2(1) same by (auto simp: fun_eq_iff)
  ultimately show ?thesis
    using d2 i2 by (simp add: patch_vllm_def package_root_def)
qed

section \<open>SGLang\<close>

lemma sg_paths: "sg_target r \<noteq> sg_io r" "sg_target r \<noteq> backup (sg_io r)" "backup (sg_target r) \<noteq> sg_io r"
  by (simp_all add: sg_target_def sg_io_def backup_def)

lemma io_outcome:
  assumes "patch_io_struct co p d = (x, d')"
  shows "text_of d' = text_of d \<and> (x = Inr v \<longrightarrow> co \<or> (\<exists>t. text_of d p = Some t \<and> contains io_body t)) \<or>
    x = Inr ''patched'' \<and> \<not> co \<and> (\<exists>a b. text_of d p = Some (a @ io_anchor @ b) \<and>
      text_of d' = (text_of d)(backup p \<mapsto> a @ io_anchor @ b, p \<mapsto> a @ io_body @ b))"
proof (cases "text_of d p")
  case None
  with assms show ?thesis by (auto simp: patch_io_struct_def read_run)
next
  case (Some src)
  have ne: "io_anchor \<noteq> []" by (simp add: io_anchor_def)
  have run: "patch_io_struct co p d =
    (if contains io_body src then (Inr ''already patched'', d)
     else if count_of io_anchor src \<noteq> 1 then
       give_up (''io_struct anchor matched '' @ show_int (int (count_of io_anchor src)) @ '' times, refusing to edit'') d
     else if co then (Inr ''anchor ok'', d)
     else (Inr ''patched'', d\<lparr>d_files := dset p (replace_first io_anchor io_body src) (dset (backup p) src (d_files d))\<rparr>))"
    using Some by (simp add: patch_io_struct_def read_run copy_run write_run del: One_nat_def)
  show ?thesis
  proof (cases "contains io_body src \<or> count_of io_anchor src \<noteq> 1 \<or> co")
    case True
    with run assms Some show ?thesis by (auto simp: give_up_run simp del: One_nat_def split: if_splits)
  next
    case False
    then obtain a b where "src = a @ io_anchor @ b" "replace_first io_anchor io_body src = a @ io_body @ b"
      using replace_once [OF _ ne, of src io_body] by auto
    moreover have "text_of (d\<lparr>d_files := dset p y (dset q z (d_files d))\<rparr>) = (text_of d)(q \<mapsto> z, p \<mapsto> y)" for q y z
      by (simp add: text_of_def fun_eq_iff)
    ultimately have "x = Inr ''patched'' \<and> text_of d p = Some (a @ io_anchor @ b) \<and>
        text_of d' = (text_of d)(backup p \<mapsto> a @ io_anchor @ b, p \<mapsto> a @ io_body @ b)"
      using False run assms Some by auto
    with False show ?thesis by blast
  qed
qed

lemma scheduler_outcome:
  assumes "text_of d p = Some src" and "patch_scheduler parses t p src d = (x, d')"
  shows "(\<forall>q. q \<noteq> p \<longrightarrow> q \<noteq> backup p \<longrightarrow> text_of d' q = text_of d q) \<and>
    (text_of d' p = text_of d p \<and> x \<noteq> Inr () \<or>
     x = Inr () \<and> text_of d' p = Some (with_tail t (with_handler t src)) \<and>
     parses (with_tail t (with_handler t src)) = None \<and> text_of d' (backup p) = text_of d p)"
proof (cases "count_of readback_anchor src \<noteq> 1 \<or> count_of handler_anchor src \<noteq> 1")
  case True
  with assms show ?thesis
    by (auto simp: patch_scheduler_def give_up_run simp del: One_nat_def split: if_splits)
next
  case False
  let ?d = "d\<lparr>d_files := dset (backup p) src (d_files d)\<rparr>"
  have run: "patch_scheduler parses t p src d =
      (if count_of reinit_anchor (with_handler t src) \<noteq> 1 then
         give_up (''reinit anchor matched '' @ show_int (int (count_of reinit_anchor (with_handler t src))) @
           '' times, refusing to edit'') ?d
       else case parses (with_tail t (with_handler t src)) of
         Some why \<Rightarrow> give_up (''patched file failed to parse, original left untouched ('' @ why @ '')'') ?d
       | None \<Rightarrow> (Inr (), ?d\<lparr>d_files := dset p (with_tail t (with_handler t src)) (d_files ?d),
           d_out := d_out d @ [''patched '' @ p] @ [''backup at '' @ backup p]\<rparr>))"
    using False assms(1)
    by (simp add: patch_scheduler_def copy_run write_run say_def Let_def del: One_nat_def split: option.split)
  show ?thesis
    using assms unfolding run by (auto simp: give_up_run text_of_def split: if_splits option.splits)
qed

text \<open>What a run of the SGLang script did to the two files.\<close>

definition sglang_files :: "python_check \<Rightarrow> sglang_texts \<Rightarrow> string \<Rightarrow> disk \<Rightarrow> disk \<Rightarrow> bool" where
  "sglang_files parses t r d d' \<longleftrightarrow>
     (text_of d' (sg_io r) = text_of d (sg_io r) \<or>
      (\<exists>a b. text_of d (sg_io r) = Some (a @ io_anchor @ b) \<and> text_of d' (sg_io r) = Some (a @ io_body @ b) \<and>
         text_of d' (backup (sg_io r)) = text_of d (sg_io r))) \<and>
     (text_of d' (sg_target r) = text_of d (sg_target r) \<or>
      (\<exists>src. text_of d (sg_target r) = Some src \<and> text_of d' (sg_target r) = Some (with_tail t (with_handler t src)) \<and>
         parses (with_tail t (with_handler t src)) = None \<and> text_of d' (backup (sg_target r)) = Some src))"

lemma sglang_outcome:
  assumes "patch_sglang parses t (Some r) co d = (x, d')"
  shows "(co \<longrightarrow> text_of d' = text_of d) \<and> sglang_files parses t r d d' \<and>
    (x = Inr () \<longrightarrow> \<not> co \<longrightarrow> contains sglang_marker (st_tail t) \<longrightarrow>
      (\<exists>s. text_of d' (sg_target r) = Some s \<and> contains sglang_marker s) \<and>
      (\<exists>s. text_of d' (sg_io r) = Some s \<and> contains io_body s))"
proof (cases "text_of d (sg_target r)")
  case None
  with assms show ?thesis
    by (auto simp: patch_sglang_def package_root_def read_run sglang_files_def)
next
  case (Some src)
  obtain y d1 where io: "patch_io_struct co (sg_io r) d = (y, d1)" by fastforce
  have body: "contains io_body (a @ io_body @ b)" for a b
    by (intro contains_middle) (simp add: contains_def)
  show ?thesis
  proof (cases y)
    case (Inl e)
    then have "x = Inl e" "d' = d1"
      using assms io Some by (simp_all add: patch_sglang_def package_root_def read_run)
    with io_outcome [OF io] Inl show ?thesis by (auto simp: sglang_files_def)
  next
    case (Inr v)
    let ?d = "d1\<lparr>d_out := d_out d1 @ [''io_struct '' @ v]\<rparr>"
    note io_out = io_outcome [OF io, of v]
    have target: "text_of d1 (sg_target r) = Some src"
      using io_out Some sg_paths [of r] by auto
    have io_ok: "\<exists>s. text_of d1 (sg_io r) = Some s \<and> contains io_body s" if "\<not> co"
      using io_out Inr that body by auto
    have io_files: "text_of d1 (sg_io r) = text_of d (sg_io r) \<or>
        (\<exists>a b. text_of d (sg_io r) = Some (a @ io_anchor @ b) \<and> text_of d1 (sg_io r) = Some (a @ io_body @ b) \<and>
           text_of d1 (backup (sg_io r)) = text_of d (sg_io r))"
    proof (cases "text_of d1 = text_of d")
      case False
      with io_out obtain a b where "text_of d (sg_io r) = Some (a @ io_anchor @ b)"
        and "text_of d1 = (text_of d)(backup (sg_io r) \<mapsto> a @ io_anchor @ b, sg_io r \<mapsto> a @ io_body @ b)"
        by blast
      then show ?thesis by (intro disjI2 exI [of _ a] exI [of _ b]) simp
    qed simp
    have co: "text_of d1 = text_of d" if co
      using io_out that by auto
    have run: "patch_target parses t (sg_target r) src co ?d = (x, d')"
      using assms io Some Inr by (simp add: patch_sglang_def package_root_def read_run say_def)
    show ?thesis
    proof (cases "contains sglang_marker src \<or> co")
      case True
      then have "text_of d' = text_of d1" and "co \<longrightarrow> contains sglang_marker src \<or> x \<noteq> Inr ()"
        using run by (auto simp: patch_target_def say_def split: if_splits)
      then show ?thesis
        using True co io_files io_ok target Some by (auto simp: sglang_files_def)
    next
      case False
      then have s: "patch_scheduler parses t (sg_target r) src ?d = (x, d')" using run by (simp add: patch_target_def)
      note out = scheduler_outcome [OF _ s, simplified, OF target]
      have keep: "text_of d' (sg_io r) = text_of d1 (sg_io r)" "text_of d' (backup (sg_io r)) = text_of d1 (backup (sg_io r))"
        using out sg_paths [of r] by auto
      have mark: "contains sglang_marker (with_tail t o')" if "contains sglang_marker (st_tail t)" for o'
        using that unfolding with_tail_def by (intro contains_append_right)
      show ?thesis
        using out keep mark False io_files io_ok target Some by (auto simp: sglang_files_def)
    qed
  qed
qed

lemma sglang_again:
  assumes "contains sglang_marker (st_tail t)" and "patch_sglang parses t (Some r) False d = (Inr (), d')"
  shows "\<exists>d''. patch_sglang parses t (Some r) False d' = (Inr (), d'') \<and> text_of d'' = text_of d'"
proof -
  from sglang_outcome [OF assms(2)] assms(1) obtain s u
    where "text_of d' (sg_target r) = Some s" "contains sglang_marker s" "text_of d' (sg_io r) = Some u" "contains io_body u"
    by auto
  then show ?thesis
    by (simp add: patch_sglang_def patch_io_struct_def package_root_def read_run patch_target_def say_def)
qed

section \<open>Properties\<close>


text \<open>
  Patching again changes nothing. When the injected texts carry their markers, a script that
  returned returns again on the disk it left, and every file has the text it had.
\<close>

theorem patching_again:
  assumes "\<forall>e \<in> set (vllm_edits vt r). marked (body_of e)" and "contains sglang_marker (st_tail st)"
    and "patch_vllm parses vt (Some r) False d = (Inr (), d1)"
    and "patch_sglang parses st (Some r) False d = (Inr (), d2)"
  shows "\<exists>d1' d2'. patch_vllm parses vt (Some r) False d1 = (Inr (), d1') \<and> text_of d1' = text_of d1 \<and>
    patch_sglang parses st (Some r) False d2 = (Inr (), d2') \<and> text_of d2' = text_of d2"
  using vllm_again [OF assms(1,3)] sglang_again [OF assms(2,4)] by blast

section \<open>Examples\<close>

definition demo_vllm :: vllm_texts where
  "demo_vllm = \<lparr>vt_core = ''trimtab_set_knobs'', vt_init = ''attach_trimtab_router'',
     vt_sched = ''_trimtab_pending_max_num_seqs'', vt_worker = ''trimtab_release_kv'', vt_router = ''router''\<rparr>"

definition demo_sglang :: sglang_texts where
  "demo_sglang = \<lparr>st_inject = ''a'', st_readback = ''b'', st_reinit = ''c'', st_tail = sglang_marker\<rparr>"

definition demo_disk :: disk where
  "demo_disk = \<lparr>d_files = [(''/v1/engine/core.py'', core_anchor), (''/entrypoints/serve/__init__.py'', init_anchor),
      (''/v1/core/sched/scheduler.py'', sched_anchor), (''/v1/worker/gpu_worker.py'', worker_anchor),
      (''/srt/managers/scheduler.py'', handler_anchor @ readback_anchor @ reinit_anchor),
      (''/srt/managers/io_struct.py'', io_anchor)], d_out = []\<rparr>"

lemma demo_runs:
  "fst (patch_vllm (\<lambda>_. None) demo_vllm (Some []) False demo_disk) = Inr ()"
  "fst (patch_sglang (\<lambda>_. None) demo_sglang (Some []) False demo_disk) = Inr ()"
  by code_simp+


theorem patching_again_witness:
  "\<exists>d1 d2 d1' d2'. patch_vllm (\<lambda>_. None) demo_vllm (Some []) False demo_disk = (Inr (), d1) \<and>
    patch_vllm (\<lambda>_. None) demo_vllm (Some []) False d1 = (Inr (), d1') \<and> text_of d1' = text_of d1 \<and>
    patch_sglang (\<lambda>_. None) demo_sglang (Some []) False demo_disk = (Inr (), d2) \<and>
    patch_sglang (\<lambda>_. None) demo_sglang (Some []) False d2 = (Inr (), d2') \<and> text_of d2' = text_of d2"
proof -
  have "\<forall>e \<in> set (vllm_edits demo_vllm []). marked (body_of e)" and "contains sglang_marker (st_tail demo_sglang)"
    by code_simp+
  from patching_again [OF this, of "\<lambda>_. None" demo_disk] demo_runs show ?thesis
    by (metis prod.collapse)
qed

end
