(* ===== verification/Json_Text.thy ===== *)
theory Json_Text
  imports Py_Values
begin

text \<open>
  JSON as text: \<open>json.dumps\<close> and \<open>json.loads\<close> of the standard library, as the sources call them.
  The other theories carry JSON values; here is why they may: what is dumped reads back.

  A character is a code point below 256; an escape above that is \<open>Beyond_Text\<close>. The limits of the
  interpreter on the digits of a number and on the depth of nesting are not modelled. The scanner
  has fuel; \<open>loads\<close> gives it enough, and \<open>loads_returns\<close> proves so.
\<close>

section \<open>Writing\<close>

definition json_escape :: "char \<Rightarrow> string" where
  "json_escape c =
     (if c = CHR 0x22 \<or> c = CHR 0x5C then [CHR 0x5C, c]
      else if c = CHR 0x0A then [CHR 0x5C, CHR ''n'']
      else if c = CHR 0x0D then [CHR 0x5C, CHR ''r'']
      else if c = CHR 0x09 then [CHR 0x5C, CHR ''t'']
      else if c = CHR 0x0C then [CHR 0x5C, CHR ''f'']
      else if c = CHR 0x08 then [CHR 0x5C, CHR ''b'']
      else if c < CHR '' '' \<or> CHR ''~'' < c
        then [CHR 0x5C, CHR ''u'', CHR ''0'', CHR ''0'', hex_char (of_char c div 16), hex_char (of_char c mod 16)]
      else [c])"

definition json_string :: "string \<Rightarrow> string" where
  "json_string s = CHR 0x22 # concat (map json_escape s) @ [CHR 0x22]"

definition json_float :: "float_text \<Rightarrow> pyfloat \<Rightarrow> string" where
  "json_float fr f = (case f of NaN \<Rightarrow> ''NaN'' | PInf \<Rightarrow> ''Infinity'' | NInf \<Rightarrow> ''-Infinity'' | Fin q \<Rightarrow> fr (Fin q))"

text \<open>A line break of an indented text, and what stands between two items.\<close>

definition line_break :: "nat option \<Rightarrow> nat \<Rightarrow> string" where
  "line_break ind level =
     (case ind of None \<Rightarrow> [] | Some i \<Rightarrow> CHR 0x0A # replicate (i * level) CHR '' '')"

definition item_sep :: "nat option \<Rightarrow> nat \<Rightarrow> string" where
  "item_sep ind level = CHR '','' # (if ind = None then '' '' else line_break ind level)"

definition bracketed :: "nat option \<Rightarrow> nat \<Rightarrow> char \<Rightarrow> char \<Rightarrow> string list \<Rightarrow> string" where
  "bracketed ind level a b ws =
     (if ws = [] then [a, b]
      else a # line_break ind (Suc level) @ join (item_sep ind (Suc level)) ws @ line_break ind level @ [b])"

fun dumps_at :: "float_text \<Rightarrow> nat option \<Rightarrow> nat \<Rightarrow> json \<Rightarrow> string" where
  "dumps_at fr ind level JNull = ''null''"
| "dumps_at fr ind level (JBool b) = (if b then ''true'' else ''false'')"
| "dumps_at fr ind level (JInt i) = show_int i"
| "dumps_at fr ind level (JFloat f) = json_float fr f"
| "dumps_at fr ind level (JStr s) = json_string s"
| "dumps_at fr ind level (JArr xs) =
     bracketed ind level CHR ''['' CHR '']'' (map (dumps_at fr ind (Suc level)) xs)"
| "dumps_at fr ind level (JObj d) =
     bracketed ind level CHR ''{'' CHR ''}''
       (map (\<lambda>(k, v). json_string k @ '': '' @ dumps_at fr ind (Suc level) v) d)"

text \<open>\<open>json.dumps(v)\<close>, \<open>json.dumps(v, sort_keys=True)\<close> and \<open>json.dumps(v, indent=1)\<close>.\<close>

definition dumps :: "float_text \<Rightarrow> json \<Rightarrow> string" where
  "dumps fr v = dumps_at fr None 0 v"

definition dumps_sorted :: "float_text \<Rightarrow> json \<Rightarrow> string" where
  "dumps_sorted fr v = dumps fr (json_sorted v)"

definition dumps_indent :: "float_text \<Rightarrow> json \<Rightarrow> string" where
  "dumps_indent fr v = dumps_at fr (Some 1) 0 v"

section \<open>Reading\<close>

definition is_ws :: "char \<Rightarrow> bool" where
  "is_ws c \<longleftrightarrow> c \<in> {CHR '' '', CHR 0x09, CHR 0x0A, CHR 0x0D}"

definition skip_ws :: "string \<Rightarrow> string" where
  "skip_ws s = dropWhile is_ws s"

definition hex_val :: "char \<Rightarrow> nat option" where
  "hex_val c =
     (if is_digit c then Some (digit_val c)
      else if CHR ''a'' \<le> c \<and> c \<le> CHR ''f'' then Some (of_char c - 87)
      else if CHR ''A'' \<le> c \<and> c \<le> CHR ''F'' then Some (of_char c - 55)
      else None)"

fun hex_digits :: "string \<Rightarrow> nat \<Rightarrow> nat option" where
  "hex_digits [] acc = Some acc"
| "hex_digits (c # cs) acc = (case hex_val c of None \<Rightarrow> None | Some d \<Rightarrow> hex_digits cs (16 * acc + d))"

definition unescape :: "char \<Rightarrow> char option" where
  "unescape c =
     (if c = CHR 0x22 \<or> c = CHR 0x5C \<or> c = CHR ''/'' then Some c
      else if c = CHR ''b'' then Some CHR 0x08
      else if c = CHR ''f'' then Some CHR 0x0C
      else if c = CHR ''n'' then Some CHR 0x0A
      else if c = CHR ''r'' then Some CHR 0x0D
      else if c = CHR ''t'' then Some CHR 0x09
      else None)"

definition push_char :: "char \<Rightarrow> exn + (string \<times> string) \<Rightarrow> exn + (string \<times> string)" where
  "push_char c x = (case x of Inl e \<Rightarrow> Inl e | Inr (t, r) \<Rightarrow> Inr (c # t, r))"

text \<open>The text after an opening quote: the string, and what follows the closing quote.\<close>

function scan_string :: "string \<Rightarrow> exn + (string \<times> string)" where
  "scan_string [] = Inl JSONDecodeError"
| "scan_string (c # cs) =
     (if c = CHR 0x22 then Inr ([], cs)
      else if c = CHR 0x5C then
        (if cs = [] then Inl JSONDecodeError
         else if hd cs = CHR ''u'' then
           (if length (tl cs) < 4 then Inl JSONDecodeError
            else case hex_digits (take 4 (tl cs)) 0 of
              None \<Rightarrow> Inl JSONDecodeError
            | Some n \<Rightarrow> if 256 \<le> n then Inl Beyond_Text else push_char (char_of n) (scan_string (drop 4 (tl cs))))
         else case unescape (hd cs) of
           None \<Rightarrow> Inl JSONDecodeError
         | Some x \<Rightarrow> push_char x (scan_string (tl cs)))
      else if c < CHR '' '' then Inl JSONDecodeError
      else push_char c (scan_string cs))"
  by pat_completeness auto
termination
  by (relation "measure length") auto

text \<open>The parts of a number, each as the text it takes off the front.\<close>

definition sign_text :: "string \<Rightarrow> string" where
  "sign_text s = (if take 1 s = ''-'' then ''-'' else [])"

definition int_text :: "string \<Rightarrow> string" where
  "int_text s = (if take 1 s = ''0'' then ''0'' else takeWhile is_digit s)"

definition frac_text :: "string \<Rightarrow> string" where
  "frac_text s =
     (if take 1 s = ''.'' \<and> takeWhile is_digit (drop 1 s) \<noteq> [] then CHR ''.'' # takeWhile is_digit (drop 1 s) else [])"

definition exp_sign :: "string \<Rightarrow> string" where
  "exp_sign s = (if take 1 s = ''-'' \<or> take 1 s = ''+'' then take 1 s else [])"

definition exp_text :: "string \<Rightarrow> string" where
  "exp_text s =
     (let sg = exp_sign (drop 1 s); ds = takeWhile is_digit (drop (length sg) (drop 1 s))
      in if (take 1 s = ''e'' \<or> take 1 s = ''E'') \<and> ds \<noteq> [] then take 1 s @ sg @ ds else [])"

text \<open>The match of \<open>NUMBER_RE\<close>: sign and integer part, fraction and exponent, and the rest.\<close>

definition number_text :: "string \<Rightarrow> (string \<times> string \<times> string) option" where
  "number_text s =
     (let sg = sign_text s; r = drop (length sg) s; ip = int_text r; r1 = drop (length ip) r;
          fp = frac_text r1; r2 = drop (length fp) r1; ep = exp_text r2
      in if ip = [] then None else Some (sg @ ip, fp @ ep, drop (length ep) r2))"

definition scan_number :: "rounding \<Rightarrow> string \<Rightarrow> (json \<times> string) option" where
  "scan_number rnd s =
     (case number_text s of
        None \<Rightarrow> None
      | Some (i, f, r) \<Rightarrow>
          if f = [] then map_option (\<lambda>x. (JInt x, r)) (parse_int i)
          else map_option (\<lambda>x. (JFloat x, r)) (parse_float rnd (i @ f)))"

definition scan_word :: "string \<Rightarrow> (string \<times> json) list \<Rightarrow> exn + (json \<times> string)" where
  "scan_word s ws =
     (case find (\<lambda>(w, v). starts_with w s) ws of
        None \<Rightarrow> Inl JSONDecodeError
      | Some (w, v) \<Rightarrow> Inr (v, drop (length w) s))"

definition scan_atom :: "rounding \<Rightarrow> string \<Rightarrow> exn + (json \<times> string)" where
  "scan_atom rnd s =
     (case scan_number rnd s of
        Some x \<Rightarrow> Inr x
      | None \<Rightarrow> scan_word s
          [(''null'', JNull), (''true'', JBool True), (''false'', JBool False), (''NaN'', JFloat NaN),
           (''Infinity'', JFloat PInf), (''-Infinity'', JFloat NInf)])"

fun scan_value :: "rounding \<Rightarrow> nat \<Rightarrow> string \<Rightarrow> exn + (json \<times> string)"
  and scan_items :: "rounding \<Rightarrow> nat \<Rightarrow> string \<Rightarrow> exn + (json list \<times> string)"
  and scan_members :: "rounding \<Rightarrow> nat \<Rightarrow> string \<Rightarrow> exn + (fields \<times> string)" where
  "scan_value rnd 0 s = Inl Diverged"
| "scan_value rnd (Suc n) s =
     (case s of
        [] \<Rightarrow> Inl JSONDecodeError
      | c # cs \<Rightarrow>
          if c = CHR 0x22 then
            (case scan_string cs of Inl e \<Rightarrow> Inl e | Inr (t, r) \<Rightarrow> Inr (JStr t, r))
          else if c = CHR ''{'' then
            (if take 1 (skip_ws cs) = ''}'' then Inr (JObj [], drop 1 (skip_ws cs))
             else case scan_members rnd n (skip_ws cs) of Inl e \<Rightarrow> Inl e | Inr (d, r) \<Rightarrow> Inr (JObj (dict_update [] d), r))
          else if c = CHR ''['' then
            (if take 1 (skip_ws cs) = '']'' then Inr (JArr [], drop 1 (skip_ws cs))
             else case scan_items rnd n (skip_ws cs) of Inl e \<Rightarrow> Inl e | Inr (xs, r) \<Rightarrow> Inr (JArr xs, r))
          else scan_atom rnd s)"
| "scan_items rnd 0 s = Inl Diverged"
| "scan_items rnd (Suc n) s =
     (case scan_value rnd n s of Inl e \<Rightarrow> Inl e | Inr (v, r) \<Rightarrow>
      if take 1 (skip_ws r) = '']'' then Inr ([v], drop 1 (skip_ws r))
      else if take 1 (skip_ws r) = '','' then
        (case scan_items rnd n (skip_ws (drop 1 (skip_ws r))) of Inl e \<Rightarrow> Inl e | Inr (vs, t) \<Rightarrow> Inr (v # vs, t))
      else Inl JSONDecodeError)"
| "scan_members rnd 0 s = Inl Diverged"
| "scan_members rnd (Suc n) s =
     (if take 1 s \<noteq> [CHR 0x22] then Inl JSONDecodeError
      else case scan_string (drop 1 s) of Inl e \<Rightarrow> Inl e | Inr (k, r) \<Rightarrow>
      if take 1 (skip_ws r) \<noteq> '':'' then Inl JSONDecodeError
      else case scan_value rnd n (skip_ws (drop 1 (skip_ws r))) of Inl e \<Rightarrow> Inl e | Inr (v, t) \<Rightarrow>
      if take 1 (skip_ws t) = ''}'' then Inr ([(k, v)], drop 1 (skip_ws t))
      else if take 1 (skip_ws t) = '','' then
        (case scan_members rnd n (skip_ws (drop 1 (skip_ws t))) of Inl e \<Rightarrow> Inl e | Inr (d, u) \<Rightarrow> Inr ((k, v) # d, u))
      else Inl JSONDecodeError)"

definition loads :: "rounding \<Rightarrow> string \<Rightarrow> exn + json" where
  "loads rnd s =
     (case scan_value rnd (2 * length s + 1) (skip_ws s) of Inl e \<Rightarrow> Inl e | Inr (v, r) \<Rightarrow>
      if skip_ws r = [] then Inr v else Inl JSONDecodeError)"


section \<open>The scanner always returns\<close>

lemma skip_ws_length: "length (skip_ws s) \<le> length s"
  by (simp add: skip_ws_def length_dropWhile_le)

lemma scan_string_length: "scan_string s = Inr (t, r) \<Longrightarrow> length r < length s"
proof (induction s arbitrary: t r rule: scan_string.induct)
  case (2 c cs)
  then show ?case
    by (fastforce simp: push_char_def split: if_splits option.splits sum.splits)
qed simp

lemma scan_string_converges: "scan_string s \<noteq> Inl Diverged"
  by (induction s rule: scan_string.induct) (auto simp: push_char_def split: option.splits sum.splits)

lemma int_text_drop: "int_text s \<noteq> [] \<Longrightarrow> length (drop (length (int_text s)) s) < length s"
  by (cases s) (auto simp: int_text_def)

lemma number_text_length:
  assumes "number_text s = Some (i, f, r)"
  shows "length r < length s"
proof -
  let ?r = "drop (length (sign_text s)) s"
  have "int_text ?r \<noteq> []" and r: "length r \<le> length (drop (length (int_text ?r)) ?r)"
    using assms by (auto simp: number_text_def Let_def split: if_splits)
  then have "length (drop (length (int_text ?r)) ?r) < length ?r" by (intro int_text_drop)
  moreover have "length ?r \<le> length s" by simp
  ultimately show ?thesis using r by linarith
qed

lemma scan_number_length: "scan_number rnd s = Some (v, r) \<Longrightarrow> length r < length s"
  by (auto simp: scan_number_def split: option.splits if_splits dest: number_text_length)

lemma scan_word_length:
  assumes "scan_word s ws = Inr (v, r)" and "\<forall>(w, x) \<in> set ws. w \<noteq> []"
  shows "length r < length s"
proof -
  from assms(1) obtain w where w: "(w, v) \<in> set ws" "starts_with w s" "r = drop (length w) s"
    by (auto simp: scan_word_def find_Some_iff split: option.splits) (metis nth_mem)
  with assms(2) have "w \<noteq> []" by auto
  with w show ?thesis by (auto simp: starts_with_def prefix_def)
qed

lemma scan_atom_length: "scan_atom rnd s = Inr (v, r) \<Longrightarrow> length r < length s"
  by (auto simp: scan_atom_def split: option.splits dest: scan_number_length scan_word_length)

lemma scan_atom_converges: "scan_atom rnd s \<noteq> Inl Diverged"
  by (auto simp: scan_atom_def scan_word_def split: option.splits)

lemma after_token: "take 1 (skip_ws s) = [c] \<Longrightarrow> length (drop 1 (skip_ws s)) < length s"
  using skip_ws_length [of s] by (cases "skip_ws s") auto

lemma scan_shorter:
  "(\<forall>s v r. scan_value rnd n s = Inr (v, r) \<longrightarrow> length r < length s) \<and>
   (\<forall>s vs r. scan_items rnd n s = Inr (vs, r) \<longrightarrow> length r < length s) \<and>
   (\<forall>s d r. scan_members rnd n s = Inr (d, r) \<longrightarrow> length r < length s)"
proof (induction n)
  case (Suc n)
  note len = skip_ws_length le_less_trans less_le_trans
  have v: "length r < length s" if "scan_value rnd (Suc n) s = Inr (v, r)" for s v r
  proof (cases s)
    case (Cons c cs)
    have "length r < length s" if "scan_members rnd n (skip_ws cs) = Inr (d, r)" for d
      using that Suc skip_ws_length [of cs] Cons by (fastforce dest: less_le_trans)
    moreover have "length r < length s" if "scan_items rnd n (skip_ws cs) = Inr (d, r)" for d
      using that Suc skip_ws_length [of cs] Cons by (fastforce dest: less_le_trans)
    moreover have "length (skip_ws cs) - 1 < length s"
      using skip_ws_length [of cs] Cons by simp
    ultimately show ?thesis
      using that Cons
      by (auto split: if_splits sum.splits dest: scan_string_length scan_atom_length)
  qed (use that in simp)
  have next_char: "length (skip_ws (drop 1 (skip_ws r))) < length s"
    if "length r < length s" for r s :: string
    using that skip_ws_length [of r] skip_ws_length [of "drop 1 (skip_ws r)"] by (simp only: length_drop)
  have here: "length (drop 1 (skip_ws r)) < length s" if "length r < length s" for r s :: string
    using that skip_ws_length [of r] by simp
  have i: "length r < length s" if run: "scan_items rnd (Suc n) s = Inr (vs, r)" for s vs r
  proof -
    from run obtain v t where t: "scan_value rnd n s = Inr (v, t)" and
      "r = drop 1 (skip_ws t) \<or> (\<exists>ws. scan_items rnd n (skip_ws (drop 1 (skip_ws t))) = Inr (ws, r))"
      by (auto split: if_splits sum.splits)
    then show ?thesis using Suc here [of t s] next_char [of t s] by (metis less_trans)
  qed
  have m: "length r < length s" if run: "scan_members rnd (Suc n) s = Inr (d, r)" for s d r
  proof -
    from run obtain k t v u where t: "scan_string (drop 1 s) = Inr (k, t)"
      and u: "scan_value rnd n (skip_ws (drop 1 (skip_ws t))) = Inr (v, u)"
      and r: "r = drop 1 (skip_ws u) \<or> (\<exists>e. scan_members rnd n (skip_ws (drop 1 (skip_ws u))) = Inr (e, r))"
      by (auto split: if_splits sum.splits)
    from scan_string_length [OF t] have "length t < length s" by simp
    then have "length (skip_ws (drop 1 (skip_ws t))) < length s" by (rule next_char)
    with u Suc have "length u < length s" by (metis less_trans)
    with r Suc here [of u s] next_char [of u s] show ?thesis by (metis less_trans)
  qed
  from v i m show ?case by blast
qed simp

lemmas scan_value_shorter = scan_shorter [THEN conjunct1, rule_format]
lemmas scan_items_shorter = scan_shorter [THEN conjunct2, THEN conjunct1, rule_format]
lemmas scan_members_shorter = scan_shorter [THEN conjunct2, THEN conjunct2, rule_format]

text \<open>More fuel than needed changes nothing, and twice the length of the text is enough.\<close>

lemma scan_more_fuel:
  "(\<forall>m s. n \<le> m \<and> scan_value rnd n s \<noteq> Inl Diverged \<longrightarrow> scan_value rnd m s = scan_value rnd n s) \<and>
   (\<forall>m s. n \<le> m \<and> scan_items rnd n s \<noteq> Inl Diverged \<longrightarrow> scan_items rnd m s = scan_items rnd n s) \<and>
   (\<forall>m s. n \<le> m \<and> scan_members rnd n s \<noteq> Inl Diverged \<longrightarrow> scan_members rnd m s = scan_members rnd n s)"
proof (induction n)
  case (Suc n)
  have step: "(\<forall>s. f (Suc n) s \<noteq> Inl Diverged \<longrightarrow> (\<forall>m. n \<le> m \<longrightarrow> f (Suc m) s = f (Suc n) s)) \<Longrightarrow>
      \<forall>m s. Suc n \<le> m \<and> f (Suc n) s \<noteq> Inl Diverged \<longrightarrow> f m s = f (Suc n) s"
    for f :: "nat \<Rightarrow> string \<Rightarrow> exn + 'x"
    by (metis Suc_le_D Suc_le_mono)
  show ?case
    by (intro conjI step) (use Suc in \<open>auto split: list.splits sum.splits if_splits\<close>)
qed simp

lemma scan_converges:
  "(\<forall>s. 2 * length s < n \<longrightarrow> scan_value rnd n s \<noteq> Inl Diverged) \<and>
   (\<forall>s. 2 * length s + 1 < n \<longrightarrow> scan_items rnd n s \<noteq> Inl Diverged) \<and>
   (\<forall>s. 2 * length s + 1 < n \<longrightarrow> scan_members rnd n s \<noteq> Inl Diverged)"
proof (induction n)
  case (Suc n)
  have v: "scan_value rnd (Suc n) s \<noteq> Inl Diverged" if small: "2 * length s < Suc n" for s
  proof (cases s)
    case (Cons c cs)
    have "2 * length (skip_ws cs) + 1 < n" using small Cons skip_ws_length [of cs] by simp
    then have "scan_items rnd n (skip_ws cs) \<noteq> Inl Diverged" "scan_members rnd n (skip_ws cs) \<noteq> Inl Diverged"
      using Suc by blast+
    then show ?thesis
      using Cons by (auto simp: scan_string_converges scan_atom_converges split: sum.splits)
  qed simp
  have rest: "2 * length (skip_ws (drop 1 (skip_ws r))) + 1 < n" if "length r < length s" "2 * length s + 1 < Suc n"
    for r s :: string
    using that skip_ws_length [of "drop 1 (skip_ws r)"] skip_ws_length [of r] by simp
  have i: "scan_items rnd (Suc n) s \<noteq> Inl Diverged" if small: "2 * length s + 1 < Suc n" for s
  proof -
    have "scan_value rnd n s \<noteq> Inl Diverged" using Suc small by simp
    moreover have "scan_items rnd n (skip_ws (drop 1 (skip_ws r))) \<noteq> Inl Diverged"
      if "scan_value rnd n s = Inr (v, r)" for v r
      using Suc rest [OF scan_value_shorter [OF that] small] by blast
    ultimately show ?thesis by (auto split: sum.splits)
  qed
  have m: "scan_members rnd (Suc n) s \<noteq> Inl Diverged" if small: "2 * length s + 1 < Suc n" for s
  proof -
    have v: "scan_value rnd n (skip_ws (drop 1 (skip_ws r))) \<noteq> Inl Diverged"
      and m: "\<And>v t. scan_value rnd n (skip_ws (drop 1 (skip_ws r))) = Inr (v, t) \<Longrightarrow>
        scan_members rnd n (skip_ws (drop 1 (skip_ws t))) \<noteq> Inl Diverged"
      if k: "scan_string (drop 1 s) = Inr (k, r)" for k r
    proof -
      have r: "length r < length s" using scan_string_length [OF k] by simp
      then show "scan_value rnd n (skip_ws (drop 1 (skip_ws r))) \<noteq> Inl Diverged"
        using Suc rest [OF r small] by simp
      show "scan_members rnd n (skip_ws (drop 1 (skip_ws t))) \<noteq> Inl Diverged"
        if "scan_value rnd n (skip_ws (drop 1 (skip_ws r))) = Inr (v, t)" for v t
      proof -
        have "length (skip_ws (drop 1 (skip_ws r))) \<le> length r"
          using skip_ws_length [of "drop 1 (skip_ws r)"] skip_ws_length [of r] by simp
        then have "length t < length s" using scan_value_shorter [OF that] r by linarith
        then show ?thesis using Suc rest [OF _ small, of t] by blast
      qed
    qed
    show ?thesis
      by (auto simp: scan_string_converges simp del: One_nat_def split: sum.splits dest: v m)
  qed
  from v i m show ?case by blast
qed simp

theorem loads_returns: "loads rnd s \<noteq> Inl Diverged"
proof -
  have "2 * length (skip_ws s) < 2 * length s + 1" using skip_ws_length [of s] by simp
  then have "scan_value rnd (2 * length s + 1) (skip_ws s) \<noteq> Inl Diverged"
    using scan_converges by blast
  then show ?thesis by (auto simp: loads_def split: sum.splits)
qed

declare scan_value.simps [simp del] scan_items.simps [simp del] scan_members.simps [simp del]

section \<open>Strings and numbers read back\<close>

lemma hex_char_facts: "d < 16 \<Longrightarrow> hex_val (hex_char d) = Some d"
proof -
  have "\<forall>d \<in> set [0..<16]. hex_val (hex_char d) = Some d" by code_simp
  then show "d < 16 \<Longrightarrow> hex_val (hex_char d) = Some d" by simp
qed

lemma scan_string_escape:
  "scan_string (json_escape c @ r) = push_char c (scan_string r)"
proof -
  have div: "of_char c div 16 < (16 :: nat)"
    by (rule less_mult_imp_div_less) simp
  have zero: "hex_val CHR ''0'' = Some 0" by (simp add: hex_val_def is_digit_def digit_val_def)
  have hex: "hex_digits [CHR ''0'', CHR ''0'', hex_char (of_char c div 16), hex_char (of_char c mod 16)] 0 =
      Some (of_char c)"
    using div by (simp add: hex_char_facts zero)
  have "char_of (of_char c :: nat) = c" "\<not> 256 \<le> (of_char c :: nat)"
    by (simp_all add: not_le)
  with hex show ?thesis
    by (simp add: json_escape_def unescape_def scan_string.simps del: hex_digits.simps)
qed

lemma scan_string_escapes:
  "scan_string (concat (map json_escape s) @ CHR 0x22 # r) = Inr (s, r)"
  by (induction s) (simp_all add: scan_string_escape push_char_def)

definition num_end :: "string \<Rightarrow> bool" where
  "num_end r \<longleftrightarrow> take 1 r \<in> {[], '','', '']'', ''}'', '' '', [CHR 0x09], [CHR 0x0A], [CHR 0x0D]}"

lemma num_end_Nil [simp]: "num_end []"
  by (simp add: num_end_def)

lemma num_end_Cons: "num_end (c # r) \<longleftrightarrow> c \<in> {CHR '','', CHR '']'', CHR ''}''} \<or> is_ws c"
  by (auto simp: num_end_def is_ws_def)

lemma digits_before_end: "num_end r \<Longrightarrow> takeWhile is_digit (t @ r) = takeWhile is_digit t"
  by (induction t; cases r) (auto simp: num_end_Cons is_ws_def is_digit_def)

lemma sign_text_end: "num_end r \<Longrightarrow> sign_text (t @ r) = sign_text t"
  by (cases t; cases r) (auto simp: sign_text_def num_end_Cons is_ws_def)

lemma int_text_end: "num_end r \<Longrightarrow> int_text (t @ r) = int_text t"
  using digits_before_end [of r t]
  by (cases t; cases r) (auto simp: int_text_def num_end_Cons is_ws_def)

lemma frac_text_end: "num_end r \<Longrightarrow> frac_text (t @ r) = frac_text t"
  using digits_before_end [of r "tl t"]
  by (cases t; cases r) (auto simp: frac_text_def num_end_Cons is_ws_def)

lemma exp_sign_end: "num_end r \<Longrightarrow> exp_sign (t @ r) = exp_sign t"
  by (cases t; cases r) (auto simp: exp_sign_def num_end_Cons is_ws_def)

lemma exp_text_end:
  assumes "num_end r"
  shows "exp_text (t @ r) = exp_text t"
proof (cases t)
  case Nil
  with assms show ?thesis by (cases r) (auto simp: exp_text_def num_end_Cons is_ws_def)
next
  case (Cons c u)
  have "length (exp_sign u) \<le> length u" by (auto simp: exp_sign_def)
  then show ?thesis
    using Cons digits_before_end [OF assms, of "drop (length (exp_sign u)) u"]
    by (simp add: exp_text_def exp_sign_end [OF assms] Let_def)
qed

lemma part_lengths:
  "length (sign_text s) \<le> length s" "length (int_text s) \<le> length s"
  "length (frac_text s) \<le> length s" "length (exp_text s) \<le> length s"
proof -
  show "length (sign_text s) \<le> length s" "length (int_text s) \<le> length s" "length (frac_text s) \<le> length s"
    by (cases s; simp add: sign_text_def int_text_def frac_text_def length_takeWhile_le)+
  have "length (exp_sign t) + length (takeWhile is_digit (drop (length (exp_sign t)) t)) \<le> length t" for t
    using length_takeWhile_le [of is_digit "drop (length (exp_sign t)) t"]
    by (cases t) (auto simp: exp_sign_def)
  then show "length (exp_text s) \<le> length s"
    by (cases s) (simp_all add: exp_text_def Let_def)
qed

lemma drop_parts:
  "drop (length (sign_text t)) (t @ r) = drop (length (sign_text t)) t @ r"
  "drop (length (int_text t)) (t @ r) = drop (length (int_text t)) t @ r"
  "drop (length (frac_text t)) (t @ r) = drop (length (frac_text t)) t @ r"
  "drop (length (exp_text t)) (t @ r) = drop (length (exp_text t)) t @ r"
  by (simp_all add: part_lengths)

lemma number_text_end:
  assumes "num_end r"
  shows "number_text (t @ r) = map_option (\<lambda>(i, f, u). (i, f, u @ r)) (number_text t)"
  by (simp add: number_text_def Let_def sign_text_end int_text_end frac_text_end exp_text_end assms drop_parts
      del: drop_append drop_drop)

lemma scan_number_end:
  assumes "num_end r" and "scan_number rnd t = Some (v, [])"
  shows "scan_number rnd (t @ r) = Some (v, r)"
  using assms by (auto simp: scan_number_def number_text_end split: option.splits if_splits)

text \<open>An integer is printed as its own number text.\<close>

lemma show_nat_first: "take 1 (show_nat n) = ''0'' \<longleftrightarrow> n = 0"
proof (induction n rule: show_nat.induct)
  case (1 n)
  have "\<forall>d \<in> set [0..<10]. digit_char d = CHR ''0'' \<longleftrightarrow> d = 0" by code_simp
  then have digit: "d < 10 \<Longrightarrow> digit_char d = CHR ''0'' \<longleftrightarrow> d = 0" for d by simp
  show ?case
  proof (cases "n < 10")
    case True
    then show ?thesis by (simp add: show_nat.simps [of n] digit)
  next
    case False
    then have "take 1 (show_nat n) = take 1 (show_nat (n div 10))"
      using show_nat_digits [of "n div 10"] by (simp add: show_nat.simps [of n]) (cases "show_nat (n div 10)"; simp)
    then show ?thesis using False 1 by simp
  qed
qed

lemma number_text_show_nat: "int_text (show_nat n) = show_nat n"
proof (cases "n = 0")
  case True
  have "int_text (show_nat 0) = show_nat 0" by code_simp
  with True show ?thesis by simp
next
  case False
  then show ?thesis
    using show_nat_first [of n] show_nat_digits [of n] by (simp add: int_text_def takeWhile_eq_all_conv list_all_iff)
qed

lemma number_text_show_int: "number_text (show_int i) = Some (show_int i, [], [])"
proof -
  have "sign_text (show_nat n) = []" for n
    using show_nat_digits [of n] by (cases "show_nat n") (auto simp: sign_text_def is_digit_def)
  then show ?thesis
    using show_nat_digits
    by (auto simp: number_text_def show_int_def Let_def number_text_show_nat sign_text_def frac_text_def
        exp_text_def number_text_show_nat split: if_splits)
qed

lemma scan_show_int: "scan_number rnd (show_int i) = Some (JInt i, [])"
  by (simp add: scan_number_def number_text_show_int parse_show_int)

lemma number_first:
  assumes "scan_number rnd s = Some x"
  obtains c cs where "s = c # cs" and "c = CHR ''-'' \<or> is_digit c"
proof (cases s)
  case Nil
  with assms show ?thesis by (simp add: scan_number_def number_text_def sign_text_def int_text_def)
next
  case (Cons c cs)
  have "c = CHR ''-'' \<or> is_digit c"
  proof (rule ccontr)
    assume n: "\<not> (c = CHR ''-'' \<or> is_digit c)"
    then have "c \<noteq> CHR ''0''" by (auto simp: is_digit_def)
    with n assms Cons show False
      by (simp add: scan_number_def number_text_def sign_text_def int_text_def)
  qed
  with Cons show ?thesis by (rule that)
qed

section \<open>What is dumped reads back\<close>

text \<open>
  Python promises of \<open>repr\<close> of a finite float that it reads back as that float. A value satisfies
  \<open>prints\<close> if its floats do and its objects have distinct keys, as every dictionary has.
\<close>

definition float_reads :: "rounding \<Rightarrow> float_text \<Rightarrow> pyfloat \<Rightarrow> bool" where
  "float_reads rnd fr f \<longleftrightarrow> f \<in> {NaN, PInf, NInf} \<or> scan_number rnd (fr f) = Some (JFloat f, [])"

fun prints :: "rounding \<Rightarrow> float_text \<Rightarrow> json \<Rightarrow> bool" where
  "prints rnd fr (JFloat f) = float_reads rnd fr f"
| "prints rnd fr (JArr xs) = list_all (prints rnd fr) xs"
| "prints rnd fr (JObj d) = (wf_dict d \<and> list_all (\<lambda>(k, v). prints rnd fr v) d)"
| "prints rnd fr v = True"

text \<open>Scanning with some fuel, and so with any more.\<close>

definition reads :: "rounding \<Rightarrow> string \<Rightarrow> json \<Rightarrow> string \<Rightarrow> bool" where
  "reads rnd s v r \<longleftrightarrow> (\<exists>n. \<forall>m \<ge> n. scan_value rnd m s = Inr (v, r))"

definition reads_items :: "rounding \<Rightarrow> string \<Rightarrow> json list \<Rightarrow> string \<Rightarrow> bool" where
  "reads_items rnd s vs r \<longleftrightarrow> (\<exists>n. \<forall>m \<ge> n. scan_items rnd m s = Inr (vs, r))"

definition reads_members :: "rounding \<Rightarrow> string \<Rightarrow> fields \<Rightarrow> string \<Rightarrow> bool" where
  "reads_members rnd s d r \<longleftrightarrow> (\<exists>n. \<forall>m \<ge> n. scan_members rnd m s = Inr (d, r))"

lemmas reads_defs = reads_def reads_items_def reads_members_def

lemma reads_loads:
  assumes "reads rnd (skip_ws s) v r" and "skip_ws r = []"
  shows "loads rnd s = Inr v"
proof -
  let ?n = "2 * length s + 1"
  from assms(1) obtain m where m: "\<forall>k \<ge> m. scan_value rnd k (skip_ws s) = Inr (v, r)" by (auto simp: reads_def)
  have "2 * length (skip_ws s) < ?n" using skip_ws_length [of s] by simp
  then have "scan_value rnd ?n (skip_ws s) \<noteq> Inl Diverged" using scan_converges by blast
  then have "scan_value rnd (max m ?n) (skip_ws s) = scan_value rnd ?n (skip_ws s)"
    using scan_more_fuel [of ?n rnd] by (metis max.cobounded2)
  with m have "scan_value rnd ?n (skip_ws s) = Inr (v, r)" by (metis max.cobounded1)
  with assms(2) show ?thesis unfolding loads_def by simp
qed

lemma reads_Suc: "(\<exists>n. \<forall>m \<ge> n. P (Suc m)) \<Longrightarrow> (\<exists>n. \<forall>m \<ge> n. P m)"
  by (metis Suc_le_D Suc_le_mono)

lemma reads_step:
  assumes "\<exists>n. \<forall>m \<ge> n. f m = Inr x" and "\<And>m. f m = Inr x \<Longrightarrow> g (Suc m) = y"
  shows "\<exists>n. \<forall>m \<ge> n. g m = y"
  using assms by (intro reads_Suc [of "\<lambda>m. g m = y"]) blast

lemma reads_two_steps:
  assumes "\<exists>n. \<forall>m \<ge> n. f m = Inr x" and "\<exists>n. \<forall>m \<ge> n. h m = Inr z"
    and "\<And>m. f m = Inr x \<Longrightarrow> h m = Inr z \<Longrightarrow> g (Suc m) = y"
  shows "\<exists>n. \<forall>m \<ge> n. g m = y"
proof -
  from assms(1,2) obtain n k where "\<forall>m \<ge> n. f m = Inr x" "\<forall>m \<ge> k. h m = Inr z" by blast
  then have "\<forall>m \<ge> max n k. g (Suc m) = y" using assms(3) by simp
  then show ?thesis by (intro reads_Suc [of "\<lambda>m. g m = y"]) blast
qed

text \<open>A value starts with no blank and no closing bracket.\<close>

lemma scan_atom_first:
  assumes run: "scan_atom rnd (c # cs) = Inr x"
  shows "\<not> is_ws c \<and> c \<notin> {CHR '']'', CHR ''}''}"
proof (rule ccontr)
  assume "\<not> ?thesis"
  then have c: "is_ws c \<or> c = CHR '']'' \<or> c = CHR ''}''" by auto
  then have "\<not> (c = CHR ''-'' \<or> is_digit c)" by (auto simp: is_ws_def is_digit_def)
  then have "scan_number rnd (c # cs) = None"
    using number_first [of rnd "c # cs"] by (metis list.inject not_Some_eq)
  then show False
    using run c by (auto simp: scan_atom_def scan_word_def starts_with_def is_ws_def)
qed

lemma reads_first:
  assumes "reads rnd s v r"
  obtains c cs where "s = c # cs" and "\<not> is_ws c" and "c \<notin> {CHR '']'', CHR ''}''}"
proof -
  from assms obtain n where run: "scan_value rnd (Suc n) s = Inr (v, r)"
    by (auto simp: reads_def) (metis le_Suc_eq order_refl)
  show ?thesis
  proof (cases s)
    case (Cons c cs)
    with run have "\<not> is_ws c \<and> c \<notin> {CHR '']'', CHR ''}''}"
      using scan_atom_first [of rnd c cs] by (auto simp: scan_value.simps is_ws_def split: if_splits)
    with Cons that show ?thesis by blast
  qed (use run in \<open>simp add: scan_value.simps\<close>)
qed

lemma reads_start: "reads rnd s v r \<Longrightarrow> take 1 s \<noteq> '']''"
  by (erule reads_first) simp

definition blank :: "string \<Rightarrow> bool" where
  "blank s \<longleftrightarrow> list_all is_ws s"

lemma skip_blank: "blank w \<Longrightarrow> \<not> is_ws c \<Longrightarrow> skip_ws (w @ c # s) = c # s"
  by (induction w) (auto simp: blank_def skip_ws_def)

lemma skip_blank_all: "blank w \<Longrightarrow> skip_ws w = []"
  by (induction w) (auto simp: blank_def skip_ws_def)

lemma blank_line_break [simp]: "blank (line_break ind n)"
  by (auto simp: blank_def line_break_def is_ws_def list_all_iff split: option.split)

lemma reads_skip: "reads rnd s v r \<Longrightarrow> blank w \<Longrightarrow> skip_ws (w @ s) = s"
  by (erule reads_first) (simp add: skip_blank)

lemma readsI: "(\<And>n. scan_value rnd (Suc n) s = Inr (v, r)) \<Longrightarrow> reads rnd s v r"
  unfolding reads_def by (rule reads_Suc) blast

lemma reads_string: "reads rnd (json_string t @ r) (JStr t) r"
  by (rule readsI) (simp add: scan_value.simps json_string_def scan_string_escapes)

lemma reads_number:
  assumes "scan_number rnd t = Some (v, [])" and "num_end r"
  shows "reads rnd (t @ r) v r"
proof -
  have n: "scan_number rnd (t @ r) = Some (v, r)" by (rule scan_number_end [OF assms(2,1)])
  then obtain c cs where c: "t @ r = c # cs" "c = CHR ''-'' \<or> is_digit c" by (rule number_first)
  then have "c \<noteq> CHR 0x22" "c \<noteq> CHR ''{''" "c \<noteq> CHR ''[''" by (auto simp: is_digit_def)
  with n c(1) show ?thesis by (intro readsI) (simp add: scan_value.simps scan_atom_def)
qed

lemma reads_word:
  "reads rnd (''null'' @ r) JNull r" "reads rnd (''true'' @ r) (JBool True) r"
  "reads rnd (''false'' @ r) (JBool False) r" "reads rnd (''NaN'' @ r) (JFloat NaN) r"
  "reads rnd (''Infinity'' @ r) (JFloat PInf) r" "reads rnd (''-Infinity'' @ r) (JFloat NInf) r"
  by (rule readsI, simp add: scan_value.simps scan_atom_def scan_word_def starts_with_def
      scan_number_def number_text_def sign_text_def int_text_def is_digit_def Let_def)+

lemma reads_empty: "reads rnd (''[]'' @ r) (JArr []) r" "reads rnd (''{}'' @ r) (JObj []) r"
  by (rule readsI, simp add: scan_value.simps skip_ws_def is_ws_def)+

lemma reads_array:
  assumes "reads_items rnd s vs r" and "skip_ws w = s" and "take 1 s \<noteq> '']''"
  shows "reads rnd (CHR ''['' # w) (JArr vs) r"
  unfolding reads_def
  by (rule reads_step [OF assms(1) [unfolded reads_items_def]])
    (use assms(2,3) in \<open>simp add: scan_value.simps\<close>)

lemma reads_object:
  assumes "reads_members rnd s d r" and "skip_ws w = s" and "take 1 s \<noteq> ''}''"
  shows "reads rnd (CHR ''{'' # w) (JObj (dict_update [] d)) r"
  unfolding reads_def
  by (rule reads_step [OF assms(1) [unfolded reads_members_def]])
    (use assms(2,3) in \<open>simp add: scan_value.simps\<close>)

lemma items_last:
  assumes "reads rnd s v r" and "skip_ws r = CHR '']'' # t"
  shows "reads_items rnd s [v] t"
  unfolding reads_items_def
  by (rule reads_step [OF assms(1) [unfolded reads_def]]) (use assms(2) in \<open>simp add: scan_items.simps\<close>)

lemma items_more:
  assumes "reads rnd s v r" and "skip_ws r = CHR '','' # t" and "reads_items rnd (skip_ws t) vs u"
  shows "reads_items rnd s (v # vs) u"
  unfolding reads_items_def
  by (rule reads_two_steps [OF assms(1) [unfolded reads_def] assms(3) [unfolded reads_items_def]])
    (use assms(2) in \<open>simp add: scan_items.simps\<close>)

lemma skip_after_colon: "reads rnd s v r \<Longrightarrow> skip_ws (CHR '' '' # s) = s"
  using reads_skip [of rnd s v r "'' ''"] by (simp add: blank_def is_ws_def)

lemma skip_colon: "skip_ws (CHR '':'' # s) = CHR '':'' # s"
  by (simp add: skip_ws_def is_ws_def)

lemmas member_scan = scan_members.simps json_string_def scan_string_escapes skip_colon

lemma members_last:
  assumes "reads rnd s v r" and "skip_ws r = CHR ''}'' # t"
  shows "reads_members rnd (json_string k @ '': '' @ s) [(k, v)] t"
  unfolding reads_members_def
  by (rule reads_step [OF assms(1) [unfolded reads_def]])
    (use assms(2) skip_after_colon [OF assms(1)] in \<open>simp add: member_scan\<close>)

lemma members_more:
  assumes "reads rnd s v r" and "skip_ws r = CHR '','' # t" and "reads_members rnd (skip_ws t) d u"
  shows "reads_members rnd (json_string k @ '': '' @ s) ((k, v) # d) u"
  unfolding reads_members_def
  by (rule reads_two_steps [OF assms(1) [unfolded reads_def] assms(3) [unfolded reads_members_def]])
    (use assms(2) skip_after_colon [OF assms(1)] in \<open>simp add: member_scan\<close>)

lemma skip_id: "skip_ws (c # s) = c # s" if "\<not> is_ws c"
  using that by (simp add: skip_ws_def)

lemma skip_sep: "reads rnd s v r \<Longrightarrow> skip_ws (tl (item_sep ind n) @ s) = s"
  by (rule reads_skip) (auto simp: item_sep_def blank_def is_ws_def line_break_def list_all_iff split: option.split)

lemma item_sep_comma: "item_sep ind n = CHR '','' # tl (item_sep ind n)"
  by (simp add: item_sep_def)

lemma num_end_blank: "blank w \<Longrightarrow> c = CHR '']'' \<or> c = CHR ''}'' \<Longrightarrow> num_end (w @ c # r)"
  by (cases w) (auto simp: blank_def num_end_Cons)

lemma num_end_comma: "num_end (CHR '','' # r)"
  by (simp add: num_end_Cons)

lemma join_Cons: "ws \<noteq> [] \<Longrightarrow> join sep (w # ws) = w @ sep @ join sep ws"
  by (cases ws) auto

lemma reads_items_join:
  assumes "\<And>x r. x \<in> set xs \<Longrightarrow> num_end r \<Longrightarrow> reads rnd (f x @ r) x r" and "blank w" and "xs \<noteq> []"
  shows "reads_items rnd (join (item_sep ind n) (map f xs) @ w @ CHR '']'' # r) xs r \<and>
    (\<exists>x t. reads rnd (join (item_sep ind n) (map f xs) @ w @ CHR '']'' # r) x t)"
  using assms(1,3)
proof (induction xs)
  case (Cons x xs)
  show ?case
  proof (cases "xs = []")
    case True
    have "reads rnd (f x @ w @ CHR '']'' # r) x (w @ CHR '']'' # r)"
      using Cons.prems(1) num_end_blank [OF assms(2)] by simp
    moreover have "skip_ws (w @ CHR '']'' # r) = CHR '']'' # r"
      by (rule skip_blank [OF assms(2)]) (simp add: is_ws_def)
    ultimately show ?thesis using True items_last by auto
  next
    case False
    let ?rest = "join (item_sep ind n) (map f xs) @ w @ CHR '']'' # r"
    have IH: "reads_items rnd ?rest xs r" "\<exists>x t. reads rnd ?rest x t"
      using Cons False by auto
    have "reads rnd (f x @ item_sep ind n @ ?rest) x (item_sep ind n @ ?rest)"
      using Cons.prems(1) num_end_comma by (simp add: item_sep_def)
    moreover have "skip_ws (item_sep ind n @ ?rest) = CHR '','' # tl (item_sep ind n) @ ?rest"
      by (simp add: item_sep_def skip_id is_ws_def)
    moreover have "reads_items rnd (skip_ws (tl (item_sep ind n) @ ?rest)) xs r"
      using IH skip_sep by metis
    ultimately show ?thesis
      using items_more False by (auto simp: join_Cons)
  qed
qed simp

lemma reads_members_join:
  assumes "\<And>k v r. (k, v) \<in> set d \<Longrightarrow> num_end r \<Longrightarrow> reads rnd (f v @ r) v r" and "blank w" and "d \<noteq> []"
  shows "reads_members rnd
    (join (item_sep ind n) (map (\<lambda>(k, v). json_string k @ '': '' @ f v) d) @ w @ CHR ''}'' # r) d r"
  using assms(1,3)
proof (induction d)
  case (Cons p d)
  obtain k v where p: "p = (k, v)" by (cases p)
  show ?case
  proof (cases "d = []")
    case True
    have "reads rnd (f v @ w @ CHR ''}'' # r) v (w @ CHR ''}'' # r)"
      by (intro Cons.prems(1) [of k v] num_end_blank [OF assms(2)]) (simp_all add: p)
    moreover have "skip_ws (w @ CHR ''}'' # r) = CHR ''}'' # r"
      by (rule skip_blank [OF assms(2)]) (simp add: is_ws_def)
    ultimately show ?thesis using True p members_last by auto
  next
    case False
    let ?rest = "join (item_sep ind n) (map (\<lambda>(k, v). json_string k @ '': '' @ f v) d) @ w @ CHR ''}'' # r"
    have IH: "reads_members rnd ?rest d r" using Cons False by auto
    have "\<exists>t. ?rest = CHR 0x22 # t"
      using False by (cases d) (auto simp: json_string_def join_Cons split: prod.split, case_tac list, auto)
    then have "skip_ws (tl (item_sep ind n) @ ?rest) = ?rest"
      using skip_blank [of "tl (item_sep ind n)" "CHR 0x22"]
      by (auto simp: item_sep_def blank_def is_ws_def line_break_def list_all_iff split: option.split)
    moreover have "reads rnd (f v @ item_sep ind n @ ?rest) v (item_sep ind n @ ?rest)"
      unfolding item_sep_def append_Cons by (intro Cons.prems(1) [of k v] num_end_comma) (simp add: p)
    moreover have "skip_ws (item_sep ind n @ ?rest) = CHR '','' # tl (item_sep ind n) @ ?rest"
      by (simp add: item_sep_def skip_id is_ws_def)
    ultimately show ?thesis
      using members_more [of rnd _ v _ _ d r k] IH False p by (simp add: join_Cons)
  qed
qed simp

lemma wf_dict_rebuild: "wf_dict d \<Longrightarrow> dict_update [] d = d"
proof -
  have "distinct (keys (a @ d)) \<Longrightarrow> foldl (\<lambda>x (k, v). dset k v x) a d = a @ d" for a
  proof (induction d arbitrary: a)
    case (Cons p d)
    have "k \<notin> set (keys a) \<Longrightarrow> dset k v a = a @ [(k, v)]" for k v
      by (induction a) (auto simp: keys_def)
    with Cons show ?case by (cases p) (auto simp: keys_def)
  qed simp
  from this [of "[]"] show "wf_dict d \<Longrightarrow> dict_update [] d = d"
    by (simp add: dict_update_def wf_dict_def)
qed

lemma reads_dumps: "prints rnd fr v \<Longrightarrow> num_end r \<Longrightarrow> reads rnd (dumps_at fr ind level v @ r) v r"
proof (induction v arbitrary: level r)
  case JNull
  then show ?case using reads_word by simp
next
  case (JBool b)
  then show ?case using reads_word by simp
next
  case (JInt i)
  then show ?case using reads_number [OF scan_show_int] by simp
next
  case (JFloat f)
  then show ?case
    using reads_word reads_number by (cases f) (auto simp: json_float_def float_reads_def)
next
  case (JStr s)
  then show ?case using reads_string by simp
next
  case (JArr xs)
  show ?case
  proof (cases "xs = []")
    case False
    let ?items = "join (item_sep ind (Suc level)) (map (dumps_at fr ind (Suc level)) xs) @
      line_break ind level @ CHR '']'' # r"
    have each: "reads rnd (dumps_at fr ind (Suc level) x @ r) x r" if "x \<in> set xs" "num_end r" for x r
      using JArr that by (auto simp: list_all_iff)
    obtain x t where items: "reads_items rnd ?items xs r" and first: "reads rnd ?items x t"
      using reads_items_join [of xs, OF each blank_line_break False] by blast
    from reads_skip [OF first] have "skip_ws (line_break ind (Suc level) @ ?items) = ?items" by simp
    moreover from first have "take 1 ?items \<noteq> '']''" by (rule reads_start)
    ultimately show ?thesis
      using reads_array [OF items] False by (simp add: bracketed_def)
  qed (use reads_empty in \<open>simp add: bracketed_def\<close>)
next
  case (JObj d)
  show ?case
  proof (cases "d = []")
    case False
    let ?items = "join (item_sep ind (Suc level))
      (map (\<lambda>(k, v). json_string k @ '': '' @ dumps_at fr ind (Suc level) v) d) @ line_break ind level @ CHR ''}'' # r"
    have each: "reads rnd (dumps_at fr ind (Suc level) v @ r) v r" if "(k, v) \<in> set d" "num_end r" for k v r
      using JObj that by (fastforce simp: list_all_iff)
    have "reads_members rnd ?items d r"
      using reads_members_join [of d, OF each _ False] by auto
    moreover obtain t where t: "?items = CHR 0x22 # t"
      using False by (cases d) (auto simp: json_string_def join_Cons split: prod.split, case_tac list, auto)
    have "skip_ws (line_break ind (Suc level) @ ?items) = ?items" "take 1 ?items \<noteq> ''}''"
      unfolding t using skip_blank [of "line_break ind (Suc level)" "CHR 0x22"] by (simp_all add: is_ws_def)
    ultimately show ?thesis
      using reads_object [of rnd ?items d r] False JObj.prems(1) by (simp add: bracketed_def wf_dict_rebuild)
  qed (use reads_empty in \<open>simp add: bracketed_def\<close>)
qed

lemma loads_dumps_at:
  assumes "prints rnd fr v"
  shows "loads rnd (dumps_at fr ind level v) = Inr v"
proof -
  have r: "reads rnd (dumps_at fr ind level v) v []"
    using reads_dumps [OF assms, of "[]"] by simp
  then show ?thesis
    using reads_skip [OF r, of "[]"] by (intro reads_loads [where r = "[]"]) (simp_all add: blank_def skip_ws_def)
qed

theorem loads_dumps: "prints rnd fr v \<Longrightarrow> loads rnd (dumps fr v) = Inr v"
  unfolding dumps_def by (rule loads_dumps_at)

theorem loads_dumps_indent: "prints rnd fr v \<Longrightarrow> loads rnd (dumps_indent fr v) = Inr v"
  unfolding dumps_indent_def by (rule loads_dumps_at)

lemma prints_sorted: "prints rnd fr v \<Longrightarrow> prints rnd fr (json_sorted v)"
proof (induction v)
  case (JObj d)
  have "wf_dict (sorted_fields d)" using JObj.prems by (simp add: wf_sorted_fields)
  then show ?case
    using JObj by (fastforce simp: sorted_fields_def list_all_iff)
qed (auto simp: list_all_iff)

theorem loads_dumps_sorted: "prints rnd fr v \<Longrightarrow> loads rnd (dumps_sorted fr v) = Inr (json_sorted v)"
  unfolding dumps_sorted_def by (rule loads_dumps [OF prints_sorted])

end
