(* ===== verification/Cli.thy ===== *)
theory Cli
  imports Json_Text Supervisor Operator Remote_Store
begin

text \<open>
  The command line (\<open>trimtab/cli.py\<close>): one definition per command, over the stores, adapters,
  canaries and daemons of the other theories. The world is the database a \<open>--db\<close> names, whatever
  answers at the engine urls, and what the process has written; a command ends by returning or by
  \<open>SystemExit\<close> with its status. The arguments of a command are those \<open>argparse\<close> has
  read, which the theory Arguments models. Gates that
  are no list of objects, which a store keeps and \<open>observe\<close> trips over, are a \<open>TypeError\<close> here.
\<close>

section \<open>The process\<close>

record 'e terminal = "(store, 'e) world" +
  out_text :: string
  err_text :: string

text \<open>What is outside: files, endpoints, the user, the scraper, the host and the clock.\<close>

record 'e cli_env =
  ce_rounding :: rounding
  ce_text :: gate_text
  ce_manifests :: "string \<Rightarrow> (string \<times> string) list"
  ce_endpoint :: "string \<Rightarrow> 'e http"
  ce_host :: "int \<Rightarrow> 'e host"
  ce_user :: string
  ce_server_token :: string
  ce_python :: string
  ce_now :: "('e, pyfloat) stmt"
  ce_fetch :: "string \<Rightarrow> ('e, string) stmt"
  ce_sleep :: "pyfloat \<Rightarrow> ('e, unit) stmt"
  ce_latency :: "apply_result \<Rightarrow> pyfloat"
  ce_fuel :: nat

abbreviation ce_repr :: "'e cli_env \<Rightarrow> float_text" where
  "ce_repr c \<equiv> gt_repr (ce_text c)"

definition put_line :: "string \<Rightarrow> ('e terminal, unit) stmt" where
  "put_line s w = (Inr (), w\<lparr>out_text := out_text w @ s @ [CHR 0x0A]\<rparr>)"

text \<open>\<open>sys.exit(message)\<close>: the message goes to the error output, the status is 1.\<close>

definition die :: "string \<Rightarrow> ('e terminal, 'a) stmt" where
  "die s w = (Inl (SystemExit 1), w\<lparr>err_text := err_text w @ s @ [CHR 0x0A]\<rparr>)"

definition exit_ok :: "bool \<Rightarrow> ('e terminal, unit) stmt" where
  "exit_ok ok = raise (SystemExit (if ok then 0 else 1))"

definition print_json :: "'e cli_env \<Rightarrow> json \<Rightarrow> ('e terminal, unit) stmt" where
  "print_json c v = put_line (dumps (ce_repr c) v)"

definition print_indented :: "'e cli_env \<Rightarrow> json \<Rightarrow> ('e terminal, unit) stmt" where
  "print_indented c v = put_line (dumps_indent (ce_repr c) v)"

section \<open>key=value\<close>

definition bad_item :: "string \<Rightarrow> string" where
  "bad_item it = ''expected key=value, got '' @ repr_str it"

text \<open>\<open>json.loads(v)\<close>, and the text itself where that is no JSON.\<close>

definition loads_or_text :: "rounding \<Rightarrow> string \<Rightarrow> exn + json" where
  "loads_or_text rnd v =
     (case loads rnd v of
        Inr x \<Rightarrow> Inr x
      | Inl e \<Rightarrow> (if e = JSONDecodeError then Inr (JStr v) else Inl e))"

fun parse_kv_from :: "rounding \<Rightarrow> string list \<Rightarrow> fields \<Rightarrow> ('e terminal, fields) stmt" where
  "parse_kv_from rnd [] out = ret out"
| "parse_kv_from rnd (it # its) out =
     (case partition CHR ''='' it of (k, has_eq, v) \<Rightarrow>
        if \<not> has_eq then die (bad_item it)
        else andthen (of_result (loads_or_text rnd v)) (\<lambda>x. parse_kv_from rnd its (dset k x out)))"

definition parse_kv :: "rounding \<Rightarrow> string list \<Rightarrow> ('e terminal, fields) stmt" where
  "parse_kv rnd items = parse_kv_from rnd items []"

section \<open>One engine, no store\<close>

definition cli_manifest :: "'e cli_env \<Rightarrow> string \<Rightarrow> exn + manifest" where
  "cli_manifest c engine = find_manifest (ce_rounding c) (ce_manifests c engine) engine"

definition cli_adapter :: "'e cli_env \<Rightarrow> string \<Rightarrow> string \<Rightarrow> exn + 'e adapter" where
  "cli_adapter c engine url = make_adapter (ce_endpoint c url) (ce_repr c) engine"

definition result_json :: "'e cli_env \<Rightarrow> apply_result \<Rightarrow> json" where
  "result_json c r =
     JObj [(''ok'', JBool (r_ok r)), (''applied'', JObj (r_applied r)), (''rejected'', JObj (r_rejected r)),
       (''latency_ms'', JFloat (ce_latency c r)), (''http_status'', JInt (r_http_status r))]"

definition reasons_json :: "string dict \<Rightarrow> json" where
  "reasons_json d = JObj [(''rejected_by_manifest'', JObj (map (\<lambda>(k, r). (k, JStr r)) d))]"

definition cmd_set :: "'e cli_env \<Rightarrow> string \<Rightarrow> string \<Rightarrow> string list \<Rightarrow> ('e terminal, unit) stmt" where
  "cmd_set c engine url kv =
     andthen (of_result (cli_manifest c engine)) (\<lambda>m.
     andthen (parse_kv (ce_rounding c) kv) (\<lambda>changes.
     case validate (ce_repr c) m changes of (accepted, rejected) \<Rightarrow>
     andthen (if rejected = [] then ret ()
              else andthen (print_indented c (reasons_json rejected)) (\<lambda>_.
                if accepted = [] then exit_ok False else ret ())) (\<lambda>_.
     andthen (of_result (cli_adapter c engine url)) (\<lambda>ad.
     andthen (on_engine (a_set_hot ad accepted)) (\<lambda>r.
     andthen (print_indented c (result_json c r)) (\<lambda>_.
     exit_ok (r_ok r)))))))"

definition cmd_get :: "'e cli_env \<Rightarrow> string \<Rightarrow> string \<Rightarrow> ('e terminal, unit) stmt" where
  "cmd_get c engine url =
     andthen (of_result (cli_adapter c engine url)) (\<lambda>ad.
     andthen (on_engine (a_read_knobs ad)) (\<lambda>d.
     print_indented c (JObj d)))"

section \<open>The versioned path\<close>

record db_args =
  d_db :: string
  d_token :: "string option"
  d_group :: string

definition cli_store :: "'e cli_env \<Rightarrow> db_args \<Rightarrow> exn + store store_api" where
  "cli_store c a = open_store (ce_rounding c) (ce_server_token c) (d_db a) (d_token a)"

definition cmd_propose :: "'e cli_env \<Rightarrow> db_args \<Rightarrow> string list \<Rightarrow> string \<Rightarrow> ('e terminal, unit) stmt" where
  "cmd_propose c a kv reason =
     andthen (of_result (cli_store c a)) (\<lambda>api.
     andthen (parse_kv (ce_rounding c) kv) (\<lambda>flds.
     andthen (on_store (api_propose api (d_group a) flds (ce_user c) reason)) (\<lambda>v.
     print_json c (JObj [(''version_id'', JInt (cv_id v)), (''parent_id'', opt_int (cv_parent v)),
       (''fields'', JObj (cv_fields v))]))))"

definition cmd_promote :: "'e cli_env \<Rightarrow> db_args \<Rightarrow> int \<Rightarrow> ('e terminal, unit) stmt" where
  "cmd_promote c a vid =
     andthen (of_result (cli_store c a)) (\<lambda>api.
     andthen (on_store (api_promote api (d_group a) vid)) (\<lambda>_.
     print_json c (JObj [(''group'', JStr (d_group a)), (''desired_version_id'', JInt vid)])))"

definition cmd_rollback :: "'e cli_env \<Rightarrow> db_args \<Rightarrow> int \<Rightarrow> ('e terminal, unit) stmt" where
  "cmd_rollback c a vid =
     andthen (of_result (cli_store c a)) (\<lambda>api.
     andthen (on_store (api_rollback api (d_group a) vid)) (\<lambda>_.
     print_json c (JObj [(''group'', JStr (d_group a)), (''desired_version_id'', JInt vid), (''rollback'', JBool True)])))"

text \<open>The formats \<open>:>4\<close>, \<open>:<10\<close> and \<open>:<30\<close>.\<close>

definition pad_left :: "nat \<Rightarrow> string \<Rightarrow> string" where
  "pad_left n s = replicate (n - length s) CHR '' '' @ s"

definition pad_right :: "nat \<Rightarrow> string \<Rightarrow> string" where
  "pad_right n s = s @ replicate (n - length s) CHR '' ''"

definition version_line :: "'e cli_env \<Rightarrow> config_version option \<Rightarrow> config_version \<Rightarrow> string" where
  "version_line c d v =
     (case d of None \<Rightarrow> '' '' | Some x \<Rightarrow> if cv_id v = cv_id x then ''*'' else '' '') @ '' '' @
     pad_left 4 (show_int (cv_id v)) @ ''  parent='' @
     pad_left 4 (case cv_parent v of None \<Rightarrow> ''None'' | Some p \<Rightarrow> show_int p) @ ''  '' @
     pad_right 10 (cv_created_by v) @ '' '' @ pad_right 30 (cv_reason v) @ '' '' @
     dumps (ce_repr c) (JObj (cv_fields v))"

definition cmd_versions :: "'e cli_env \<Rightarrow> db_args \<Rightarrow> ('e terminal, unit) stmt" where
  "cmd_versions c a =
     andthen (of_result (cli_store c a)) (\<lambda>api.
     andthen (on_store (api_desired api (d_group a))) (\<lambda>d.
     andthen (on_store (api_versions api (d_group a))) (\<lambda>vs.
     for_each (\<lambda>v. put_line (version_line c d v)) vs)))"

definition cmd_status :: "'e cli_env \<Rightarrow> db_args \<Rightarrow> ('e terminal, unit) stmt" where
  "cmd_status c a =
     andthen (of_result (cli_store c a)) (\<lambda>api.
     andthen (on_store (api_status api (d_group a))) (\<lambda>rows.
     print_indented c (JArr (map status_json rows))))"

section \<open>Canaries\<close>

record canary_args = db_args +
  k_engine :: string
  k_replicas :: string
  k_metrics :: "string list option"

text \<open>
  The scraper of this process has seen no page yet. A url that \<open>parse_kv\<close> has read as a JSON value
  other than a string is no url to \<open>urlopen\<close>.
\<close>

definition url_texts :: "fields \<Rightarrow> string dict" where
  "url_texts urls = concat (map (\<lambda>(r, v). case v of JStr u \<Rightarrow> [(r, u)] | _ \<Rightarrow> []) urls)"

definition cli_scraper :: "'e cli_env \<Rightarrow> fields \<Rightarrow> string \<Rightarrow> 'e scraper" where
  "cli_scraper c urls engine =
     \<lparr>sp_urls = url_texts urls, sp_map = (if engine = ''sglang'' then sglang_map else vllm_map),
      sp_fetch = ce_fetch c, sp_now = ce_now c, sp_rounding = ce_rounding c\<rparr>"

definition cli_sample :: "'e cli_env \<Rightarrow> fields \<Rightarrow> string \<Rightarrow> string \<Rightarrow> ('e scraper_state, metrics) stmt" where
  "cli_sample c urls engine r =
     (if map_of urls r \<noteq> None \<and> map_of (url_texts urls) r = None
      then andthen (on_world (ce_now c)) (\<lambda>_. raise AttributeError)
      else sample (cli_scraper c urls engine) r)"

definition with_scraper :: "((store, 'e scraper_state) world, 'a) stmt \<Rightarrow> ('e terminal, 'a) stmt" where
  "with_scraper m w =
     (case m \<lparr>w_store = w_store w, w_engine = \<lparr>ss_prev = [], ss_world = w_engine w\<rparr>\<rparr> of
        (r, v) \<Rightarrow> (r, w\<lparr>w_store := w_store v, w_engine := ss_world (w_engine v)\<rparr>))"

definition cli_canary ::
  "'e cli_env \<Rightarrow> canary_args \<Rightarrow> ('e terminal, (store, 'e scraper_state) canary_config) stmt" where
  "cli_canary c a =
     andthen (parse_kv (ce_rounding c) (case k_metrics a of None \<Rightarrow> [] | Some ms \<Rightarrow> ms)) (\<lambda>urls.
     andthen (of_result (cli_store c (db_args.truncate a))) (\<lambda>api.
     ret \<lparr>cc_api = api, cc_sample = cli_sample c urls (k_engine a),
          cc_sleep = (\<lambda>t. on_world (ce_sleep c t)), cc_group = d_group a, cc_all = split_on CHR '','' (k_replicas a),
          cc_rounding = ce_rounding c, cc_text = ce_text c\<rparr>))"

text \<open>The window is the float that was given, or the integer of the default.\<close>

definition cmd_canary_start ::
  "'e cli_env \<Rightarrow> canary_args \<Rightarrow> int \<Rightarrow> string \<Rightarrow> string \<Rightarrow> json \<Rightarrow> ('e terminal, unit) stmt" where
  "cmd_canary_start c a vid scope gates window =
     andthen (of_result (loads (ce_rounding c) gates)) (\<lambda>g.
     andthen (cli_canary c a) (\<lambda>can.
     andthen (of_result (as_list as_obj g)) (\<lambda>gs.
     andthen (of_result (float_of (ce_rounding c) window)) (\<lambda>w.
     andthen (with_scraper (start can vid (split_on CHR '','' scope) gs w)) (\<lambda>cid.
     print_json c (JObj [(''canary_id'', JInt cid), (''candidate_version_id'', JInt vid),
       (''scope'', JArr (map JStr (split_on CHR '','' scope))), (''window_s'', window)]))))))"

definition cmd_canary_observe :: "'e cli_env \<Rightarrow> canary_args \<Rightarrow> int \<Rightarrow> int \<Rightarrow> ('e terminal, unit) stmt" where
  "cmd_canary_observe c a cid samples =
     andthen (cli_canary c a) (\<lambda>can.
     andthen (with_scraper (observe can cid samples)) (\<lambda>(decision, findings).
     andthen (print_indented c (JObj [(''canary_id'', JInt cid), (''decision'', JStr decision),
       (''findings'', JArr (map JStr findings))])) (\<lambda>_.
     exit_ok (decision = ''promoted''))))"

definition cmd_canary_abort :: "'e cli_env \<Rightarrow> canary_args \<Rightarrow> int \<Rightarrow> ('e terminal, unit) stmt" where
  "cmd_canary_abort c a cid =
     andthen (cli_canary c a) (\<lambda>can.
     andthen (with_scraper (abort can cid ''aborted by operator'')) (\<lambda>_.
     print_json c (JObj [(''canary_id'', JInt cid), (''decision'', JStr ''reverted'')])))"

definition cmd_canary_show :: "'e cli_env \<Rightarrow> db_args \<Rightarrow> int \<Rightarrow> ('e terminal, unit) stmt" where
  "cmd_canary_show c a cid =
     andthen (of_result (cli_store c a)) (\<lambda>api.
     andthen (on_store (api_canary api cid)) (\<lambda>row.
     print_indented c (canary_json row)))"

section \<open>Daemons\<close>

record daemon_args = db_args +
  m_engine_name :: string
  m_url :: string
  m_replica :: string

definition cli_reconciler :: "'e cli_env \<Rightarrow> daemon_args \<Rightarrow> exn + (store, 'e) reconciler_config" where
  "cli_reconciler c a =
     (case cli_store c (db_args.truncate a) of Inl e \<Rightarrow> Inl e | Inr api \<Rightarrow>
      case cli_manifest c (m_engine_name a) of Inl e \<Rightarrow> Inl e | Inr m \<Rightarrow>
      case cli_adapter c (m_engine_name a) (m_url a) of Inl e \<Rightarrow> Inl e | Inr ad \<Rightarrow>
      Inr \<lparr>rc_api = api, rc_manifest = m, rc_adapter = ad, rc_replica = m_replica a, rc_group = d_group a,
           rc_text = ce_repr c\<rparr>)"

text \<open>A daemon of this process: its memory starts empty and ends with it.\<close>

definition with_reconciler :: "((store, 'e) reconciler, 'a) stmt \<Rightarrow> ('e terminal, 'a) stmt" where
  "with_reconciler m w =
     (case m (init_reconciler (w_store w) (w_engine w)) of
        (r, v) \<Rightarrow> (r, w\<lparr>w_store := w_store v, w_engine := w_engine v\<rparr>))"

text \<open>\<open>rounds\<close> is how many ticks the loop runs before the process is stopped.\<close>

definition cmd_daemon :: "'e cli_env \<Rightarrow> daemon_args \<Rightarrow> bool \<Rightarrow> nat \<Rightarrow> ('e terminal, unit) stmt" where
  "cmd_daemon c a once rounds =
     andthen (of_result (cli_reconciler c a)) (\<lambda>rec.
     if once then andthen (with_reconciler (tick rec)) put_line
     else andthen (with_reconciler (run_ticks rounds rec)) (\<lambda>_. ret ()))"

record supervise_args = db_args +
  u_engine :: string
  u_launcher :: "string option"
  u_model :: string
  u_port :: int
  u_replica :: string
  u_extra :: "string list option"
  u_drain :: pyfloat

definition local_url :: "int \<Rightarrow> string" where
  "local_url port = ''http://127.0.0.1:'' @ show_int port"

definition cli_supervisor :: "'e cli_env \<Rightarrow> supervise_args \<Rightarrow> exn + (store, 'e) supervisor_config" where
  "cli_supervisor c a =
     (case cli_store c (db_args.truncate a) of Inl e \<Rightarrow> Inl e | Inr api \<Rightarrow>
      case cli_manifest c (u_engine a) of Inl e \<Rightarrow> Inl e | Inr m \<Rightarrow>
      case cli_adapter c (u_engine a) (local_url (u_port a)) of Inl e \<Rightarrow> Inl e | Inr ad \<Rightarrow>
      Inr \<lparr>sc_api = api, sc_manifest = m, sc_adapter = ad, sc_host = ce_host c (u_port a),
           sc_launcher = (case u_launcher a of None \<Rightarrow> u_engine a | Some l \<Rightarrow> if l = [] then u_engine a else l),
           sc_adapter_engine = u_engine a, sc_model = u_model a, sc_port = u_port a, sc_replica = u_replica a,
           sc_group = d_group a, sc_extra = (case u_extra a of None \<Rightarrow> [] | Some xs \<Rightarrow> xs),
           sc_health_timeout = Fin 1800, sc_drain_s = u_drain a, sc_python = ce_python c,
           sc_rounding = ce_rounding c, sc_text = ce_repr c, sc_3f = gt_3f (ce_text c), sc_fuel = ce_fuel c\<rparr>)"

definition with_supervisor :: "((store, 'e) supervisor, 'a) stmt \<Rightarrow> ('e terminal, 'a) stmt" where
  "with_supervisor m w =
     (case m (init_supervisor (w_store w) (w_engine w)) of
        (r, v) \<Rightarrow> (r, w\<lparr>w_store := w_store v, w_engine := w_engine v\<rparr>))"

text \<open>With \<open>--once\<close> the tick's answer is printed before the engine is stopped.\<close>

definition cmd_supervise :: "'e cli_env \<Rightarrow> supervise_args \<Rightarrow> bool \<Rightarrow> nat \<Rightarrow> ('e terminal, unit) stmt" where
  "cmd_supervise c a once rounds =
     andthen (of_result (cli_supervisor c a)) (\<lambda>sup.
     if once then
       (\<lambda>w. case sup_tick sup (init_supervisor (w_store w) (w_engine w)) of
          (Inl e, v) \<Rightarrow> (Inl e, w\<lparr>w_store := w_store v, w_engine := w_engine v\<rparr>)
        | (Inr st, v) \<Rightarrow> andthen (put_line st) (\<lambda>_ w'.
            case stop sup v of (r, u) \<Rightarrow> (r, w'\<lparr>w_store := w_store u, w_engine := w_engine u\<rparr>)) w)
     else andthen (with_supervisor (sup_run rounds sup)) (\<lambda>_. ret ()))"

section \<open>The command\<close>

datatype command =
    Set string string "string list"
  | Get string string
  | Propose db_args "string list" string
  | Promote db_args int
  | Rollback db_args int
  | Versions db_args
  | Status db_args
  | Canary_Start canary_args int string string json
  | Canary_Observe canary_args int int
  | Canary_Abort canary_args int
  | Canary_Show db_args int
  | Daemon daemon_args bool nat
  | Supervise supervise_args bool nat

text \<open>\<open>a.f(a)\<close>.\<close>

fun run_command :: "'e cli_env \<Rightarrow> command \<Rightarrow> ('e terminal, unit) stmt" where
  "run_command c (Set engine url kv) = cmd_set c engine url kv"
| "run_command c (Get engine url) = cmd_get c engine url"
| "run_command c (Propose a kv reason) = cmd_propose c a kv reason"
| "run_command c (Promote a vid) = cmd_promote c a vid"
| "run_command c (Rollback a vid) = cmd_rollback c a vid"
| "run_command c (Versions a) = cmd_versions c a"
| "run_command c (Status a) = cmd_status c a"
| "run_command c (Canary_Start a vid scope gates window) = cmd_canary_start c a vid scope gates window"
| "run_command c (Canary_Observe a cid samples) = cmd_canary_observe c a cid samples"
| "run_command c (Canary_Abort a cid) = cmd_canary_abort c a cid"
| "run_command c (Canary_Show a cid) = cmd_canary_show c a cid"
| "run_command c (Daemon a once rounds) = cmd_daemon c a once rounds"
| "run_command c (Supervise a once rounds) = cmd_supervise c a once rounds"

text \<open>The exit status of the process: of \<open>SystemExit\<close> its own, of any other exception 1.\<close>

definition exit_status :: "exn + unit \<Rightarrow> int" where
  "exit_status r = (case r of Inr _ \<Rightarrow> 0 | Inl (SystemExit n) \<Rightarrow> n | Inl e \<Rightarrow> 1)"

end
