(* ===== verification/Cli_Facts.thy ===== *)
theory Cli_Facts
  imports Cli Daemons Canary_Facts
begin

text \<open>
  What the commands do, end to end: \<open>key=value\<close> arguments read back what they were written from, a
  direct \<open>set\<close> tells the truth by its exit status, propose, promote and one round of the daemon put
  a version in force, and the exit status of \<open>canary observe\<close> says whether the group has moved.
\<close>

section \<open>Arguments\<close>

definition kv_text :: "float_text \<Rightarrow> string \<times> json \<Rightarrow> string" where
  "kv_text fr p = fst p @ ''='' @ dumps fr (snd p)"

definition kv_fields :: "rounding \<Rightarrow> float_text \<Rightarrow> fields \<Rightarrow> bool" where
  "kv_fields rnd fr d \<longleftrightarrow> wf_dict d \<and> list_all (\<lambda>(k, v). CHR ''='' \<notin> set k \<and> prints rnd fr v) d"

lemma parse_kv_from_texts:
  assumes "list_all (\<lambda>(k, v). CHR ''='' \<notin> set k \<and> prints rnd fr v) d"
  shows "parse_kv_from rnd (map (kv_text fr) d) a w = (Inr (dict_update a d), w)"
  using assms
proof (induction d arbitrary: a)
  case Nil
  then show ?case by (simp add: dict_update_def)
next
  case (Cons p d)
  obtain k v where p: "p = (k, v)" by (cases p)
  have "partition CHR ''='' (k @ ''='' @ dumps fr v) = (k, True, dumps fr v)"
    using partition_clean [of "CHR ''=''" k "dumps fr v"] Cons.prems p by simp
  then show ?case
    using Cons p by (simp add: kv_text_def loads_or_text_def loads_dumps dict_update_def)
qed

lemma parse_kv_texts: "kv_fields rnd fr d \<Longrightarrow> parse_kv rnd (map (kv_text fr) d) w = (Inr d, w)"
  by (simp add: parse_kv_def kv_fields_def parse_kv_from_texts wf_dict_rebuild)

text \<open>
  C34. What is typed is what is meant. Fields written as \<open>key=\<close> and the JSON text of the value, one
  argument each, are read back by \<open>parse_kv\<close> as they were, whatever JSON values they hold and
  however often a value nests; keys are free of \<open>=\<close> and floats print as texts that read back.
\<close>

theorem key_values_read_back:
  assumes "wf_dict d" and "\<forall>(k, v) \<in> set d. CHR ''='' \<notin> set k \<and> prints rnd fr v"
  shows "parse_kv rnd (map (\<lambda>(k, v). k @ ''='' @ dumps fr v) d) w = (Inr d, w)"
proof -
  have spelt: "map (\<lambda>(k, v). k @ ''='' @ dumps fr v) d = map (kv_text fr) d"
    by (simp add: kv_text_def case_prod_beta)
  have "kv_fields rnd fr d" using assms by (simp add: kv_fields_def list_all_iff)
  then show ?thesis unfolding spelt by (rule parse_kv_texts)
qed

theorem key_values_read_back_witness:
  "\<forall>w :: mock terminal.
    parse_kv Fin [''n=-16'', ''xs=[1, true, null]'', ''k='' @ [CHR 0x22] @ ''a=b'' @ [CHR 0x22]] w =
    (Inr [(''n'', JInt (-16)), (''xs'', JArr [JInt 1, JBool True, JNull]), (''k'', JStr ''a=b'')], w)"
proof -
  let ?d = "[(''n'', JInt (-16)), (''xs'', JArr [JInt 1, JBool True, JNull]), (''k'', JStr ''a=b'')]"
  have "map (\<lambda>(k, v). k @ ''='' @ dumps (\<lambda>_. []) v) ?d =
      [''n=-16'', ''xs=[1, true, null]'', ''k='' @ [CHR 0x22] @ ''a=b'' @ [CHR 0x22]]"
    by code_simp
  then have "parse_kv Fin [''n=-16'', ''xs=[1, true, null]'', ''k='' @ [CHR 0x22] @ ''a=b'' @ [CHR 0x22]] w = (Inr ?d, w)"
    for w :: "mock terminal"
    using key_values_read_back [of ?d Fin "\<lambda>_. []" w] by (simp add: wf_dict_def keys_def)
  then show ?thesis by blast
qed

lemma exit_status_ok: "exit_status (Inl (SystemExit (if ok then 0 else 1))) = 0 \<longleftrightarrow> ok"
  by (simp add: exit_status_def)

lemma exit_ok_run [simp]: "exit_ok ok w = (Inl (SystemExit (if ok then 0 else 1)), w)"
  by (simp add: exit_ok_def)

lemma print_runs [simp]:
  "print_json c v w = (Inr (), w\<lparr>out_text := out_text w @ dumps (ce_repr c) v @ [CHR 0x0A]\<rparr>)"
  "print_indented c v w = (Inr (), w\<lparr>out_text := out_text w @ dumps_indent (ce_repr c) v @ [CHR 0x0A]\<rparr>)"
  by (simp_all add: print_json_def print_indented_def put_line_def)

section \<open>A direct set\<close>

lemma cli_adapter_sglang:
  "cli_adapter c ''sglang'' url = Inr (sglang_adapter (ce_endpoint c url) (ce_repr c))"
  by (simp add: cli_adapter_def make_adapter_def)

text \<open>A \<open>set\<close> whose arguments are read, by what the manifest and the engine make of them.\<close>

lemma cmd_set_run:
  assumes "cli_manifest c ''sglang'' = Inr m" and "kv_fields (ce_rounding c) (ce_repr c) d"
    and hot: "hot = filter (admissible m) d"
    and push: "a_set_hot (sglang_adapter (ce_endpoint c url) (ce_repr c)) hot (w_engine w) = (q, s)"
  obtains out where "hot = []" and "d \<noteq> []"
      and "cmd_set c ''sglang'' url (map (kv_text (ce_repr c)) d) w = (Inl (SystemExit 1), w\<lparr>out_text := out\<rparr>)"
  | out where "hot \<noteq> [] \<or> d = []"
      and "cmd_set c ''sglang'' url (map (kv_text (ce_repr c)) d) w =
        (case q of Inl e \<Rightarrow> Inl e | Inr r \<Rightarrow> Inl (SystemExit (if r_ok r then 0 else 1)),
         w\<lparr>out_text := out, w_engine := s\<rparr>)"
proof -
  have wf: "wf_dict d" using assms(2) by (simp add: kv_fields_def)
  have val: "validate (ce_repr c) m d = (hot, rejections (ce_repr c) m d)"
    using validate_eq [OF wf] hot by simp
  have none: "hot \<noteq> [] \<or> d = []" if "rejections (ce_repr c) m d = []"
    using that hot by (auto simp: rejections_empty_iff filter_empty_conv)
  have d: "d \<noteq> []" if "rejections (ce_repr c) m d \<noteq> []"
    using that by (auto simp: rejections_def)
  note run = cmd_set_def assms(1) parse_kv_texts [OF assms(2)] val cli_adapter_sglang on_engine_def push
  let ?p = "\<lambda>w. if rejections (ce_repr c) m d = [] then out_text w
    else out_text w @ dumps_indent (ce_repr c) (reasons_json (rejections (ce_repr c) m d)) @ [CHR 0x0A]"
  show ?thesis
  proof (cases "hot = [] \<and> d \<noteq> []")
    case True
    then show ?thesis
      using none by (intro that(1) [of "?p w"]) (auto simp: run)
  next
    case False
    then have pushed: "rejections (ce_repr c) m d = [] \<or> hot \<noteq> []" using d by blast
    show ?thesis
    proof (cases q)
      case (Inl e)
      then show ?thesis using False pushed by (intro that(2) [of "?p w"]) (auto simp: run)
    next
      case (Inr r)
      then show ?thesis
        using False pushed
        by (intro that(2) [of "?p w @ dumps_indent (ce_repr c) (result_json c r) @ [CHR 0x0A]"]) (auto simp: run)
    qed
  qed
qed


text \<open>A shell whose engine directory holds one small manifest and whose urls all reach the mock.\<close>

definition demo_yaml :: string where
  "demo_yaml = join [CHR 0x0A]
     [''engine: sglang'', ''engine_commit: c0adee9'', ''knobs:'', ''  - field: max_running_requests'',
      ''    klass: hot'']"

definition demo_host :: "mock host" where
  "demo_host =
     \<lparr>os_spawn = (\<lambda>_. ret ()), os_poll = ret None, os_terminate = ret (), os_wait = ret True, os_kill = ret (),
      os_reap = ret (), os_health = ret True, os_time = ret (Fin 0), os_sleep = (\<lambda>_. ret ())\<rparr>"

definition demo_shell :: "mock cli_env" where
  "demo_shell =
     \<lparr>ce_rounding = Fin, ce_text = \<lparr>gt_repr = demo_text, gt_4g = demo_text, gt_3f = demo_text\<rparr>,
      ce_manifests = (\<lambda>_. [(''m.yaml'', demo_yaml)]), ce_endpoint = (\<lambda>_. mock_http Fin demo_text),
      ce_host = (\<lambda>_. demo_host), ce_user = ''ops'', ce_server_token = ''t'', ce_python = ''python3'',
      ce_now = ret (Fin 0), ce_fetch = (\<lambda>_. ret []), ce_sleep = (\<lambda>_. ret ()),
      ce_latency = (\<lambda>_. Fin 1), ce_fuel = 1\<rparr>"

lemma demo_shell_sel [simp]:
  "ce_rounding demo_shell = Fin" "gt_repr (ce_text demo_shell) = demo_text"
  "ce_endpoint demo_shell url = mock_http Fin demo_text" "ce_user demo_shell = ''ops''"
  by (simp_all add: demo_shell_def)

definition demo_hot :: manifest where
  "demo_hot = make_manifest ''sglang'' ''c0adee9''
     [\<lparr>k_field = ''max_running_requests'', klass = ''hot'', vmin = None, vmax = None, max_source = None,
       vtype = ''int'', choices = []\<rparr>]"

lemma demo_shell_manifest: "cli_manifest demo_shell ''sglang'' = Inr demo_hot"
proof -
  have "find_manifest Fin [(''m.yaml'', demo_yaml)] ''sglang'' = Inr demo_hot"
    by code_simp
  then show ?thesis by (simp add: cli_manifest_def demo_shell_def)
qed

definition demo_terminal :: "store \<Rightarrow> mock terminal" where
  "demo_terminal s =
     \<lparr>w_store = s, w_engine = make_mock ''sglang'' 128 1024 8192 16384, out_text = [], err_text = []\<rparr>"

lemma demo_terminal_sel [simp]:
  "w_store (demo_terminal s) = s" "w_engine (demo_terminal s) = w_engine (Daemons.demo_world ''sglang'')"
  by (simp_all add: demo_terminal_def Daemons.demo_world_def init_reconciler_def)

lemma demo_hot_knobs: "knobs demo_hot = [(''max_running_requests'',
    \<lparr>k_field = ''max_running_requests'', klass = ''hot'', vmin = None, vmax = None, max_source = None,
     vtype = ''int'', choices = []\<rparr>)]"
  by (simp add: demo_hot_def make_manifest_def)

lemma demo_hot_plain: "plain_manifest demo_hot"
  by (simp add: plain_manifest_def demo_hot_knobs is_reinit_key_def starts_with_def)

lemma demo_kv_fields: "kv_fields Fin demo_text [(''max_running_requests'', JInt 16)]"
  by (simp add: kv_fields_def)


section \<open>Propose, promote, one round of the daemon\<close>

lemma cli_store_local: "\<not> is_remote_db (d_db a) \<Longrightarrow> cli_store c a = Inr local_store"
  by (simp add: cli_store_def open_store_def)

lemma promoted_target:
  assumes "wf_store s" and "v \<in> set (t_version s)" and "map_of (t_override s) r = None"
  shows "\<exists>s1. promote (cv_group v) (cv_id v) s = (Inr (), s1) \<and> wf_store s1 \<and>
    local_target s1 r (cv_group v) = Inr (Some v)"
proof -
  obtain s1 where "promote (cv_group v) (cv_id v) s = (Inr (), s1)" "wf_store s1"
      "desired (cv_group v) s1 = (Inr (Some v), s1)" "t_override s1 = t_override s"
    using promote_local [OF assms(1,2)] by blast
  with assms(3) show ?thesis by (intro exI [of _ s1]) (simp add: local_target_def desired_for_def)
qed

lemma run_ticks_one: "run_ticks (Suc 0) c w = (Inr [st], w') \<Longrightarrow> tick c w = (Inr st, w')"
  by (auto elim!: andthen_InrE)

lemma init_sel:
  "w_store (init_reconciler s e) = s" "w_engine (init_reconciler s e) = e"
  "applied_version_id (init_reconciler s e) = None" "replicate 0 x = []"
  by (simp_all add: init_reconciler_def)

text \<open>
  C36. The path of the README, typed as three commands. A user proposes fields for a group, promotes
  the version whose id was printed, and the daemon of a replica runs once: if the manifest holds
  back nothing but cold fields and the engine would store the rest as they are, every field the
  manifest admits is in force, no other knob has moved, and the daemon prints that it is healthy, or
  that a reinit is needed when cold fields are left.
\<close>

theorem versioned_flow:
  assumes "wf_store (w_store w)" and "sglang_ready (w_engine w)" and "map_of (t_override (w_store w)) r = None"
    and "\<not> is_remote_db (d_db a)" and "db_args.truncate da = a" and "m_engine_name da = ''sglang''" and "m_replica da = r"
    and "cli_manifest c ''sglang'' = Inr m" and "plain_manifest m"
    and "ce_endpoint c (m_url da) = mock_http (ce_rounding c) (ce_repr c)"
    and "kv_fields (ce_rounding c) (ce_repr c) d"
    and "only_cold (ce_repr c) m (sorted_fields d)"
    and "accepts_equal (ce_rounding c) (ce_repr c) (w_engine w) (filter (admissible m) (sorted_fields d))"
  shows "\<exists>w1 w2 w3 vid parent.
    cmd_propose c a (map (kv_text (ce_repr c)) d) why w = (Inr (), w1) \<and>
    out_text w1 = out_text w @ dumps (ce_repr c) (JObj [(''version_id'', JInt vid), (''parent_id'', parent),
      (''fields'', JObj (sorted_fields d))]) @ [CHR 0x0A] \<and>
    cmd_promote c a vid w1 = (Inr (), w2) \<and>
    cmd_daemon c da True n w2 = (Inr (), w3) \<and>
    out_text w3 = out_text w2 @ (if rejections (ce_repr c) m (sorted_fields d) = [] then HEALTHY else NEEDS_REINIT) @
      [CHR 0x0A] \<and>
    (\<forall>k x. (k, x) \<in> set (sorted_fields d) \<and> admissible m (k, x) \<longrightarrow>
      (\<exists>y. map_of (mk_knobs (w_engine w3)) k = Some y \<and> py_eq y x)) \<and>
    (\<forall>k. (\<forall>x. (k, x) \<in> set (sorted_fields d) \<longrightarrow> \<not> admissible m (k, x)) \<longrightarrow>
      map_of (mk_knobs (w_engine w3)) k = map_of (mk_knobs (w_engine w)) k)"
proof -
  let ?g = "d_group a" and ?ad = "sglang_adapter (mock_http (ce_rounding c) (ce_repr c)) (ce_repr c)"
  let ?d = "sorted_fields d"
  have api: "cli_store c a = Inr local_store" by (rule cli_store_local [OF assms(4)])
  have wf: "wf_dict ?d" using assms(11) by (simp add: kv_fields_def wf_sorted_fields)
  obtain v s1 where v: "propose ?g d (ce_user c) why (w_store w) = (Inr v, s1)" "wf_store s1"
      "v \<in> set (t_version s1)" "cv_group v = ?g" "cv_fields v = ?d" "t_override s1 = t_override (w_store w)"
    using propose_local [OF assms(1), of ?g d "ce_user c" why] by auto
  obtain s2 where s2: "promote ?g (cv_id v) s1 = (Inr (), s2)" "wf_store s2"
      "local_target s2 r ?g = Inr (Some v)"
    using promoted_target [OF v(2,3), of r] v(4,6) assms(3) by auto
  let ?c = "replica_on ?ad m r ?g (ce_repr c)"
  let ?w = "init_reconciler s2 (w_engine w)"
  have rec: "cli_reconciler c da = Inr ?c"
    using assms(5-8,10) api by (simp add: cli_reconciler_def cli_adapter_sglang replica_on_def)
      (metis db_args.select_convs(3) db_args.truncate_def)
  have hot: "hot_of ?c v = filter (admissible m) ?d" and bad: "bad_of ?c v = []"
    and cold: "cold_of ?c v = rejections (ce_repr c) m ?d"
    using assms(12) v(5) wf by (simp_all add: hot_of_replica bad_of_replica cold_of_replica)
  have push: "hot_changes (hot_of ?c v)" unfolding hot by (rule hot_changes_admissible [OF assms(9) wf])
  obtain w' where w': "tick ?c ?w = (Inr (if rejections (ce_repr c) m ?d = [] then HEALTHY else NEEDS_REINIT), w')"
    "\<forall>k x. map_of (hot_of ?c v) k = Some x \<longrightarrow> (\<exists>y. map_of (mk_knobs (w_engine w')) k = Some y \<and> py_eq y x)"
    "\<forall>k. map_of (hot_of ?c v) k = None \<longrightarrow> map_of (mk_knobs (w_engine w')) k = map_of (mk_knobs (w_engine w)) k"
  proof -
    have ready: "wf_store (w_store ?w)" "sglang_ready (w_engine ?w)"
      "local_target (w_store ?w) (rc_replica ?c) (rc_group ?c) = Inr (Some v)"
      "applied_version_id ?w \<noteq> Some (cv_id v)" "accepts_equal (ce_rounding c) (ce_repr c) (w_engine ?w) (hot_of ?c v)"
      using assms(2,13) s2(2,3) by (simp_all add: init_sel hot)
    obtain w' where w': "run_ticks (Suc 0) ?c ?w = (Inr [if cold_of ?c v = [] then HEALTHY else NEEDS_REINIT], w')"
      "\<forall>k x. map_of (hot_of ?c v) k = Some x \<longrightarrow> (\<exists>y. map_of (mk_knobs (w_engine w')) k = Some y \<and> equal_value k x y)"
      "\<forall>k. map_of (hot_of ?c v) k = None \<longrightarrow> map_of (mk_knobs (w_engine w')) k = map_of (mk_knobs (w_engine w)) k"
      using sglang_daemon.converges [OF wired_replica replica_on_sel(3) ready(1,2) push ready(3,4) bad ready(5), of 0]
      unfolding init_sel by blast
    then show ?thesis
      using that run_ticks_one [OF w'(1)] unfolding cold equal_value_def by blast
  qed
  let ?w1 = "w\<lparr>w_store := s1, out_text := out_text w @ dumps (ce_repr c) (JObj [(''version_id'', JInt (cv_id v)),
      (''parent_id'', opt_int (cv_parent v)), (''fields'', JObj ?d)]) @ [CHR 0x0A]\<rparr>"
  have p: "cmd_propose c a (map (kv_text (ce_repr c)) d) why w = (Inr (), ?w1)"
    using v(1,5) by (simp add: cmd_propose_def api parse_kv_texts [OF assms(11)] on_store_def local_store_def)
  let ?w2 = "?w1\<lparr>w_store := s2, out_text := out_text ?w1 @ dumps (ce_repr c) (JObj [(''group'', JStr ?g),
      (''desired_version_id'', JInt (cv_id v))]) @ [CHR 0x0A]\<rparr>"
  have q: "cmd_promote c a (cv_id v) ?w1 = (Inr (), ?w2)"
    using s2(1) by (simp add: cmd_promote_def api on_store_def local_store_def)
  let ?st = "if rejections (ce_repr c) m ?d = [] then HEALTHY else NEEDS_REINIT"
  let ?w3 = "?w2\<lparr>w_store := w_store w', w_engine := w_engine w', out_text := out_text ?w2 @ ?st @ [CHR 0x0A]\<rparr>"
  have t: "cmd_daemon c da True n ?w2 = (Inr (), ?w3)"
    using w'(1) by (simp add: cmd_daemon_def rec with_reconciler_def put_line_def)
  have mem: "(k, x) \<in> set ?d \<longleftrightarrow> map_of ?d k = Some x" for k x
    using map_of_wf [OF wf] map_of_SomeD by metis
  have lookup: "map_of (hot_of ?c v) k = Some x \<longleftrightarrow> map_of ?d k = Some x \<and> admissible m (k, x)"
    "map_of (hot_of ?c v) k = None \<longleftrightarrow> (\<forall>x. map_of ?d k = Some x \<longrightarrow> \<not> admissible m (k, x))" for k x
    using wf by (auto simp: hot map_of_filter_admissible split: option.split)
  have force: "\<forall>k x. (k, x) \<in> set ?d \<and> admissible m (k, x) \<longrightarrow>
      (\<exists>y. map_of (mk_knobs (w_engine ?w3)) k = Some y \<and> py_eq y x)"
    and frame: "\<forall>k. (\<forall>x. (k, x) \<in> set ?d \<longrightarrow> \<not> admissible m (k, x)) \<longrightarrow>
      map_of (mk_knobs (w_engine ?w3)) k = map_of (mk_knobs (w_engine w)) k"
    using w'(2,3) by (simp_all add: mem lookup)
  show ?thesis
    by (rule exI [of _ ?w1], rule exI [of _ ?w2], rule exI [of _ ?w3], rule exI [of _ "cv_id v"],
        rule exI [of _ "opt_int (cv_parent v)"], intro conjI)
      (use p q t force frame in \<open>simp_all only:\<close>, simp_all)
qed

definition demo_db :: db_args where
  "demo_db = \<lparr>d_db = ''t.db'', d_token = None, d_group = ''g''\<rparr>"

definition demo_daemon_args :: daemon_args where
  "demo_daemon_args =
     \<lparr>d_db = ''t.db'', d_token = None, d_group = ''g'', m_engine_name = ''sglang'', m_url = ''http://r0'',
      m_replica = ''r0''\<rparr>"

theorem versioned_flow_witness:
  "\<exists>w1 w2 w3 vid y. cmd_propose demo_shell demo_db [''max_running_requests=16''] ''lower cap''
      (demo_terminal demo_store) = (Inr (), w1) \<and>
    cmd_promote demo_shell demo_db vid w1 = (Inr (), w2) \<and>
    cmd_daemon demo_shell demo_daemon_args True 1 w2 = (Inr (), w3) \<and>
    map_of (mk_knobs (w_engine w3)) ''max_running_requests'' = Some y \<and> py_eq y (JInt 16)"
proof -
  let ?d = "[(''max_running_requests'', JInt 16)]" and ?w = "demo_terminal demo_store"
  have spelt: "map (kv_text demo_text) ?d = [''max_running_requests=16'']" by code_simp
  have sorted: "sorted_fields ?d = ?d" by (simp add: sorted_fields_def)
  have adm: "admissible demo_hot (''max_running_requests'', JInt 16)"
    by (simp add: admissible_def demo_hot_knobs admits_def COLD_def WARM_def DEFERRED_def)
  have cold: "only_cold demo_text demo_hot ?d" by (simp add: only_cold_def rejections_def adm)
  have acc: "accepts_equal Fin demo_text (w_engine ?w) (filter (admissible demo_hot) ?d)"
    by (simp add: accepts_equal_def adm Daemons.demo_world_def init_reconciler_def make_mock_def boot_knobs_def
        apply_value_def str_choices_def is_num_def ceiling_names_def Let_def)
  have wf: "wf_store (w_store ?w)" "map_of (t_override (w_store ?w)) ''r0'' = None"
    using wf_reachable [OF reachable_demo] by (simp_all add: demo_store_def demo_proposed_def empty_store_def)
  have args: "\<not> is_remote_db (d_db demo_db)" "db_args.truncate demo_daemon_args = demo_db"
    "m_engine_name demo_daemon_args = ''sglang''" "m_replica demo_daemon_args = ''r0''"
    by (simp_all add: demo_db_def demo_daemon_args_def db_args.truncate_def is_remote_db_def starts_with_def)
  have ready: "sglang_ready (w_engine ?w)" using demo_sglang_ready by simp
  note flow = versioned_flow [OF wf(1) ready wf(2) args demo_shell_manifest demo_hot_plain, of ?d "''lower cap''" 1]
  show ?thesis
    using flow demo_kv_fields cold acc adm unfolding demo_shell_sel sorted spelt by auto
qed

section \<open>The status of an observation\<close>

definition keeps_store :: "(('s, 'e, 'z) world_scheme, 'a) stmt \<Rightarrow> bool" where
  "keeps_store m \<longleftrightarrow> (\<forall>w. w_store (snd (m w)) = w_store w)"

lemma keeps_store_andthen: "keeps_store m \<Longrightarrow> (\<And>x. keeps_store (f x)) \<Longrightarrow> keeps_store (andthen m f)"
  by (auto simp: keeps_store_def andthen_def split: prod.split sum.split) (metis snd_conv)+

lemma keeps_store_base: "keeps_store (ret x)" "keeps_store (on_engine m)"
  by (simp_all add: keeps_store_def on_engine_def split: prod.split)

lemma keeps_store_map: "(\<And>x. keeps_store (f x)) \<Longrightarrow> keeps_store (map_stmt f xs)"
  by (induction xs) (simp_all add: keeps_store_andthen keeps_store_base)

lemma keeps_store_window: "keeps_store (sample_window cf sc ba gap n cs bs)"
proof (induction n arbitrary: cs bs)
  case (Suc n)
  then show ?case
    by (auto simp: sample_round_def intro!: keeps_store_andthen keeps_store_map keeps_store_base)
qed (simp add: keeps_store_base)

text \<open>A decision that returns on the local store: what it says, and what it did.\<close>

lemma promote_Inr:
  assumes "promote g i s = (Inr (), t)"
  shows "t_version t = t_version s \<and> t_desired t = dset g (i, now_of s) (t_desired s) \<and> t_override t = t_override s"
  by (rule promote_cases [of s i g]) (use assms in auto)

lemma local_sel:
  "api_canary local_store = canary" "api_promote local_store = promote"
  "api_clear_overrides local_store = clear_overrides" "api_close_canary local_store = close_canary"
  by (simp_all add: local_store_def)

lemma decide_returns:
  assumes "cc_api cf = local_store" and "decide cf cid cm bm w = (Inr (dec, fs), w')"
  shows "\<exists>row. canary cid (w_store w) = (Inr row, w_store w) \<and> (dec = PASS \<or> dec = FAIL) \<and>
    (\<forall>g. fst (desired g (w_store w')) = (if dec = PASS \<and> g = cc_group cf
      then found (fst (version (c_candidate row) (w_store w))) else fst (desired g (w_store w)))) \<and>
    t_override (w_store w') = filter (\<lambda>(r, (v, c)). c \<noteq> cid) (t_override (w_store w))"
proof -
  let ?s = "w_store w" and ?t = "snd (clear_overrides cid (w_store w))"
  obtain row w1 where 1: "on_store (canary cid) w = (Inr row, w1)" and rest:
    "andthen (of_result (evaluate (cc_rounding cf) (cc_text cf) (c_gates row) cm bm)) (\<lambda>(passed, findings).
     andthen (on_store (clear_overrides cid)) (\<lambda>_.
     andthen (if passed then on_store (promote (cc_group cf) (c_candidate row)) else ret ()) (\<lambda>_.
     andthen (on_store (close_canary cid (if passed then PASS else FAIL) (join [CHR 0x0A] findings))) (\<lambda>_.
     ret (if passed then PASS else FAIL, findings))))) w1 = (Inr (dec, fs), w')"
    using assms(2) unfolding decide_def assms(1) local_sel by (rule andthen_InrE)
  have row: "canary cid ?s = (Inr row, ?s)" and w1: "w1 = w"
    using 1 canary_Inr [of cid ?s row] by (auto simp: on_store_def split: prod.splits)
  from rest obtain passed fs' where r1: "andthen (on_store (clear_overrides cid)) (\<lambda>_.
     andthen (if passed then on_store (promote (cc_group cf) (c_candidate row)) else ret ()) (\<lambda>_.
     andthen (on_store (close_canary cid (if passed then PASS else FAIL) (join [CHR 0x0A] fs'))) (\<lambda>_.
     ret (if passed then PASS else FAIL, fs')))) w = (Inr (dec, fs), w')"
    unfolding w1 by (rule andthen_InrE) (auto split: prod.splits)
  then obtain x2 w2 where w2: "on_store (clear_overrides cid) w = (Inr x2, w2)" and r2:
    "andthen (if passed then on_store (promote (cc_group cf) (c_candidate row)) else ret ()) (\<lambda>_.
     andthen (on_store (close_canary cid (if passed then PASS else FAIL) (join [CHR 0x0A] fs'))) (\<lambda>_.
     ret (if passed then PASS else FAIL, fs'))) w2 = (Inr (dec, fs), w')"
    by (rule andthen_InrE)
  from r2 obtain x3 w3 where w3: "(if passed then on_store (promote (cc_group cf) (c_candidate row)) else ret ()) w2 = (Inr x3, w3)"
    and r3: "andthen (on_store (close_canary cid (if passed then PASS else FAIL) (join [CHR 0x0A] fs'))) (\<lambda>_.
     ret (if passed then PASS else FAIL, fs')) w3 = (Inr (dec, fs), w')"
    by (rule andthen_InrE)
  let ?u = "w_store w3"
  have t2: "w_store w2 = ?t" using w2 by (auto simp: on_store_def split: prod.splits)
  have dec: "dec = (if passed then PASS else FAIL)"
    and w': "w_store w' = snd (close_canary cid dec (join [CHR 0x0A] fs) ?u)"
    using r3 by (auto simp: on_store_def close_canary_run)
  have moved: "if passed then promote (cc_group cf) (c_candidate row) ?t = (Inr (), ?u) else ?u = ?t"
    using w3 t2 by (auto simp: on_store_def split: prod.splits)
  have t: "t_version ?t = t_version ?s" "t_desired ?t = t_desired ?s"
    "t_override ?t = filter (\<lambda>(r, (v, c)). c \<noteq> cid) (t_override ?s)"
    by (simp_all add: clear_overrides_def)
  have u: "t_version ?u = t_version ?s" "t_override ?u = t_override ?t"
    "passed \<Longrightarrow> t_desired ?u = dset (cc_group cf) (c_candidate row, now_of ?t) (t_desired ?s)"
    "\<not> passed \<Longrightarrow> t_desired ?u = t_desired ?s"
    using moved promote_Inr [of "cc_group cf" "c_candidate row" ?t ?u] t by (cases passed; simp)+
  have v: "t_version (w_store w') = t_version ?s" "t_desired (w_store w') = t_desired ?u"
    "t_override (w_store w') = t_override ?t"
    using u(1,2) by (simp_all add: w' close_canary_tables)
  have "fst (desired g (w_store w')) = (if passed \<and> g = cc_group cf
      then found (fst (version (c_candidate row) ?s)) else fst (desired g ?s))" for g
    using desired_moved [OF v(1), of "cc_group cf" "c_candidate row" "now_of ?t" g] desired_same [OF v(1), of g] v(2) u(3,4)
    by (cases passed) simp_all
  moreover have "dec = PASS \<longleftrightarrow> passed" by (simp add: dec PASS_def FAIL_def)
  ultimately show ?thesis using row dec v(3) t(3) by auto
qed

lemma observe_returns:
  assumes "cc_api cf = local_store" and "observe cf cid n w = (Inr (dec, fs), w')"
  shows "\<exists>row. canary cid (w_store w) = (Inr row, w_store w) \<and> c_status row = ''observing'' \<and> (dec = PASS \<or> dec = FAIL) \<and>
    (\<forall>g. fst (desired g (w_store w')) = (if dec = PASS \<and> g = cc_group cf
      then found (fst (version (c_candidate row) (w_store w))) else fst (desired g (w_store w)))) \<and>
    t_override (w_store w') = filter (\<lambda>(r, (v, c)). c \<noteq> cid) (t_override (w_store w))"
proof -
  let ?k = "\<lambda>c. let scope = remdups (c_scope c); base = filter (\<lambda>r. r \<notin> set scope) (cc_all cf) in
       andthen (of_result (f_div (cc_rounding cf) (c_window_s c) (Fin (of_int (max n 1))))) (\<lambda>gap.
       andthen (sample_window cf scope base gap (nat n) [] []) (\<lambda>(cs, bs).
       decide cf cid (mean (cc_rounding cf) cs) (mean (cc_rounding cf) bs)))"
  obtain row w1 where "on_store (canary cid) w = (Inr row, w1)"
    and rest: "(if c_status row \<noteq> ''observing'' then raise (already cid (c_status row)) else ?k row) w1 = (Inr (dec, fs), w')"
    using assms(2) unfolding observe_def assms(1) local_sel by (rule andthen_InrE)
  then have w1: "w1 = w" and row: "canary cid (w_store w) = (Inr row, w_store w)"
    using canary_Inr [of cid "w_store w" row] by (auto simp: on_store_def split: prod.splits)
  have st: "c_status row = ''observing''" and "?k row w = (Inr (dec, fs), w')"
    using rest unfolding w1 by (auto split: if_splits)
  then obtain gap sc ba cs bs w2 where win: "sample_window cf sc ba gap (nat n) [] [] w = (Inr (cs, bs), w2)"
    and dec: "decide cf cid (mean (cc_rounding cf) cs) (mean (cc_rounding cf) bs) w2 = (Inr (dec, fs), w')"
    unfolding Let_def by (elim andthen_InrE) (auto split: prod.splits)
  have "w_store w2 = w_store w"
    using keeps_store_window [of cf sc ba gap "nat n" "[]" "[]"] win by (metis keeps_store_def snd_conv)
  with decide_returns [OF assms(1) dec] row st show ?thesis by auto
qed

lemma keeps_store_parse: "keeps_store (parse_kv rnd items)"
proof -
  have "keeps_store (parse_kv_from rnd items out)" for out :: fields
  proof (induction items arbitrary: out)
    case (Cons it its)
    then show ?case
      by (auto simp: keeps_store_def die_def andthen_def split: prod.split sum.split)
  qed (simp add: keeps_store_def)
  then show ?thesis by (simp add: parse_kv_def)
qed

lemma cli_canary_local:
  assumes "\<not> is_remote_db (d_db a)" and "cli_canary c a w = (Inr cf, w1)"
  shows "cc_api cf = local_store \<and> cc_group cf = d_group a \<and> w_store w1 = w_store w"
proof -
  obtain urls where "parse_kv (ce_rounding c) (case k_metrics a of None \<Rightarrow> [] | Some ms \<Rightarrow> ms) w = (Inr urls, w1)"
    and "cc_api cf = local_store" "cc_group cf = d_group a"
    using assms by (auto simp: cli_canary_def cli_store_def open_store_def db_args.truncate_def elim!: andthen_InrE)
  then show ?thesis using keeps_store_parse by (metis keeps_store_def snd_conv)
qed

definition decision_text :: "'e cli_env \<Rightarrow> int \<Rightarrow> string \<Rightarrow> string list \<Rightarrow> string" where
  "decision_text c cid dec fs = dumps_indent (ce_repr c) (JObj [(''canary_id'', JInt cid), (''decision'', JStr dec),
     (''findings'', JArr (map JStr fs))])"

text \<open>
  C37. The exit status of \<open>canary observe\<close> says whether the group has moved. When the observation of a
  canary on a local database returns, the command prints the decision and exits; the status is 0
  exactly when the group now runs the candidate, and otherwise 1 and every group runs what it ran;
  either way no replica is held by the canary any more, and it had not been decided before.
\<close>

theorem observe_exit_status:
  assumes "\<not> is_remote_db (d_db a)" and "cli_canary c a w = (Inr cf, w1)"
    and "with_scraper (observe cf cid n) w1 = (Inr (dec, fs), w2)"
  shows "\<exists>row ok. cmd_canary_observe c a cid n w =
      (Inl (SystemExit (if ok then 0 else 1)), w2\<lparr>out_text := out_text w2 @ decision_text c cid dec fs @ [CHR 0x0A]\<rparr>) \<and>
    canary cid (w_store w) = (Inr row, w_store w) \<and> c_status row = ''observing'' \<and>
    (\<forall>g. fst (desired g (w_store w2)) = (if ok \<and> g = d_group a
      then found (fst (version (c_candidate row) (w_store w))) else fst (desired g (w_store w)))) \<and>
    t_override (w_store w2) = filter (\<lambda>(r, (v, k)). k \<noteq> cid) (t_override (w_store w))"
proof -
  note cf = cli_canary_local [OF assms(1,2)]
  obtain v where obs: "observe cf cid n \<lparr>w_store = w_store w1, w_engine = \<lparr>ss_prev = [], ss_world = w_engine w1\<rparr>\<rparr> =
      (Inr (dec, fs), v)" and w2: "w_store w2 = w_store v"
    using assms(3) by (auto simp: with_scraper_def split: prod.splits)
  have cmd: "cmd_canary_observe c a cid n w = (Inl (SystemExit (if dec = ''promoted'' then 0 else 1)),
      w2\<lparr>out_text := out_text w2 @ decision_text c cid dec fs @ [CHR 0x0A]\<rparr>)"
    using assms(2,3) by (simp add: cmd_canary_observe_def decision_text_def)
  from observe_returns [OF conjunct1 [OF cf] obs]
  obtain row where "canary cid (w_store w) = (Inr row, w_store w)" "c_status row = ''observing''"
    "dec = PASS \<or> dec = FAIL" "\<forall>g. fst (desired g (w_store v)) = (if dec = PASS \<and> g = cc_group cf
      then found (fst (version (c_candidate row) (w_store w))) else fst (desired g (w_store w)))"
    "t_override (w_store v) = filter (\<lambda>(r, (v, c)). c \<noteq> cid) (t_override (w_store w))"
    using cf by auto
  then show ?thesis
    using cmd cf unfolding w2 by (intro exI [of _ row] exI [of _ "dec = ''promoted''"]) (simp add: PASS_def)
qed

definition demo_observed :: "mock terminal" where
  "demo_observed = demo_terminal (w_store demo_observing)"

definition demo_canary_args :: canary_args where
  "demo_canary_args =
     \<lparr>d_db = ''t.db'', d_token = None, d_group = ''g'', k_engine = ''sglang'', k_replicas = ''r0,r1'', k_metrics = None\<rparr>"

theorem observe_exit_status_witness:
  "\<exists>w'. cmd_canary_observe demo_shell demo_canary_args 1 0 demo_observed = (Inl (SystemExit 1), w') \<and>
    (\<forall>g. fst (desired g (w_store w')) = fst (desired g (w_store demo_observed)))"
proof -
  let ?run = "case cli_canary demo_shell demo_canary_args demo_observed of
      (Inl e, w) \<Rightarrow> Inl e | (Inr cf, w) \<Rightarrow> fst (with_scraper (observe cf 1 0) w)"
  have "(case ?run of Inl e \<Rightarrow> False | Inr p \<Rightarrow> fst p = ''reverted'')" by code_simp
  then obtain cf w1 fs w2 where cf: "cli_canary demo_shell demo_canary_args demo_observed = (Inr cf, w1)"
    and obs: "with_scraper (observe cf 1 0) w1 = (Inr (''reverted'', fs), w2)"
    by (auto split: prod.splits sum.splits) (metis prod.collapse)
  have local: "\<not> is_remote_db (d_db demo_canary_args)"
    by (simp add: demo_canary_args_def is_remote_db_def starts_with_def)
  obtain row :: canary_row and ok where st: "cmd_canary_observe demo_shell demo_canary_args 1 0 demo_observed =
      (Inl (SystemExit (if ok then 0 else 1)), w2\<lparr>out_text := out_text w2 @ decision_text demo_shell 1 ''reverted'' fs @ [CHR 0x0A]\<rparr>)"
    and des: "\<forall>g. fst (desired g (w_store w2)) = (if ok \<and> g = d_group demo_canary_args
      then found (fst (version (c_candidate row) (w_store demo_observed))) else fst (desired g (w_store demo_observed)))"
    using observe_exit_status [OF local cf obs] by blast
  have "fst (cmd_canary_observe demo_shell demo_canary_args 1 0 demo_observed) = Inl (SystemExit 1)"
    using cf obs by (simp add: cmd_canary_observe_def)
  then have "\<not> ok" using st by (auto split: if_splits)
  then show ?thesis using st des by (intro exI) auto
qed

end
