(* ===== verification/Arguments.thy ===== *)
theory Arguments
  imports Cli
begin

text \<open>
  The command line of \<open>main\<close> (\<open>trimtab/cli.py\<close>): what \<open>argparse\<close> makes of the arguments with the
  declarations of the file, and the command it then calls. The reader below is that of the standard
  library for what the file uses of it: a tree of subcommands, options by name, by \<open>--name=value\<close> and
  by a prefix that only one option has, at most one positional, and values that are texts, integers,
  floats, lists or flags. Usage and help texts are not modelled; an error is \<open>SystemExit 2\<close> and a
  request for help \<open>SystemExit 0\<close>. A bare \<open>--\<close>, which versions of Python read differently, and letters
  joined to \<open>-h\<close> are \<open>Beyond_Text\<close>.
\<close>

section \<open>Declarations\<close>

datatype kind = Text | Whole | Real

datatype count = One | Some_Of | Any_Of | Flag | Append

datatype argval = Unset | Given string | Number int | Float pyfloat | Switch bool | Texts "string list"

record declared =
  dc_name :: string
  dc_count :: count
  dc_kind :: kind
  dc_choices :: "string list option"
  dc_required :: bool
  dc_default :: argval

type_synonym namespace = "argval dict"

record reader =
  rd_options :: "declared list"
  rd_positional :: "declared option"

definition option_named :: "string \<Rightarrow> declared" where
  "option_named n =
     \<lparr>dc_name = n, dc_count = One, dc_kind = Text, dc_choices = None, dc_required = False, dc_default = Unset\<rparr>"

definition required_option :: "string \<Rightarrow> declared" where
  "required_option n = (option_named n)\<lparr>dc_required := True\<rparr>"

definition positional :: "string \<Rightarrow> count \<Rightarrow> kind \<Rightarrow> declared" where
  "positional n k t = (required_option n)\<lparr>dc_count := k, dc_kind := t\<rparr>"

section \<open>Reading\<close>

definition usage_error :: exn where
  "usage_error = SystemExit 2"

datatype token = Value string | Option declared "string option" | Help bool | Unknown

text \<open>\<open>-5\<close> and \<open>-.5\<close>: a negative number is a value, since no option looks like one.\<close>

definition digits :: "string \<Rightarrow> bool" where
  "digits s \<longleftrightarrow> s \<noteq> [] \<and> list_all (\<lambda>c. c \<in> set ''0123456789'') s"

definition negative_number :: "string \<Rightarrow> bool" where
  "negative_number s \<longleftrightarrow>
     (case s of [] \<Rightarrow> False
      | c # r \<Rightarrow> c = CHR ''-'' \<and>
          (digits r \<or> (case partition CHR ''.'' r of (a, dot, b) \<Rightarrow> dot \<and> (a = [] \<or> digits a) \<and> digits b)))"

definition option_names :: "declared list \<Rightarrow> string list" where
  "option_names os = ''--help'' # map dc_name os"

definition find_option :: "declared list \<Rightarrow> string \<Rightarrow> declared option" where
  "find_option os n = find (\<lambda>d. dc_name d = n) os"

text \<open>An option under one of its names, with what follows an equals sign, which help does not take.\<close>

definition named_token :: "declared list \<Rightarrow> string \<Rightarrow> string option \<Rightarrow> token" where
  "named_token os n explicit =
     (case find_option os n of Some d \<Rightarrow> Option d explicit | None \<Rightarrow> Help (explicit = None))"

definition classify :: "declared list \<Rightarrow> string \<Rightarrow> exn + token" where
  "classify os s =
     (if s = [] \<or> hd s \<noteq> CHR ''-'' \<or> s = ''-'' then Inr (Value s)
      else if s = ''--'' then Inl Beyond_Text
      else if s \<in> set (option_names os) then Inr (named_token os s None)
      else if s = ''-h'' then Inr (Help True)
      else if starts_with ''-h'' s then Inl Beyond_Text
      else
        (let (n, eq, e) = partition CHR ''='' s; explicit = (if eq then Some e else None)
         in if n \<in> set (option_names os) then Inr (named_token os n explicit)
            else case filter (starts_with n) (if starts_with ''--'' s then option_names os else []) of
               [m] \<Rightarrow> Inr (named_token os m explicit)
             | m # m' # ms \<Rightarrow> Inl usage_error
             | [] \<Rightarrow> Inr (if negative_number s \<or> CHR '' '' \<in> set s then Value s else Unknown)))"

fun classify_all :: "declared list \<Rightarrow> string list \<Rightarrow> exn + token list" where
  "classify_all os [] = Inr []"
| "classify_all os (s # ss) =
     rbind (classify os s) (\<lambda>t. rbind (classify_all os ss) (\<lambda>ts. Inr (t # ts)))"

text \<open>The type of an option, then its choices.\<close>

definition convert :: "rounding \<Rightarrow> declared \<Rightarrow> string \<Rightarrow> exn + argval" where
  "convert rnd d s =
     (case dc_kind d of
        Text \<Rightarrow>
          (case dc_choices d of
             None \<Rightarrow> Inr (Given s)
           | Some cs \<Rightarrow> if s \<in> set cs then Inr (Given s) else Inl usage_error)
      | Whole \<Rightarrow> (case parse_int s of None \<Rightarrow> Inl usage_error | Some i \<Rightarrow> Inr (Number i))
      | Real \<Rightarrow> (case parse_float rnd s of None \<Rightarrow> Inl usage_error | Some x \<Rightarrow> Inr (Float x)))"

fun leading :: "token list \<Rightarrow> string list" where
  "leading (Value s # ts) = s # leading ts"
| "leading _ = []"

definition appended :: "argval \<Rightarrow> string \<Rightarrow> argval" where
  "appended v s = (case v of Texts xs \<Rightarrow> Texts (xs @ [s]) | _ \<Rightarrow> Texts [s])"

definition held_value :: "string \<Rightarrow> namespace \<Rightarrow> argval" where
  "held_value n ns = (case map_of ns n of None \<Rightarrow> Unset | Some v \<Rightarrow> v)"

text \<open>
  An option takes what stands behind its equals sign or the values that follow it: the new namespace
  and how many of the following tokens were taken.
\<close>

definition take_option ::
  "rounding \<Rightarrow> declared \<Rightarrow> string option \<Rightarrow> token list \<Rightarrow> namespace \<Rightarrow> exn + namespace \<times> nat" where
  "take_option rnd d explicit ts ns =
     (let n = dc_name d;
          vals = (case explicit of Some e \<Rightarrow> [e] | None \<Rightarrow> leading ts);
          used = (\<lambda>k. if explicit = None then k else 0)
      in case dc_count d of
           Flag \<Rightarrow> if explicit = None then Inr (dset n (Switch True) ns, 0) else Inl usage_error
         | Any_Of \<Rightarrow> Inr (dset n (Texts vals) ns, used (length vals))
         | Some_Of \<Rightarrow> if vals = [] then Inl usage_error else Inr (dset n (Texts vals) ns, used (length vals))
         | Append \<Rightarrow>
             (case vals of [] \<Rightarrow> Inl usage_error
              | v # vs \<Rightarrow> Inr (dset n (appended (held_value n ns) v) ns, used 1))
         | One \<Rightarrow>
             (case vals of [] \<Rightarrow> Inl usage_error
              | v # vs \<Rightarrow> rbind (convert rnd d v) (\<lambda>x. Inr (dset n x ns, used 1))))"

definition take_positional ::
  "rounding \<Rightarrow> declared \<Rightarrow> token list \<Rightarrow> namespace \<Rightarrow> exn + namespace \<times> nat" where
  "take_positional rnd d ts ns =
     (case leading ts of
        [] \<Rightarrow> Inl usage_error
      | v # vs \<Rightarrow>
          if dc_count d = Some_Of then Inr (dset (dc_name d) (Texts (v # vs)) ns, length (v # vs))
          else rbind (convert rnd d v) (\<lambda>x. Inr (dset (dc_name d) x ns, 1)))"

text \<open>
  The tokens from left to right. A value that no option takes goes to the positional, once; any other
  and every unknown option is left over, which is an error at the end.
\<close>

function read_tokens ::
  "rounding \<Rightarrow> declared option \<Rightarrow> token list \<Rightarrow> namespace \<Rightarrow> bool \<Rightarrow> exn + namespace \<times> declared option \<times> bool" where
  "read_tokens rnd pos [] ns extra = Inr (ns, pos, extra)"
| "read_tokens rnd pos (Help alone # ts) ns extra = Inl (if alone then SystemExit 0 else usage_error)"
| "read_tokens rnd pos (Unknown # ts) ns extra = read_tokens rnd pos ts ns True"
| "read_tokens rnd pos (Option d e # ts) ns extra =
     (case take_option rnd d e ts ns of Inl x \<Rightarrow> Inl x
      | Inr (ns', k) \<Rightarrow> read_tokens rnd pos (drop k ts) ns' extra)"
| "read_tokens rnd pos (Value s # ts) ns extra =
     (case pos of
        None \<Rightarrow> read_tokens rnd None ts ns True
      | Some d \<Rightarrow>
          (case take_positional rnd d (Value s # ts) ns of Inl x \<Rightarrow> Inl x
           | Inr (ns', k) \<Rightarrow> read_tokens rnd None (drop (k - 1) ts) ns' extra))"
  by pat_completeness auto
termination
  by (relation "measure (\<lambda>(rnd, pos, ts, ns, extra). length ts)") auto

definition defaults :: "declared list \<Rightarrow> namespace" where
  "defaults os = map (\<lambda>d. (dc_name d, dc_default d)) (filter (\<lambda>d. \<not> dc_required d) os)"

text \<open>What is required and has not been given is an error, and so is what was left over.\<close>

definition read_args :: "rounding \<Rightarrow> reader \<Rightarrow> string list \<Rightarrow> exn + namespace" where
  "read_args rnd rd args =
     rbind (classify_all (rd_options rd) args) (\<lambda>ts.
     rbind (read_tokens rnd (rd_positional rd) ts (defaults (rd_options rd)) False) (\<lambda>(ns, pos, extra).
     if pos \<noteq> None \<or> list_ex (\<lambda>d. dc_required d \<and> map_of ns (dc_name d) = None) (rd_options rd) \<or> extra
     then Inl usage_error else Inr ns))"

section \<open>The subcommands\<close>

definition engine_option :: "string list \<Rightarrow> declared" where
  "engine_option engines = (required_option ''--engine'')\<lparr>dc_choices := Some (sort engines)\<rparr>"

definition eng_options :: "string list \<Rightarrow> declared list" where
  "eng_options engines = [engine_option engines, required_option ''--url'']"

text \<open>The token defaults to that of the process environment.\<close>

definition db_options :: "argval \<Rightarrow> declared list" where
  "db_options token = [required_option ''--db'', (option_named ''--token'')\<lparr>dc_default := token\<rparr>, required_option ''--group'']"

definition float_option :: "string \<Rightarrow> argval \<Rightarrow> declared" where
  "float_option n x = (option_named n)\<lparr>dc_kind := Real, dc_default := x\<rparr>"

definition once_option :: declared where
  "once_option = (option_named ''--once'')\<lparr>dc_count := Flag, dc_default := Switch False\<rparr>"

definition canary_options :: "argval \<Rightarrow> string list \<Rightarrow> declared list" where
  "canary_options token engines =
     db_options token @ [engine_option engines, required_option ''--replicas'', (option_named ''--metrics'')\<lparr>dc_count := Any_Of\<rparr>]"

definition daemon_options :: "argval \<Rightarrow> string list \<Rightarrow> declared list" where
  "daemon_options token engines =
     db_options token @ eng_options engines @
     [required_option ''--replica'', float_option ''--interval'' (Float (Fin 1)), once_option]"

definition supervise_options :: "argval \<Rightarrow> string list \<Rightarrow> declared list" where
  "supervise_options token engines =
     db_options token @
     [engine_option engines, (option_named ''--launcher'')\<lparr>dc_choices := Some [''sglang'', ''vllm'', ''mock'']\<rparr>,
      required_option ''--model'', (required_option ''--port'')\<lparr>dc_kind := Whole\<rparr>, required_option ''--replica'',
      (option_named ''--extra-flag'')\<lparr>dc_count := Append\<rparr>, float_option ''--drain'' (Number 0),
      (option_named ''--engine-log'')\<lparr>dc_default := Given ''engine.log''\<rparr>,
      float_option ''--interval'' (Float (Fin 1)), once_option]"

definition kv_argument :: declared where
  "kv_argument = positional ''kv'' Some_Of Text"

definition version_argument :: declared where
  "version_argument = positional ''version'' One Whole"

definition canary_argument :: declared where
  "canary_argument = positional ''canary_id'' One Whole"

definition subcommands :: "argval \<Rightarrow> string list \<Rightarrow> reader dict" where
  "subcommands token engines =
     [(''set'', \<lparr>rd_options = eng_options engines, rd_positional = Some kv_argument\<rparr>),
      (''get'', \<lparr>rd_options = eng_options engines, rd_positional = None\<rparr>),
      (''propose'', \<lparr>rd_options = db_options token @ [required_option ''--reason''], rd_positional = Some kv_argument\<rparr>),
      (''promote'', \<lparr>rd_options = db_options token, rd_positional = Some version_argument\<rparr>),
      (''rollback'', \<lparr>rd_options = db_options token, rd_positional = Some version_argument\<rparr>),
      (''versions'', \<lparr>rd_options = db_options token, rd_positional = None\<rparr>),
      (''status'', \<lparr>rd_options = db_options token, rd_positional = None\<rparr>),
      (''daemon'', \<lparr>rd_options = daemon_options token engines, rd_positional = None\<rparr>),
      (''supervise'', \<lparr>rd_options = supervise_options token engines, rd_positional = None\<rparr>)]"

definition canary_subcommands :: "argval \<Rightarrow> string list \<Rightarrow> reader dict" where
  "canary_subcommands token engines =
     [(''start'',
        \<lparr>rd_options = canary_options token engines @
           [required_option ''--scope'', required_option ''--gates'', float_option ''--window'' (Number 300)],
         rd_positional = Some version_argument\<rparr>),
      (''observe'',
        \<lparr>rd_options = canary_options token engines @
           [(option_named ''--samples'')\<lparr>dc_kind := Whole, dc_default := Number 5\<rparr>],
         rd_positional = Some canary_argument\<rparr>),
      (''abort'', \<lparr>rd_options = canary_options token engines, rd_positional = Some canary_argument\<rparr>),
      (''show'', \<lparr>rd_options = db_options token, rd_positional = Some canary_argument\<rparr>)]"

text \<open>
  The name of a subcommand is the first value; before it only help and what is left over can stand.
\<close>

fun descend :: "string list \<Rightarrow> string list \<Rightarrow> bool \<Rightarrow> exn + string \<times> string list \<times> bool" where
  "descend names [] extra = Inl usage_error"
| "descend names (s # ss) extra =
     rbind (classify [] s) (\<lambda>t.
     case t of
       Value n \<Rightarrow> if n \<in> set names then Inr (n, ss, extra) else Inl usage_error
     | Help alone \<Rightarrow> Inl (if alone then SystemExit 0 else usage_error)
     | _ \<Rightarrow> descend names ss True)"

section \<open>From the namespace to the command\<close>

definition text_arg :: "string \<Rightarrow> namespace \<Rightarrow> string" where
  "text_arg n ns = (case held_value n ns of Given s \<Rightarrow> s | _ \<Rightarrow> [])"

definition opt_text_arg :: "string \<Rightarrow> namespace \<Rightarrow> string option" where
  "opt_text_arg n ns = (case held_value n ns of Given s \<Rightarrow> Some s | _ \<Rightarrow> None)"

definition texts_arg :: "string \<Rightarrow> namespace \<Rightarrow> string list option" where
  "texts_arg n ns = (case held_value n ns of Texts xs \<Rightarrow> Some xs | _ \<Rightarrow> None)"

definition int_arg :: "string \<Rightarrow> namespace \<Rightarrow> int" where
  "int_arg n ns = (case held_value n ns of Number i \<Rightarrow> i | _ \<Rightarrow> 0)"

definition number_arg :: "string \<Rightarrow> namespace \<Rightarrow> json" where
  "number_arg n ns = (case held_value n ns of Float x \<Rightarrow> JFloat x | Number i \<Rightarrow> JInt i | _ \<Rightarrow> JNull)"

definition float_arg :: "string \<Rightarrow> namespace \<Rightarrow> pyfloat" where
  "float_arg n ns = (case held_value n ns of Float x \<Rightarrow> x | Number i \<Rightarrow> Fin (of_int i) | _ \<Rightarrow> NaN)"

definition switch_arg :: "string \<Rightarrow> namespace \<Rightarrow> bool" where
  "switch_arg n ns \<longleftrightarrow> held_value n ns = Switch True"

definition some_texts :: "string \<Rightarrow> namespace \<Rightarrow> string list" where
  "some_texts n ns = (case texts_arg n ns of None \<Rightarrow> [] | Some xs \<Rightarrow> xs)"

definition db_of :: "namespace \<Rightarrow> db_args" where
  "db_of ns =
     \<lparr>d_db = text_arg ''--db'' ns, d_token = opt_text_arg ''--token'' ns, d_group = text_arg ''--group'' ns\<rparr>"

definition canary_of :: "namespace \<Rightarrow> canary_args" where
  "canary_of ns =
     db_args.extend (db_of ns)
       \<lparr>k_engine = text_arg ''--engine'' ns, k_replicas = text_arg ''--replicas'' ns, k_metrics = texts_arg ''--metrics'' ns\<rparr>"

definition daemon_of :: "namespace \<Rightarrow> daemon_args" where
  "daemon_of ns =
     db_args.extend (db_of ns)
       \<lparr>m_engine_name = text_arg ''--engine'' ns, m_url = text_arg ''--url'' ns, m_replica = text_arg ''--replica'' ns\<rparr>"

definition supervise_of :: "namespace \<Rightarrow> supervise_args" where
  "supervise_of ns =
     db_args.extend (db_of ns)
       \<lparr>u_engine = text_arg ''--engine'' ns, u_launcher = opt_text_arg ''--launcher'' ns, u_model = text_arg ''--model'' ns,
        u_port = int_arg ''--port'' ns, u_replica = text_arg ''--replica'' ns, u_extra = texts_arg ''--extra-flag'' ns,
        u_drain = float_arg ''--drain'' ns\<rparr>"

text \<open>\<open>set_defaults(f=\<dots>)\<close>; \<open>rounds\<close> is how long a loop without \<open>--once\<close> is let run.\<close>

definition command_of :: "nat \<Rightarrow> string \<Rightarrow> namespace \<Rightarrow> command" where
  "command_of rounds name ns =
     (if name = ''set'' then Set (text_arg ''--engine'' ns) (text_arg ''--url'' ns) (some_texts ''kv'' ns)
      else if name = ''get'' then Get (text_arg ''--engine'' ns) (text_arg ''--url'' ns)
      else if name = ''propose'' then Propose (db_of ns) (some_texts ''kv'' ns) (text_arg ''--reason'' ns)
      else if name = ''promote'' then Promote (db_of ns) (int_arg ''version'' ns)
      else if name = ''rollback'' then Rollback (db_of ns) (int_arg ''version'' ns)
      else if name = ''versions'' then Versions (db_of ns)
      else if name = ''status'' then Status (db_of ns)
      else if name = ''daemon'' then Daemon (daemon_of ns) (switch_arg ''--once'' ns) rounds
      else Supervise (supervise_of ns) (switch_arg ''--once'' ns) rounds)"

definition canary_command_of :: "string \<Rightarrow> namespace \<Rightarrow> command" where
  "canary_command_of name ns =
     (if name = ''start'' then
        Canary_Start (canary_of ns) (int_arg ''version'' ns) (text_arg ''--scope'' ns) (text_arg ''--gates'' ns)
          (number_arg ''--window'' ns)
      else if name = ''observe'' then Canary_Observe (canary_of ns) (int_arg ''canary_id'' ns) (int_arg ''--samples'' ns)
      else if name = ''abort'' then Canary_Abort (canary_of ns) (int_arg ''canary_id'' ns)
      else Canary_Show (db_of ns) (int_arg ''canary_id'' ns))"

definition read_with :: "rounding \<Rightarrow> reader dict \<Rightarrow> string \<Rightarrow> string list \<Rightarrow> bool \<Rightarrow> exn + namespace" where
  "read_with rnd subs name args extra =
     (case map_of subs name of
        None \<Rightarrow> Inl usage_error
      | Some rd \<Rightarrow> rbind (read_args rnd rd args) (\<lambda>ns. if extra then Inl usage_error else Inr ns))"

definition read_command :: "rounding \<Rightarrow> argval \<Rightarrow> string list \<Rightarrow> nat \<Rightarrow> string list \<Rightarrow> exn + command" where
  "read_command rnd token engines rounds argv =
     (let subs = subcommands token engines; cs = canary_subcommands token engines
      in rbind (descend (''canary'' # keys subs) argv False) (\<lambda>(name, rest, extra).
         if name = ''canary''
         then rbind (descend (keys cs) rest extra) (\<lambda>(sub, args, extra').
           rbind (read_with rnd cs sub args extra') (\<lambda>ns. Inr (canary_command_of sub ns)))
         else rbind (read_with rnd subs name rest extra) (\<lambda>ns. Inr (command_of rounds name ns))))"

definition cli_main ::
  "'e cli_env \<Rightarrow> argval \<Rightarrow> string list \<Rightarrow> nat \<Rightarrow> string list \<Rightarrow> ('e terminal, unit) stmt" where
  "cli_main c token engines rounds argv =
     andthen (of_result (read_command (ce_rounding c) token engines rounds argv)) (run_command c)"

end
