(* ===== verification/Arguments_Facts.thy ===== *)
theory Arguments_Facts
  imports Arguments
begin

text \<open>
  Every command can be typed: the line that spells a command is read back as that command. Options are
  spelled with an equals sign, so their values may be any text; the values without an option must not
  look like one.
\<close>

section \<open>What one argument is\<close>

definition long_name :: "string \<Rightarrow> bool" where
  "long_name n \<longleftrightarrow> starts_with ''--'' n \<and> 2 < length n \<and> CHR ''='' \<notin> set n"

definition plain_options :: "declared list \<Rightarrow> bool" where
  "plain_options os \<longleftrightarrow> list_all (\<lambda>d. long_name (dc_name d)) os \<and> distinct (map dc_name os)"

definition value_like :: "string \<Rightarrow> bool" where
  "value_like s \<longleftrightarrow> s = [] \<or> hd s \<noteq> CHR ''-''"

lemma classify_value: "value_like s \<Longrightarrow> classify os s = Inr (Value s)"
  by (auto simp: value_like_def classify_def)

lemma find_option_in:
  assumes "plain_options os" and "d \<in> set os"
  shows "find_option os (dc_name d) = Some d"
  using assms unfolding plain_options_def find_option_def
  by (induction os) (auto simp: image_iff)

lemma long_name_parts: "long_name n \<Longrightarrow> \<exists>c r. n = CHR ''-'' # CHR ''-'' # c # r"
  by (auto simp: long_name_def starts_with_def prefix_def) (metis length_greater_0_conv list.exhaust)

lemma partition_eq: "CHR ''='' \<notin> set n \<Longrightarrow> partition CHR ''='' (n @ CHR ''='' # v) = (n, True, v)"
  by (simp add: partition_def takeWhile_append dropWhile_append Let_def takeWhile_tail)

lemma classify_given:
  assumes "plain_options os" and "d \<in> set os"
  shows "classify os (dc_name d @ CHR ''='' # v) = Inr (Option d (Some v))"
proof -
  have n: "long_name (dc_name d)" using assms by (auto simp: plain_options_def list_all_iff)
  then obtain c r where cr: "dc_name d = CHR ''-'' # CHR ''-'' # c # r" using long_name_parts by blast
  have "CHR ''='' \<notin> set m" if "m \<in> set (option_names os)" for m
    using that assms(1) by (auto simp: option_names_def plain_options_def long_name_def list_all_iff)
  then have "dc_name d @ CHR ''='' # v \<notin> set (option_names os)" by fastforce
  moreover have "partition CHR ''='' (dc_name d @ CHR ''='' # v) = (dc_name d, True, v)"
    using n by (simp add: long_name_def partition_eq)
  moreover have "dc_name d \<in> set (option_names os)" using assms(2) by (simp add: option_names_def)
  ultimately show ?thesis
    using cr find_option_in [OF assms]
    by (simp add: classify_def named_token_def starts_with_def)
qed

lemma classify_bare:
  assumes "plain_options os" and "d \<in> set os"
  shows "classify os (dc_name d) = Inr (Option d None)"
proof -
  have "long_name (dc_name d)" using assms by (auto simp: plain_options_def list_all_iff)
  then obtain c r where cr: "dc_name d = CHR ''-'' # CHR ''-'' # c # r" using long_name_parts by blast
  have "dc_name d \<in> set (option_names os)" using assms(2) by (simp add: option_names_def)
  then show ?thesis
    using cr find_option_in [OF assms] by (simp add: classify_def named_token_def)
qed

lemma classify_all_append:
  "classify_all os xs = Inr ts \<Longrightarrow> classify_all os (xs @ ys) = rbind (classify_all os ys) (\<lambda>us. Inr (ts @ us))"
  by (induction xs arbitrary: ts) (auto simp: rbind_def split: sum.splits)

lemma classify_values: "list_all value_like xs \<Longrightarrow> classify_all os xs = Inr (map Value xs)"
  by (induction xs) (simp_all add: classify_value rbind_def)

lemma find_option_given:
  assumes "plain_options os" and "find_option os n = Some d"
  shows "classify os (n @ CHR ''='' # v) = Inr (Option d (Some v))" and "classify os n = Inr (Option d None)"
proof -
  have "d \<in> set os" "dc_name d = n" using assms(2) by (auto simp: find_option_def find_Some_iff)
  then show "classify os (n @ CHR ''='' # v) = Inr (Option d (Some v))" "classify os n = Inr (Option d None)"
    using classify_given [OF assms(1), of d v] classify_bare [OF assms(1), of d] by simp_all
qed

section \<open>Spelling a command\<close>

definition joined :: "string \<Rightarrow> string \<Rightarrow> string" where
  "joined n v = n @ CHR ''='' # v"

definition if_given :: "string \<Rightarrow> string option \<Rightarrow> string list" where
  "if_given n v = (case v of None \<Rightarrow> [] | Some s \<Rightarrow> [joined n s])"

definition if_set :: "string \<Rightarrow> bool \<Rightarrow> string list" where
  "if_set n b = (if b then [n] else [])"

definition spell_db :: "db_args \<Rightarrow> string list" where
  "spell_db a = [joined ''--db'' (d_db a)] @ if_given ''--token'' (d_token a) @ [joined ''--group'' (d_group a)]"

definition spell_canary :: "canary_args \<Rightarrow> string list" where
  "spell_canary a =
     (case k_metrics a of None \<Rightarrow> [] | Some ms \<Rightarrow> ''--metrics'' # ms) @ spell_db (db_args.truncate a) @
     [joined ''--engine'' (k_engine a), joined ''--replicas'' (k_replicas a)]"

fun spell :: "float_text \<Rightarrow> command \<Rightarrow> string list" where
  "spell fr (Set engine url kv) = ''set'' # [joined ''--engine'' engine, joined ''--url'' url] @ kv"
| "spell fr (Get engine url) = [''get'', joined ''--engine'' engine, joined ''--url'' url]"
| "spell fr (Propose a kv reason) = ''propose'' # spell_db a @ [joined ''--reason'' reason] @ kv"
| "spell fr (Promote a vid) = ''promote'' # spell_db a @ [show_int vid]"
| "spell fr (Rollback a vid) = ''rollback'' # spell_db a @ [show_int vid]"
| "spell fr (Versions a) = ''versions'' # spell_db a"
| "spell fr (Status a) = ''status'' # spell_db a"
| "spell fr (Canary_Start a vid scope gates window) =
     [''canary'', ''start''] @ spell_canary a @ [joined ''--scope'' scope, joined ''--gates'' gates] @
     (case window of JFloat x \<Rightarrow> [joined ''--window'' (fr x)] | _ \<Rightarrow> []) @ [show_int vid]"
| "spell fr (Canary_Observe a cid samples) =
     [''canary'', ''observe''] @ spell_canary a @ [joined ''--samples'' (show_int samples), show_int cid]"
| "spell fr (Canary_Abort a cid) = [''canary'', ''abort''] @ spell_canary a @ [show_int cid]"
| "spell fr (Canary_Show a cid) = [''canary'', ''show''] @ spell_db a @ [show_int cid]"
| "spell fr (Daemon a once rounds) =
     ''daemon'' # spell_db (db_args.truncate a) @ [joined ''--engine'' (m_engine_name a), joined ''--url'' (m_url a),
       joined ''--replica'' (m_replica a)] @ if_set ''--once'' once"
| "spell fr (Supervise a once rounds) =
     ''supervise'' # spell_db (db_args.truncate a) @ [joined ''--engine'' (u_engine a)] @
     if_given ''--launcher'' (u_launcher a) @
     [joined ''--model'' (u_model a), joined ''--port'' (show_int (u_port a)), joined ''--replica'' (u_replica a)] @
     (case u_extra a of None \<Rightarrow> [] | Some xs \<Rightarrow> map (joined ''--extra-flag'') xs) @
     [joined ''--drain'' (fr (u_drain a))] @ if_set ''--once'' once"

text \<open>The commands a line can spell.\<close>

definition plain_db :: "argval \<Rightarrow> db_args \<Rightarrow> bool" where
  "plain_db token a \<longleftrightarrow> token = Unset \<or> d_token a \<noteq> None"

definition plain_canary :: "argval \<Rightarrow> string list \<Rightarrow> canary_args \<Rightarrow> bool" where
  "plain_canary token engines a \<longleftrightarrow>
     plain_db token (db_args.truncate a) \<and> k_engine a \<in> set engines \<and>
     (case k_metrics a of None \<Rightarrow> True | Some ms \<Rightarrow> list_all value_like ms)"

definition plain_kv :: "string list \<Rightarrow> bool" where
  "plain_kv kv \<longleftrightarrow> kv \<noteq> [] \<and> list_all value_like kv"

definition reads_back :: "rounding \<Rightarrow> float_text \<Rightarrow> pyfloat \<Rightarrow> bool" where
  "reads_back rnd fr x \<longleftrightarrow> parse_float rnd (fr x) = Some x"

fun plain_command :: "rounding \<Rightarrow> float_text \<Rightarrow> argval \<Rightarrow> string list \<Rightarrow> nat \<Rightarrow> command \<Rightarrow> bool" where
  "plain_command rnd fr token engines n (Set engine url kv) = (engine \<in> set engines \<and> plain_kv kv)"
| "plain_command rnd fr token engines n (Get engine url) = (engine \<in> set engines)"
| "plain_command rnd fr token engines n (Propose a kv reason) = (plain_db token a \<and> plain_kv kv)"
| "plain_command rnd fr token engines n (Promote a vid) = (plain_db token a \<and> 0 \<le> vid)"
| "plain_command rnd fr token engines n (Rollback a vid) = (plain_db token a \<and> 0 \<le> vid)"
| "plain_command rnd fr token engines n (Versions a) = plain_db token a"
| "plain_command rnd fr token engines n (Status a) = plain_db token a"
| "plain_command rnd fr token engines n (Canary_Start a vid scope gates window) =
     (plain_canary token engines a \<and> 0 \<le> vid \<and>
      (case window of JFloat x \<Rightarrow> reads_back rnd fr x | JInt i \<Rightarrow> i = 300 | _ \<Rightarrow> False))"
| "plain_command rnd fr token engines n (Canary_Observe a cid samples) = (plain_canary token engines a \<and> 0 \<le> cid)"
| "plain_command rnd fr token engines n (Canary_Abort a cid) = (plain_canary token engines a \<and> 0 \<le> cid)"
| "plain_command rnd fr token engines n (Canary_Show a cid) = (plain_db token a \<and> 0 \<le> cid)"
| "plain_command rnd fr token engines n (Daemon a once rounds) =
     (plain_db token (db_args.truncate a) \<and> m_engine_name a \<in> set engines \<and> rounds = n)"
| "plain_command rnd fr token engines n (Supervise a once rounds) =
     (plain_db token (db_args.truncate a) \<and> u_engine a \<in> set engines \<and> rounds = n \<and>
      (case u_launcher a of None \<Rightarrow> True | Some l \<Rightarrow> l \<in> {''sglang'', ''vllm'', ''mock''}) \<and>
      u_extra a \<noteq> Some [] \<and> reads_back rnd fr (u_drain a))"

section \<open>Reading the options of a line\<close>

lemma read_given:
  assumes "dc_count d = One" and "convert rnd d v = Inr x"
  shows "read_tokens rnd pos (Option d (Some v) # ts) ns ex = read_tokens rnd pos ts (dset (dc_name d) x ns) ex"
  using assms by (simp add: take_option_def rbind_def)

lemma leading_values: "leading (map Value xs) = xs"
  by (induction xs) simp_all

lemma leading_before: "leading (map Value xs @ Option d e # ts) = xs"
  by (induction xs) simp_all

lemma read_kv:
  assumes "kv \<noteq> []" and "dc_count d = Some_Of"
  shows "read_tokens rnd (Some d) (map Value kv) ns ex = Inr (dset (dc_name d) (Texts kv) ns, None, ex)"
  using assms by (cases kv) (simp_all add: take_positional_def leading_values)

lemma read_int:
  assumes "dc_count d = One" and "dc_kind d = Whole"
  shows "read_tokens rnd (Some d) [Value (show_int i)] ns ex = Inr (dset (dc_name d) (Number i) ns, None, ex)"
  using assms by (simp add: take_positional_def convert_def parse_show_int rbind_def)

lemma value_like_int:
  assumes "0 \<le> i"
  shows "value_like (show_int i)"
proof -
  obtain c cs where "show_nat (nat i) = c # cs" "is_digit c"
    using show_nat_digits [of "nat i"] by (cases "show_nat (nat i)") auto
  moreover have "\<not> is_digit CHR ''-''" by (simp add: is_digit_def)
  ultimately show ?thesis using assms by (auto simp: show_int_def value_like_def)
qed

section \<open>The declared options\<close>

lemma option_sels [simp]:
  "dc_name (required_option n) = n" "dc_count (required_option n) = One" "dc_kind (required_option n) = Text"
  "dc_choices (required_option n) = None" "dc_required (required_option n)"
  "dc_name (option_named n) = n" "dc_count (option_named n) = One" "dc_kind (option_named n) = Text"
  "dc_choices (option_named n) = None" "\<not> dc_required (option_named n)" "dc_default (option_named n) = Unset"
  "dc_name (engine_option es) = ''--engine''" "dc_count (engine_option es) = One" "dc_kind (engine_option es) = Text"
  "dc_choices (engine_option es) = Some (sort es)" "dc_required (engine_option es)"
  "dc_name (float_option n x) = n" "dc_count (float_option n x) = One" "dc_kind (float_option n x) = Real"
  "dc_choices (float_option n x) = None" "\<not> dc_required (float_option n x)" "dc_default (float_option n x) = x"
  "dc_name once_option = ''--once''" "dc_count once_option = Flag" "\<not> dc_required once_option"
  "dc_default once_option = Switch False"
  "dc_name kv_argument = ''kv''" "dc_count kv_argument = Some_Of"
  "dc_name version_argument = ''version''" "dc_count version_argument = One" "dc_kind version_argument = Whole"
  "dc_name canary_argument = ''canary_id''" "dc_count canary_argument = One" "dc_kind canary_argument = Whole"
  by (simp_all add: required_option_def option_named_def engine_option_def float_option_def once_option_def
      kv_argument_def version_argument_def canary_argument_def positional_def)

lemma find_option_simps [simp]:
  "find_option [] n = None"
  "find_option (d # os) n = (if dc_name d = n then Some d else find_option os n)"
  by (simp_all add: find_option_def)

lemma find_option_append [simp]:
  "find_option (os @ os') n = (case find_option os n of None \<Rightarrow> find_option os' n | Some d \<Rightarrow> Some d)"
  by (induction os) simp_all

lemma find_daemon:
  "find_option (daemon_options t es) n =
    (if n = ''--db'' then Some (required_option ''--db'')
     else if n = ''--token'' then Some ((option_named ''--token'')\<lparr>dc_default := t\<rparr>)
     else if n = ''--group'' then Some (required_option ''--group'')
     else if n = ''--engine'' then Some (engine_option es) else if n = ''--url'' then Some (required_option ''--url'')
     else if n = ''--replica'' then Some (required_option ''--replica'')
     else if n = ''--interval'' then Some (float_option ''--interval'' (Float (Fin 1)))
     else if n = ''--once'' then Some once_option else None)"
  by (simp add: daemon_options_def db_options_def eng_options_def)

lemma find_supervise:
  "find_option (supervise_options t es) n = find_option (db_options t @
     [engine_option es, (option_named ''--launcher'')\<lparr>dc_choices := Some [''sglang'', ''vllm'', ''mock'']\<rparr>,
      required_option ''--model'', (required_option ''--port'')\<lparr>dc_kind := Whole\<rparr>, required_option ''--replica'',
      (option_named ''--extra-flag'')\<lparr>dc_count := Append\<rparr>, float_option ''--drain'' (Number 0),
      (option_named ''--engine-log'')\<lparr>dc_default := Given ''engine.log''\<rparr>,
      float_option ''--interval'' (Float (Fin 1)), once_option]) n"
  by (simp add: supervise_options_def)

text \<open>The lists of options are kept folded; what is asked of them is rewritten one list at a time.\<close>

lemma find_option_lists:
  "find_option (eng_options es) n =
    (if n = ''--engine'' then Some (engine_option es) else if n = ''--url'' then Some (required_option ''--url'') else None)"
  "find_option (db_options token) n =
    (if n = ''--db'' then Some (required_option ''--db'')
     else if n = ''--token'' then Some ((option_named ''--token'')\<lparr>dc_default := token\<rparr>)
     else if n = ''--group'' then Some (required_option ''--group'') else None)"
  "find_option (canary_options token es) n =
    (case find_option (db_options token) n of Some d \<Rightarrow> Some d
     | None \<Rightarrow> if n = ''--engine'' then Some (engine_option es)
       else if n = ''--replicas'' then Some (required_option ''--replicas'')
       else if n = ''--metrics'' then Some ((option_named ''--metrics'')\<lparr>dc_count := Any_Of\<rparr>) else None)"
  by (auto simp: eng_options_def db_options_def canary_options_def split: option.split)

lemma list_ex_lists:
  "list_ex P (eng_options es) \<longleftrightarrow> P (engine_option es) \<or> P (required_option ''--url'')"
  "list_ex P (db_options token) \<longleftrightarrow>
    P (required_option ''--db'') \<or> P ((option_named ''--token'')\<lparr>dc_default := token\<rparr>) \<or> P (required_option ''--group'')"
  "list_ex P (canary_options token es) \<longleftrightarrow>
    list_ex P (db_options token) \<or> P (engine_option es) \<or> P (required_option ''--replicas'') \<or>
    P ((option_named ''--metrics'')\<lparr>dc_count := Any_Of\<rparr>)"
  "list_ex P (daemon_options t es) \<longleftrightarrow> list_ex P (db_options t) \<or> list_ex P (eng_options es) \<or>
    P (required_option ''--replica'') \<or> P (float_option ''--interval'' (Float (Fin 1))) \<or> P once_option"
  "list_ex P (supervise_options t es) \<longleftrightarrow> list_ex P (db_options t @
     [engine_option es, (option_named ''--launcher'')\<lparr>dc_choices := Some [''sglang'', ''vllm'', ''mock'']\<rparr>,
      required_option ''--model'', (required_option ''--port'')\<lparr>dc_kind := Whole\<rparr>, required_option ''--replica'',
      (option_named ''--extra-flag'')\<lparr>dc_count := Append\<rparr>, float_option ''--drain'' (Number 0),
      (option_named ''--engine-log'')\<lparr>dc_default := Given ''engine.log''\<rparr>,
      float_option ''--interval'' (Float (Fin 1)), once_option])"
  by (simp_all add: eng_options_def db_options_def canary_options_def daemon_options_def supervise_options_def)

lemma defaults_lists:
  "defaults [] = []" "defaults (os @ os') = defaults os @ defaults os'"
  "defaults (d # os) = (if dc_required d then [] else [(dc_name d, dc_default d)]) @ defaults os"
  "defaults (eng_options es) = []"
  "defaults (db_options token) = [(''--token'', token)]"
  "defaults (canary_options token es) = [(''--token'', token), (''--metrics'', Unset)]"
  "defaults (daemon_options token es) =
    [(''--token'', token), (''--interval'', Float (Fin 1)), (''--once'', Switch False)]"
  "defaults (supervise_options token es) =
    [(''--token'', token), (''--launcher'', Unset), (''--extra-flag'', Unset), (''--drain'', Number 0),
     (''--engine-log'', Given ''engine.log''), (''--interval'', Float (Fin 1)), (''--once'', Switch False)]"
  by (simp_all add: defaults_def eng_options_def db_options_def canary_options_def daemon_options_def supervise_options_def)

definition all_plain :: "reader dict \<Rightarrow> bool" where
  "all_plain subs \<longleftrightarrow> list_all (\<lambda>(n, rd). plain_options (rd_options rd)) subs"

lemma plain_subs: "all_plain (subcommands token engines)" "all_plain (canary_subcommands token engines)"
  by (simp_all add: all_plain_def subcommands_def canary_subcommands_def plain_options_def long_name_def starts_with_def
      eng_options_def db_options_def canary_options_def daemon_options_def supervise_options_def)

lemma plain_sub: "all_plain subs \<Longrightarrow> map_of subs n = Some rd \<Longrightarrow> plain_options (rd_options rd)"
  by (auto simp: all_plain_def list_all_iff dest!: map_of_SomeD)

section \<open>A line of options\<close>

lemma classify_joined:
  "plain_options os \<Longrightarrow> find_option os n \<noteq> None \<Longrightarrow>
   classify os (joined n v) = Inr (Option (the (find_option os n)) (Some v))"
  using find_option_given(1) [of os n] by (auto simp: joined_def)

lemma classify_switch:
  "plain_options os \<Longrightarrow> find_option os n \<noteq> None \<Longrightarrow> classify os n = Inr (Option (the (find_option os n)) None)"
  using find_option_given(2) [of os n] by auto

lemma rbind_assoc: "rbind (rbind r f) g = rbind r (\<lambda>x. rbind (f x) g)"
  by (simp add: rbind_def split: sum.split)

lemma classify_values_then:
  "list_all value_like vs \<Longrightarrow>
   classify_all os (vs @ ss) = rbind (classify_all os ss) (\<lambda>ts. Inr (map Value vs @ ts))"
  by (simp add: classify_all_append [OF classify_values])

lemma classify_repeated:
  assumes "plain_options os" and "find_option os n \<noteq> None"
  shows "classify_all os (map (joined n) vs @ ss) =
    rbind (classify_all os ss) (\<lambda>ts. Inr (map (\<lambda>x. Option (the (find_option os n)) (Some x)) vs @ ts))"
proof -
  have "classify_all os (map (joined n) vs) = Inr (map (\<lambda>x. Option (the (find_option os n)) (Some x)) vs)"
    by (induction vs) (simp_all add: classify_joined [OF assms] rbind_def)
  then show ?thesis by (rule classify_all_append)
qed

lemma rbind_Inr [simp]: "rbind (Inr x) f = f x"
  by (simp add: rbind_def)

declare read_tokens.simps(4,5) [simp del]

lemma read_switch:
  "dc_count d = Flag \<Longrightarrow>
   read_tokens rnd pos (Option d None # ts) ns ex = read_tokens rnd pos ts (dset (dc_name d) (Switch True) ns) ex"
  by (simp add: read_tokens.simps take_option_def)

lemma read_several:
  "dc_count d = Any_Of \<Longrightarrow>
   read_tokens rnd pos (Option d None # map Value vs @ Option d' e # ts) ns ex =
   read_tokens rnd pos (Option d' e # ts) (dset (dc_name d) (Texts vs) ns) ex"
  by (simp add: read_tokens.simps(4) take_option_def leading_before)

lemma read_appended:
  assumes "dc_count d = Append"
  shows "held_value (dc_name d) ns = Texts ys \<Longrightarrow>
    read_tokens rnd pos (map (\<lambda>x. Option d (Some x)) xs @ ts) ns ex =
    read_tokens rnd pos ts (if xs = [] then ns else dset (dc_name d) (Texts (ys @ xs)) ns) ex"
proof (induction xs arbitrary: ns ys)
  case (Cons x xs)
  have "held_value (dc_name d) (dset (dc_name d) (Texts (ys @ [x])) ns) = Texts (ys @ [x])"
    by (simp add: held_value_def)
  from Cons.IH [OF this] Cons.prems show ?case
    by (auto simp: read_tokens.simps(4) take_option_def assms appended_def dset_dset)
qed simp

lemma read_appended_first:
  assumes "dc_count d = Append" and "held_value (dc_name d) ns = Unset"
  shows "read_tokens rnd pos (Option d (Some x) # map (\<lambda>x. Option d (Some x)) xs @ ts) ns ex =
    read_tokens rnd pos ts (dset (dc_name d) (Texts (x # xs)) ns) ex"
proof -
  have "held_value (dc_name d) (dset (dc_name d) (Texts [x]) ns) = Texts [x]" by (simp add: held_value_def)
  from read_appended [OF assms(1) this, of rnd pos xs ts ex] show ?thesis
    by (simp add: read_tokens.simps(4) take_option_def assms appended_def dset_dset)
qed

text \<open>An option that may be left out, without a case for each.\<close>

definition opt_tokens :: "declared \<Rightarrow> string option \<Rightarrow> token list" where
  "opt_tokens d v = (case v of None \<Rightarrow> [] | Some s \<Rightarrow> [Option d (Some s)])"

definition put_given :: "string \<Rightarrow> string option \<Rightarrow> namespace \<Rightarrow> namespace" where
  "put_given n v ns = (case v of None \<Rightarrow> ns | Some s \<Rightarrow> dset n (Given s) ns)"

lemma map_of_put_given:
  "map_of (put_given m v ns) n =
    (if n = m then (case v of None \<Rightarrow> map_of ns n | Some s \<Rightarrow> Some (Given s)) else map_of ns n)"
  by (simp add: put_given_def split: option.split)

lemma classify_if_given:
  "plain_options os \<Longrightarrow> find_option os n \<noteq> None \<Longrightarrow> classify_all os (if_given n v @ ss) =
    rbind (classify_all os ss) (\<lambda>ts. Inr (opt_tokens (the (find_option os n)) v @ ts))"
  by (cases v) (simp_all add: if_given_def opt_tokens_def classify_joined, simp add: rbind_def split: sum.split)

lemma read_if_given:
  "dc_count d = One \<Longrightarrow> \<forall>s. v = Some s \<longrightarrow> convert rnd d s = Inr (Given s) \<Longrightarrow>
   read_tokens rnd pos (opt_tokens d v @ ts) ns ex = read_tokens rnd pos ts (put_given (dc_name d) v ns) ex"
  by (cases v) (simp_all add: opt_tokens_def put_given_def read_given)

section \<open>From the subcommand to its options\<close>

lemma sub_names: "list_all value_like (keys (subcommands token engines))"
  "list_all value_like (keys (canary_subcommands token engines))"
  by (simp_all add: subcommands_def canary_subcommands_def value_like_def)

lemma named_sub:
  assumes "list_all value_like (keys subs)" and "map_of subs name = Some rd"
  shows "value_like name \<and> name \<in> set (keys subs)"
proof -
  have "name \<in> set (keys subs)" using assms(2) by (metis map_of_keys_None option.distinct(1))
  then show ?thesis using assms(1) by (simp add: list_all_iff)
qed

lemma command_read:
  assumes "map_of (subcommands token engines) name = Some rd"
    and "\<exists>ns. read_args rnd rd args = Inr ns \<and> command_of n name ns = cmd"
  shows "read_command rnd token engines n (name # args) = Inr cmd"
proof -
  have "map_of (subcommands token engines) ''canary'' = None" by (simp add: subcommands_def)
  then have "name \<noteq> ''canary''" using assms(1) by auto
  then show ?thesis
    using named_sub [OF sub_names(1) assms(1)] assms
    by (auto simp: read_command_def read_with_def classify_value Let_def)
qed

lemma canary_read:
  assumes "map_of (canary_subcommands token engines) name = Some rd"
    and "\<exists>ns. read_args rnd rd args = Inr ns \<and> canary_command_of name ns = cmd"
  shows "read_command rnd token engines n (''canary'' # name # args) = Inr cmd"
  using named_sub [OF sub_names(2) assms(1)] assms
  by (auto simp: read_command_def read_with_def classify_value [of "''canary''"] classify_value value_like_def Let_def)

lemma plain_lists:
  "plain_options (eng_options es)"
  "plain_options (db_options t)"
  "plain_options (db_options t @ [required_option ''--reason''])"
  "plain_options (daemon_options t es)"
  "plain_options (supervise_options t es)"
  "plain_options (canary_options t es)"
  "plain_options (canary_options t es @
     [required_option ''--scope'', required_option ''--gates'', float_option ''--window'' (Number 300)])"
  "plain_options (canary_options t es @ [(option_named ''--samples'')\<lparr>dc_kind := Whole, dc_default := Number 5\<rparr>])"
  using plain_subs(1) [of t es] plain_subs(2) [of t es]
  by (simp_all add: all_plain_def subcommands_def canary_subcommands_def)

text \<open>The tokens of a line, one argument at a time.\<close>

lemma classify_rules:
  "plain_options os \<Longrightarrow> find_option os n = Some d \<Longrightarrow> classify_all os ss = Inr ts \<Longrightarrow>
    classify_all os (joined n v # ss) = Inr (Option d (Some v) # ts)"
  "plain_options os \<Longrightarrow> find_option os n = Some d \<Longrightarrow> classify_all os ss = Inr ts \<Longrightarrow>
    classify_all os (if_given n u @ ss) = Inr (opt_tokens d u @ ts)"
  "plain_options os \<Longrightarrow> find_option os n = Some d \<Longrightarrow> classify_all os ss = Inr ts \<Longrightarrow>
    classify_all os (map (joined n) vs @ ss) = Inr (map (\<lambda>x. Option d (Some x)) vs @ ts)"
  "plain_options os \<Longrightarrow> find_option os n = Some d \<Longrightarrow>
    classify_all os (if_set n b) = Inr (if b then [Option d None] else [])"
  by (simp_all add: classify_joined classify_if_given classify_repeated classify_switch if_set_def)

lemma classify_plain:
  "list_all value_like vs \<Longrightarrow> classify_all os ss = Inr ts \<Longrightarrow> classify_all os (vs @ ss) = Inr (map Value vs @ ts)"
  "value_like v \<Longrightarrow> classify_all os ss = Inr ts \<Longrightarrow> classify_all os (v # ss) = Inr (Value v # ts)"
  "plain_options os \<Longrightarrow> find_option os ''--metrics'' = Some d \<Longrightarrow> classify_all os ss = Inr ts \<Longrightarrow>
    classify_all os (''--metrics'' # ss) = Inr (Option d None # ts)"
  by (simp_all add: classify_values_then classify_value classify_switch)

declare classify_all.simps(2) [simp del]

lemmas line_simps = read_args_def find_option_lists find_daemon classify_values value_like_int classify_rules(1,2,4)
  classify_plain(2) read_given read_switch read_if_given map_of_put_given read_kv read_int convert_def
  parse_show_int defaults_lists list_ex_lists plain_lists

lemmas arg_simps = command_of_def canary_command_of_def db_of_def text_arg_def opt_text_arg_def int_arg_def
  some_texts_def texts_arg_def held_value_def switch_arg_def number_arg_def float_arg_def canary_of_def daemon_of_def
  supervise_of_def db_args.defs

lemmas spell_simps = spell_db_def plain_db_def plain_kv_def reads_back_def

lemmas canary_simps = spell_canary_def plain_canary_def classify_plain(1,3) read_several

lemma read_set:
  assumes "plain_kv kv" and "engine \<in> set engines"
  shows "read_command rnd token engines n (spell fr (Set engine url kv)) = Inr (Set engine url kv)"
  unfolding spell.simps
  by (rule command_read, simp add: subcommands_def)
    (use assms in \<open>simp add: line_simps arg_simps spell_simps split: option.split\<close>)

lemma read_get:
  assumes "engine \<in> set engines"
  shows "read_command rnd token engines n (spell fr (Get engine url)) = Inr (Get engine url)"
  unfolding spell.simps
  by (rule command_read, simp add: subcommands_def)
    (use assms in \<open>simp add: line_simps arg_simps spell_simps split: option.split\<close>)

lemma read_propose:
  assumes "plain_db token a" and "plain_kv kv"
  shows "read_command rnd token engines n (spell fr (Propose a kv reason)) = Inr (Propose a kv reason)"
  unfolding spell.simps
  by (rule command_read, simp add: subcommands_def)
    (use assms in \<open>simp add: line_simps arg_simps spell_simps split: option.split; auto\<close>)

lemma read_promote:
  assumes "plain_db token a" and "0 \<le> vid"
  shows "read_command rnd token engines n (spell fr (Promote a vid)) = Inr (Promote a vid)"
  unfolding spell.simps
  by (rule command_read, simp add: subcommands_def)
    (use assms in \<open>simp add: line_simps arg_simps spell_simps split: option.split; auto\<close>)

lemma read_rollback:
  assumes "plain_db token a" and "0 \<le> vid"
  shows "read_command rnd token engines n (spell fr (Rollback a vid)) = Inr (Rollback a vid)"
  unfolding spell.simps
  by (rule command_read, simp add: subcommands_def)
    (use assms in \<open>simp add: line_simps arg_simps spell_simps split: option.split; auto\<close>)

lemma read_versions:
  assumes "plain_db token a"
  shows "read_command rnd token engines n (spell fr (Versions a)) = Inr (Versions a)"
  unfolding spell.simps
  by (rule command_read, simp add: subcommands_def)
    (use assms in \<open>simp add: line_simps arg_simps spell_simps split: option.split; auto\<close>)

lemma read_status:
  assumes "plain_db token a"
  shows "read_command rnd token engines n (spell fr (Status a)) = Inr (Status a)"
  unfolding spell.simps
  by (rule command_read, simp add: subcommands_def)
    (use assms in \<open>simp add: line_simps arg_simps spell_simps split: option.split; auto\<close>)

lemma read_show:
  assumes "plain_db token a" and "0 \<le> cid"
  shows "read_command rnd token engines n (spell fr (Canary_Show a cid)) = Inr (Canary_Show a cid)"
  unfolding spell.simps append.simps
  by (rule canary_read, simp add: canary_subcommands_def)
    (use assms in \<open>simp add: line_simps arg_simps spell_simps split: option.split; auto\<close>)

lemma read_daemon:
  assumes "plain_db token (db_args.truncate a)" and "m_engine_name a \<in> set engines" and "rounds = n"
  shows "read_command rnd token engines n (spell fr (Daemon a once rounds)) = Inr (Daemon a once rounds)"
  unfolding spell.simps
  by (rule command_read, simp add: subcommands_def)
    (use assms in \<open>cases once; simp add: line_simps arg_simps spell_simps split: option.split; auto\<close>)

lemma read_observe:
  assumes "plain_canary token engines a" and "0 \<le> cid"
  shows "read_command rnd token engines n (spell fr (Canary_Observe a cid samples)) = Inr (Canary_Observe a cid samples)"
  unfolding spell.simps append.simps
  by (rule canary_read, simp add: canary_subcommands_def)
    (use assms in \<open>cases "k_metrics a"; simp add: canary_simps line_simps arg_simps spell_simps split: option.split; auto\<close>)

lemma read_abort:
  assumes "plain_canary token engines a" and "0 \<le> cid"
  shows "read_command rnd token engines n (spell fr (Canary_Abort a cid)) = Inr (Canary_Abort a cid)"
  unfolding spell.simps append.simps
  by (rule canary_read, simp add: canary_subcommands_def)
    (use assms in \<open>cases "k_metrics a"; simp add: canary_simps line_simps arg_simps spell_simps split: option.split; auto\<close>)

lemma read_start_window:
  assumes "plain_canary token engines a" and "0 \<le> vid" and "reads_back rnd fr x"
  shows "read_command rnd token engines n (spell fr (Canary_Start a vid scope gates (JFloat x))) = Inr (Canary_Start a vid scope gates (JFloat x))"
  unfolding spell.simps append.simps
  by (rule canary_read, simp add: canary_subcommands_def)
    (use assms in \<open>cases "k_metrics a"; simp add: canary_simps line_simps arg_simps spell_simps split: option.split; auto\<close>)

lemma read_start_default:
  assumes "plain_canary token engines a" and "0 \<le> vid"
  shows "read_command rnd token engines n (spell fr (Canary_Start a vid scope gates (JInt 300))) = Inr (Canary_Start a vid scope gates (JInt 300))"
  unfolding spell.simps append.simps
  by (rule canary_read, simp add: canary_subcommands_def)
    (use assms in \<open>cases "k_metrics a"; simp add: canary_simps line_simps arg_simps spell_simps split: option.split; auto\<close>)

text \<open>The line of \<open>supervise\<close> is long, so its tokens are named.\<close>

abbreviation launcher_option :: declared where
  "launcher_option \<equiv> (option_named ''--launcher'')\<lparr>dc_choices := Some [''sglang'', ''vllm'', ''mock'']\<rparr>"

abbreviation extra_option :: declared where
  "extra_option \<equiv> (option_named ''--extra-flag'')\<lparr>dc_count := Append\<rparr>"

definition supervise_tokens :: "argval \<Rightarrow> string list \<Rightarrow> float_text \<Rightarrow> supervise_args \<Rightarrow> string list \<Rightarrow> bool \<Rightarrow> token list" where
  "supervise_tokens t es fr a xs once =
     Option (required_option ''--db'') (Some (d_db a)) #
     opt_tokens ((option_named ''--token'')\<lparr>dc_default := t\<rparr>) (d_token a) @
     Option (required_option ''--group'') (Some (d_group a)) #
     Option (engine_option es) (Some (u_engine a)) # opt_tokens launcher_option (u_launcher a) @
     Option (required_option ''--model'') (Some (u_model a)) #
     Option ((required_option ''--port'')\<lparr>dc_kind := Whole\<rparr>) (Some (show_int (u_port a))) #
     Option (required_option ''--replica'') (Some (u_replica a)) #
     map (\<lambda>x. Option extra_option (Some x)) xs @
     Option (float_option ''--drain'' (Number 0)) (Some (fr (u_drain a))) #
     (if once then [Option once_option None] else [])"

lemma classify_supervise:
  assumes "xs = (case u_extra a of None \<Rightarrow> [] | Some xs \<Rightarrow> xs)"
  shows "classify_all (supervise_options t es) (tl (spell fr (Supervise a once rounds))) =
    Inr (supervise_tokens t es fr a xs once)"
proof -
  have line: "tl (spell fr (Supervise a once rounds)) =
     joined ''--db'' (d_db a) # if_given ''--token'' (d_token a) @ joined ''--group'' (d_group a) #
     joined ''--engine'' (u_engine a) # if_given ''--launcher'' (u_launcher a) @
     joined ''--model'' (u_model a) # joined ''--port'' (show_int (u_port a)) # joined ''--replica'' (u_replica a) #
     map (joined ''--extra-flag'') xs @ joined ''--drain'' (fr (u_drain a)) # if_set ''--once'' once"
    using assms by (simp add: spell_db_def db_args.defs split: option.split)
  note pl = plain_lists(5) [of t es]
  have f: "find_option (supervise_options t es) ''--db'' = Some (required_option ''--db'')"
    "find_option (supervise_options t es) ''--token'' = Some ((option_named ''--token'')\<lparr>dc_default := t\<rparr>)"
    "find_option (supervise_options t es) ''--group'' = Some (required_option ''--group'')"
    "find_option (supervise_options t es) ''--engine'' = Some (engine_option es)"
    "find_option (supervise_options t es) ''--launcher'' = Some launcher_option"
    "find_option (supervise_options t es) ''--model'' = Some (required_option ''--model'')"
    "find_option (supervise_options t es) ''--port'' = Some ((required_option ''--port'')\<lparr>dc_kind := Whole\<rparr>)"
    "find_option (supervise_options t es) ''--replica'' = Some (required_option ''--replica'')"
    "find_option (supervise_options t es) ''--extra-flag'' = Some extra_option"
    "find_option (supervise_options t es) ''--drain'' = Some (float_option ''--drain'' (Number 0))"
    "find_option (supervise_options t es) ''--once'' = Some once_option"
    by (simp_all add: find_supervise find_option_lists)
  show ?thesis unfolding line supervise_tokens_def by (intro classify_rules pl f)
qed

definition put_extra :: "string list option \<Rightarrow> namespace \<Rightarrow> namespace" where
  "put_extra u ns = (case u of None \<Rightarrow> ns | Some xs \<Rightarrow> dset ''--extra-flag'' (Texts xs) ns)"

lemma map_of_put_extra:
  "map_of (put_extra u ns) n =
    (if n = ''--extra-flag'' then (case u of None \<Rightarrow> map_of ns n | Some xs \<Rightarrow> Some (Texts xs)) else map_of ns n)"
  by (simp add: put_extra_def split: option.split)

lemma read_extra:
  assumes "held_value ''--extra-flag'' ns = Unset" and "u \<noteq> Some []" and "xs = (case u of None \<Rightarrow> [] | Some xs \<Rightarrow> xs)"
  shows "read_tokens rnd pos (map (\<lambda>x. Option extra_option (Some x)) xs @ ts) ns ex =
    read_tokens rnd pos ts (put_extra u ns) ex"
proof (cases u)
  case None
  then show ?thesis using assms by (simp add: put_extra_def)
next
  case (Some ys)
  then obtain y zs where "xs = y # zs" using assms(2,3) by (cases ys) simp_all
  then show ?thesis
    using Some assms read_appended_first [of extra_option ns rnd pos y zs ts ex] by (simp add: put_extra_def)
qed

lemma read_supervise:
  assumes "plain_db token (db_args.truncate a)" and "u_engine a \<in> set engines" and "rounds = n"
    and "\<forall>l. u_launcher a = Some l \<longrightarrow> l \<in> {''sglang'', ''vllm'', ''mock''}"
    and "reads_back rnd fr (u_drain a)" and "u_extra a \<noteq> Some []"
  shows "read_command rnd token engines n (spell fr (Supervise a once rounds)) = Inr (Supervise a once rounds)"
proof -
  define xs where "xs = (case u_extra a of None \<Rightarrow> [] | Some xs \<Rightarrow> xs)"
  define ns where "ns = (if once then dset ''--once'' (Switch True) else (\<lambda>d. d)) (dset ''--drain'' (Float (u_drain a))
    (put_extra (u_extra a) (dset ''--replica'' (Given (u_replica a)) (dset ''--port'' (Number (u_port a))
    (dset ''--model'' (Given (u_model a)) (put_given ''--launcher'' (u_launcher a)
    (dset ''--engine'' (Given (u_engine a)) (dset ''--group'' (Given (d_group a))
    (put_given ''--token'' (d_token a) (dset ''--db'' (Given (d_db a)) (defaults (supervise_options token engines)))))))))))) "
  have dflt: "map_of (defaults (supervise_options token engines)) = [''--token'' \<mapsto> token, ''--launcher'' \<mapsto> Unset,
      ''--extra-flag'' \<mapsto> Unset, ''--drain'' \<mapsto> Number 0, ''--engine-log'' \<mapsto> Given ''engine.log'',
      ''--interval'' \<mapsto> Float (Fin 1), ''--once'' \<mapsto> Switch False]"
    by (simp add: defaults_lists fun_eq_iff)
  have conv: "\<forall>l. u_launcher a = Some l \<longrightarrow> convert rnd launcher_option l = Inr (Given l)"
    "\<forall>t. d_token a = Some t \<longrightarrow> convert rnd ((option_named ''--token'')\<lparr>dc_default := token\<rparr>) t = Inr (Given t)"
    "convert rnd (engine_option engines) (u_engine a) = Inr (Given (u_engine a))"
    "convert rnd (float_option ''--drain'' (Number 0)) (fr (u_drain a)) = Inr (Float (u_drain a))"
    "convert rnd ((required_option ''--port'')\<lparr>dc_kind := Whole\<rparr>) (show_int (u_port a)) = Inr (Number (u_port a))"
    "convert rnd (required_option k) t = Inr (Given t)" for k t
    using assms(2,4,5) by (auto simp: convert_def reads_back_def parse_show_int)
  have read: "read_tokens rnd None (supervise_tokens token engines fr a xs once)
      (defaults (supervise_options token engines)) False = Inr (ns, None, False)"
    unfolding supervise_tokens_def ns_def
    by (cases once; simp add: read_given conv read_if_given read_switch read_extra [OF _ assms(6) xs_def]
        held_value_def map_of_put_given dflt)
  have "read_args rnd \<lparr>rd_options = supervise_options token engines, rd_positional = None\<rparr>
      (tl (spell fr (Supervise a once rounds))) = Inr ns"
    using read
    by (simp add: read_args_def classify_supervise [OF xs_def] list_ex_lists ns_def map_of_put_given map_of_put_extra
        del: spell.simps)
  moreover have "command_of n ''supervise'' ns = Supervise a once rounds"
    using assms(1,3) by (auto simp: arg_simps ns_def map_of_put_given map_of_put_extra dflt plain_db_def split: option.split)
  moreover have "map_of (subcommands token engines) ''supervise'' =
      Some \<lparr>rd_options = supervise_options token engines, rd_positional = None\<rparr>"
    by (simp add: subcommands_def)
  moreover have "spell fr (Supervise a once rounds) = ''supervise'' # tl (spell fr (Supervise a once rounds))" by simp
  ultimately show ?thesis using command_read by metis
qed

lemma read_spelled:
  assumes "plain_command rnd fr token engines n cmd"
  shows "read_command rnd token engines n (spell fr cmd) = Inr cmd"
proof (cases cmd)
  case (Canary_Start a vid scope gates window)
  with assms show ?thesis by (cases window) (simp_all add: read_start_window read_start_default del: spell.simps)
next
  case (Supervise a once rounds)
  then have "\<forall>l. u_launcher a = Some l \<longrightarrow> l \<in> {''sglang'', ''vllm'', ''mock''}"
    using assms by (auto split: option.splits)
  with Supervise assms show ?thesis by (simp add: read_supervise del: spell.simps)
qed (use assms in \<open>simp_all add: read_set read_get read_propose read_promote read_rollback read_versions read_status
      read_show read_daemon read_observe read_abort del: spell.simps\<close>)

section \<open>Lines that are no command\<close>

lemma classify_errors: "classify os s = Inl e \<Longrightarrow> e \<in> {usage_error, Beyond_Text}"
  by (auto simp: classify_def Let_def split: if_splits prod.splits list.splits)

lemma classify_all_errors: "classify_all os ss = Inl e \<Longrightarrow> e \<in> {usage_error, Beyond_Text}"
  by (induction ss) (auto simp: classify_all.simps(2) rbind_def dest: classify_errors split: sum.splits)

lemma convert_errors: "convert rnd d s = Inl e \<Longrightarrow> e = usage_error"
  by (auto simp: convert_def split: kind.splits option.splits if_splits)

lemma take_errors:
  "take_option rnd d x ts ns = Inl e \<Longrightarrow> e = usage_error"
  "take_positional rnd d ts ns = Inl e \<Longrightarrow> e = usage_error"
  by (auto simp: take_option_def take_positional_def Let_def rbind_def dest: convert_errors
      split: count.splits list.splits if_splits sum.splits)

lemma read_tokens_errors:
  "read_tokens rnd pos ts ns ex = Inl e \<Longrightarrow> e \<in> {SystemExit 0, usage_error}"
proof (induction rnd pos ts ns ex rule: read_tokens.induct)
  case (4 rnd pos d x ts ns ex)
  then show ?case by (auto simp: read_tokens.simps(4) dest: take_errors split: sum.splits prod.splits)
next
  case (5 rnd pos s ts ns ex)
  then show ?case by (auto simp: read_tokens.simps(5) dest: take_errors split: sum.splits prod.splits option.splits)
qed (auto split: if_splits)

lemma read_args_errors: "read_args rnd rd args = Inl e \<Longrightarrow> e \<in> {SystemExit 0, usage_error, Beyond_Text}"
  by (auto simp: read_args_def rbind_def dest: classify_all_errors read_tokens_errors split: sum.splits prod.splits if_splits)

lemma descend_errors: "descend names ss ex = Inl e \<Longrightarrow> e \<in> {SystemExit 0, usage_error, Beyond_Text}"
  by (induction names ss ex rule: descend.induct)
    (auto simp: rbind_def dest: classify_errors split: sum.splits token.splits if_splits)

lemma read_with_errors: "read_with rnd subs name args ex = Inl e \<Longrightarrow> e \<in> {SystemExit 0, usage_error, Beyond_Text}"
  by (auto simp: read_with_def rbind_def dest: read_args_errors split: option.splits sum.splits if_splits)

text \<open>A line is a command, a request for help or an error of usage; nothing else has happened by then.\<close>

theorem read_command_errors:
  assumes "read_command rnd token engines n argv = Inl e"
  shows "e \<in> {SystemExit 0, SystemExit 2, Beyond_Text} \<and>
    (ce_rounding c = rnd \<longrightarrow> cli_main c token engines n argv w = (Inl e, w))"
proof -
  have "e \<in> {SystemExit 0, usage_error, Beyond_Text}"
    using assms
    by (auto simp: read_command_def Let_def rbind_def dest: descend_errors read_with_errors
        split: sum.splits prod.splits if_splits)
  then show ?thesis using assms by (auto simp: usage_error_def cli_main_def of_result_def)
qed

text \<open>
  A flag that is passed to the engine begins with dashes itself, and behind \<open>--extra-flag\<close> it is read as
  an option of the supervisor; only the spelling with an equals sign is accepted.
\<close>

lemma dashed_no_value:
  assumes "classify os s = Inr t" and "starts_with ''--'' s" and "CHR '' '' \<notin> set s"
  shows "\<not> (\<exists>v. t = Value v)"
proof -
  have s: "s \<noteq> []" "hd s = CHR ''-''" "s \<noteq> ''-''" "\<not> negative_number s"
    using assms(2) by (auto simp: starts_with_def prefix_def negative_number_def digits_def partition_def Let_def)
  have named: "\<not> (\<exists>v. named_token os n x = Value v)" for n x by (simp add: named_token_def split: option.split)
  show ?thesis
    using assms s named by (auto simp: classify_def Let_def split: if_splits prod.splits list.splits)
qed

lemma extra_flag_with_dashes:
  assumes "classify os s = Inr t" and "starts_with ''--'' s" and "CHR '' '' \<notin> set s"
  shows "read_tokens rnd pos (Option extra_option None # t # ts) ns ex = Inl usage_error"
  using dashed_no_value [OF assms] by (cases t) (simp_all add: read_tokens.simps(4) take_option_def)

section \<open>Properties\<close>

text \<open>
  C38. Whatever can be done can be typed, and is what is done. The line that spells a command is read by
  \<open>main\<close> as that command, with the fields, versions, scopes, gates and urls it names, and runs it: every
  text may hold any characters behind the equals sign of its option, and without an option any that do
  not begin with a dash. The engine has to be one of the engines, a list of fields must not be empty, ids
  are not negative, and a token that is left out must not be set in the process environment.
\<close>

theorem command_read_back:
  assumes "plain_command (ce_rounding c) fr token engines n cmd"
  shows "read_command (ce_rounding c) token engines n (spell fr cmd) = Inr cmd \<and>
    cli_main c token engines n (spell fr cmd) = run_command c cmd"
proof -
  have "read_command (ce_rounding c) token engines n (spell fr cmd) = Inr cmd" by (rule read_spelled [OF assms])
  then show ?thesis by (simp add: cli_main_def andthen_def of_result_def fun_eq_iff)
qed

definition line_shell :: "mock cli_env" where
  "line_shell =
     \<lparr>ce_rounding = Fin, ce_text = \<lparr>gt_repr = (\<lambda>_. ''1''), gt_4g = (\<lambda>_. ''1''), gt_3f = (\<lambda>_. ''1'')\<rparr>,
      ce_manifests = (\<lambda>_. []), ce_endpoint = (\<lambda>_. mock_http Fin (\<lambda>_. ''1'')),
      ce_host = (\<lambda>_. \<lparr>os_spawn = (\<lambda>_. ret ()), os_poll = ret None, os_terminate = ret (), os_wait = ret True, os_kill = ret (),
        os_reap = ret (), os_health = ret True, os_time = ret (Fin 0), os_sleep = (\<lambda>_. ret ())\<rparr>),
      ce_user = ''ops'', ce_server_token = ''t'', ce_python = ''python3'',
      ce_now = ret (Fin 0), ce_fetch = (\<lambda>_. ret []), ce_sleep = (\<lambda>_. ret ()),
      ce_latency = (\<lambda>_. Fin 1), ce_fuel = 1\<rparr>"

theorem command_read_back_witness:
  "cli_main line_shell Unset [''sglang'', ''vllm''] 1
      [''propose'', ''--db=plane.db'', ''--group=g'', ''--reason=-- lower the cap'', ''max_running_requests=8''] =
    cmd_propose line_shell \<lparr>d_db = ''plane.db'', d_token = None, d_group = ''g''\<rparr> [''max_running_requests=8'']
      ''-- lower the cap''"
proof -
  let ?cmd = "Propose \<lparr>d_db = ''plane.db'', d_token = None, d_group = ''g''\<rparr> [''max_running_requests=8''] ''-- lower the cap''"
  have "plain_command (ce_rounding line_shell) (\<lambda>_. []) Unset [''sglang'', ''vllm''] 1 ?cmd"
    by (simp add: plain_db_def plain_kv_def value_like_def)
  from command_read_back [OF this] show ?thesis
    by (simp add: spell_db_def joined_def if_given_def)
qed

end
