(* ===== verification/Bench.thy ===== *)
theory Bench
  imports Json_Text Supervisor Metrics Server
begin

text \<open>
  The measuring scripts (\<open>bench/knob_sweep.py\<close>, \<open>bench/hot_swap_bench.py\<close>,
  \<open>bench/warm_reinit_bench.py\<close>): what each does to the engine, which rows it records, and with which
  status it ends. The clock, the latency an adapter measures, \<open>round(x, 2)\<close> and the formats of the
  printed floats are arguments, and so are the counts of the background load, whose threads are not
  modelled. The numbers an engine reports are integers; anything else is a \<open>TypeError\<close>.
\<close>

section \<open>A script\<close>

record 'e bench_env =
  be_rounding :: rounding
  be_repr :: float_text
  be_exn_text :: "exn \<Rightarrow> string"
  be_http :: "'e http"
  be_manifests :: "(string \<times> string) list"
  be_time :: "('e, pyfloat) stmt"
  be_sleep :: "pyfloat \<Rightarrow> ('e, unit) stmt"
  be_latency :: "apply_result \<Rightarrow> pyfloat"
  be_round2 :: "pyfloat \<Rightarrow> pyfloat"
  be_1f :: float_text
  be_sent :: nat
  be_failed :: nat
  be_fuel :: nat

record 'e bench =
  b_engine :: 'e
  b_out :: string
  b_files :: "string dict"

definition at_engine :: "('e, 'a) stmt \<Rightarrow> ('e bench, 'a) stmt" where
  "at_engine m w = (case m (b_engine w) of (r, e) \<Rightarrow> (r, w\<lparr>b_engine := e\<rparr>))"

definition show_line :: "string \<Rightarrow> ('e bench, unit) stmt" where
  "show_line s w = (Inr (), w\<lparr>b_out := b_out w @ s @ [CHR 0x0A]\<rparr>)"

definition dump_file :: "'e bench_env \<Rightarrow> string \<Rightarrow> json \<Rightarrow> ('e bench, unit) stmt" where
  "dump_file c name v w = (Inr (), w\<lparr>b_files := dset name (dumps_indent (be_repr c) v) (b_files w)\<rparr>)"

definition leave :: "bool \<Rightarrow> ('e bench, unit) stmt" where
  "leave ok = raise (SystemExit (if ok then 0 else 1))"

definition padded :: "nat \<Rightarrow> string \<Rightarrow> string" where
  "padded n s = s @ replicate (n - length s) CHR '' ''"

definition int_value :: "json \<Rightarrow> exn + int" where
  "int_value v = (case v of JInt i \<Rightarrow> Inr i | JBool b \<Rightarrow> Inr (if b then 1 else 0) | _ \<Rightarrow> Inl TypeError)"

definition fields_of :: "json \<Rightarrow> exn + fields" where
  "fields_of v = (case v of JObj d \<Rightarrow> Inr d | _ \<Rightarrow> Inl AttributeError)"

section \<open>The knob sweep\<close>

definition half_of :: "json \<Rightarrow> json" where
  "half_of boot = JInt (max 1 ((case int_value boot of Inr i \<Rightarrow> i | Inl _ \<Rightarrow> 0) div 2))"

text \<open>\<open>SAMPLES\<close>; a boot value that is no integer counts as 0.\<close>

definition samples :: "(json \<Rightarrow> json) dict" where
  "samples =
     [(''max_running_requests'', half_of), (''max_queued_requests'', \<lambda>_. JInt 512),
      (''chunked_prefill_size'', \<lambda>_. JInt 2048), (''max_prefill_tokens'', \<lambda>_. JInt 4096),
      (''schedule_policy'', \<lambda>_. JStr ''lpm''), (''schedule_conservativeness'', \<lambda>_. JFloat (Fin (1 / 2))),
      (''log_level'', \<lambda>_. JStr ''WARNING''), (''max_num_seqs'', half_of), (''max_num_batched_tokens'', half_of),
      (''long_prefill_token_threshold'', \<lambda>_. JInt 2048)]"

record sweep_row =
  sr_knob :: string
  sr_boot :: json
  sr_target :: json
  sr_read_back :: json
  sr_http :: int
  sr_api_ms :: pyfloat
  sr_ok :: bool
  sr_restored :: bool

definition sweep_row_json :: "sweep_row \<Rightarrow> json" where
  "sweep_row_json r =
     JObj [(''knob'', JStr (sr_knob r)), (''boot'', sr_boot r), (''target'', sr_target r),
       (''read_back'', sr_read_back r), (''http'', JInt (sr_http r)), (''api_ms'', JFloat (sr_api_ms r)),
       (''ok'', JBool (sr_ok r)), (''restored'', JBool (sr_restored r))]"

definition same_text :: "float_text \<Rightarrow> json \<Rightarrow> json \<Rightarrow> bool" where
  "same_text fr v w \<longleftrightarrow> lower (str_json fr v) = lower (str_json fr w)"

definition py_bool :: "bool \<Rightarrow> string" where
  "py_bool b = (if b then ''True'' else ''False'')"

definition sweep_line :: "float_text \<Rightarrow> sweep_row \<Rightarrow> string" where
  "sweep_line fr r =
     padded 28 (sr_knob r) @ '' boot='' @ padded 8 (str_json fr (sr_boot r)) @ '' set='' @
     padded 8 (str_json fr (sr_target r)) @ '' read='' @ padded 8 (str_json fr (sr_read_back r)) @
     '' http='' @ show_int (sr_http r) @ '' ok='' @ py_bool (sr_ok r)"

text \<open>One knob: set the sample, read it back, set the boot value again unless there was none.\<close>

definition restore :: "'e adapter \<Rightarrow> string \<Rightarrow> json \<Rightarrow> ('e, bool) stmt" where
  "restore ad k boot =
     (if boot = JNull then ret False else andthen (a_set_hot ad [(k, boot)]) (\<lambda>r. ret (r_ok r)))"

definition sweep_knob :: "'e bench_env \<Rightarrow> 'e adapter \<Rightarrow> string \<Rightarrow> json \<Rightarrow> json \<Rightarrow> ('e, sweep_row) stmt" where
  "sweep_knob c ad k boot target =
     andthen (a_set_hot ad [(k, target)]) (\<lambda>r.
     andthen (a_read_knobs ad) (\<lambda>live.
     andthen (restore ad k boot) (\<lambda>back.
     ret \<lparr>sr_knob = k, sr_boot = boot, sr_target = target, sr_read_back = dget k live, sr_http = r_http_status r,
          sr_api_ms = be_round2 c (be_latency c r),
          sr_ok = (r_ok r \<and> same_text (be_repr c) (dget k live) target), sr_restored = back\<rparr>)))"

fun sweep_loop ::
  "'e bench_env \<Rightarrow> 'e adapter \<Rightarrow> fields \<Rightarrow> string list \<Rightarrow> ('e bench, sweep_row list) stmt" where
  "sweep_loop c ad before [] = ret []"
| "sweep_loop c ad before (k # ks) =
     (case (map_of samples k, map_of before k) of
        (Some f, Some boot) \<Rightarrow>
          andthen (at_engine (sweep_knob c ad k boot (f boot))) (\<lambda>row.
          andthen (show_line (sweep_line (be_repr c) row)) (\<lambda>_.
          andthen (sweep_loop c ad before ks) (\<lambda>rows. ret (row # rows))))
      | _ \<Rightarrow> sweep_loop c ad before ks)"

definition sweep_summary :: "string \<Rightarrow> sweep_row list \<Rightarrow> json" where
  "sweep_summary engine rows =
     JObj [(''engine'', JStr engine), (''knobs_ok'', JInt (int (length (filter sr_ok rows)))),
       (''knobs_total'', JInt (int (length rows))), (''rows'', JArr (map sweep_row_json rows))]"

definition sweep_main :: "'e bench_env \<Rightarrow> string \<Rightarrow> string \<Rightarrow> ('e bench, unit) stmt" where
  "sweep_main c engine out =
     andthen (of_result (make_adapter (be_http c) (be_repr c) engine)) (\<lambda>ad.
     andthen (of_result (find_manifest (be_rounding c) (be_manifests c) engine)) (\<lambda>m.
     andthen (at_engine (a_read_knobs ad)) (\<lambda>before.
     andthen (sweep_loop c ad before (hot_fields m)) (\<lambda>rows.
     andthen (dump_file c out (sweep_summary engine rows)) (\<lambda>_.
     leave (length (filter sr_ok rows) = length rows))))))"

section \<open>The hot-swap bench\<close>

definition swap_cap :: "string \<Rightarrow> string" where
  "swap_cap engine = (if engine = ''sglang'' then ''max_running_requests'' else ''max_num_seqs'')"

definition swap_effect :: "string \<Rightarrow> string" where
  "swap_effect engine = (if engine = ''sglang'' then ''max_running_requests'' else ''max_num_seqs_effective'')"

record swap_args =
  w_name :: string
  w_iters :: nat
  w_low :: int
  w_settle :: pyfloat
  w_gap :: pyfloat
  w_out :: string

record swap_row =
  wr_target :: json
  wr_api_ms :: pyfloat
  wr_effect_ms :: pyfloat
  wr_http :: int
  wr_ok :: bool

definition swap_row_json :: "swap_row \<Rightarrow> json" where
  "swap_row_json r =
     JObj [(''target'', wr_target r), (''api_ms'', JFloat (wr_api_ms r)), (''effect_ms'', JFloat (wr_effect_ms r)),
       (''http'', JInt (wr_http r)), (''ok'', JBool (wr_ok r))]"

text \<open>\<open>d[k]\<close> on the knobs that were read.\<close>

definition knob_at :: "string \<Rightarrow> fields \<Rightarrow> exn + json" where
  "knob_at k d = (case map_of d k of None \<Rightarrow> Inl (KeyError k) | Some v \<Rightarrow> Inr v)"

text \<open>Read the enforced value until it is the target or thirty seconds have gone; \<open>n\<close> is the fuel.\<close>

fun await_effect ::
  "'e bench_env \<Rightarrow> 'e adapter \<Rightarrow> string \<Rightarrow> json \<Rightarrow> pyfloat \<Rightarrow> nat \<Rightarrow> json \<Rightarrow> ('e, json) stmt" where
  "await_effect c ad k target t0 n eff =
     (if py_eq eff target then ret eff
      else andthen (be_time c) (\<lambda>t.
        if \<not> f_lt (f_sub (be_rounding c) t t0) (Fin 30) then ret eff
        else case n of 0 \<Rightarrow> raise Diverged | Suc m \<Rightarrow>
          andthen (a_read_knobs ad) (\<lambda>live.
          andthen (of_result (knob_at k live)) (\<lambda>eff'.
          await_effect c ad k target t0 m eff'))))"

declare await_effect.simps [simp del]

definition swap_once :: "'e bench_env \<Rightarrow> 'e adapter \<Rightarrow> string \<Rightarrow> json \<Rightarrow> ('e, swap_row) stmt" where
  "swap_once c ad engine target =
     andthen (be_time c) (\<lambda>t0.
     andthen (a_set_hot ad [(swap_cap engine, target)]) (\<lambda>r.
     andthen (await_effect c ad (swap_effect engine) target t0 (be_fuel c) JNull) (\<lambda>eff.
     andthen (be_time c) (\<lambda>t1.
     ret \<lparr>wr_target = target, wr_api_ms = be_latency c r,
          wr_effect_ms = f_mul (be_rounding c) (f_sub (be_rounding c) t1 t0) (Fin 1000),
          wr_http = r_http_status r, wr_ok = (r_ok r \<and> py_eq eff target)\<rparr>))))"

definition swap_target :: "swap_args \<Rightarrow> json \<Rightarrow> nat \<Rightarrow> json" where
  "swap_target a boot i = (if i mod 2 = 0 then JInt (w_low a) else boot)"

definition swap_line :: "'e bench_env \<Rightarrow> nat \<Rightarrow> swap_row \<Rightarrow> string" where
  "swap_line c i r =
     ''iter '' @ (let t = show_nat i in replicate (2 - length t) CHR '' '' @ t) @ '' target='' @
     padded 5 (str_json (be_repr c) (wr_target r)) @ '' api='' @ be_1f c (wr_api_ms r) @ ''ms effect='' @
     be_1f c (wr_effect_ms r) @ ''ms http='' @ show_int (wr_http r) @ '' ok='' @ py_bool (wr_ok r)"

fun swap_loop ::
  "'e bench_env \<Rightarrow> 'e adapter \<Rightarrow> swap_args \<Rightarrow> json \<Rightarrow> nat list \<Rightarrow> ('e bench, swap_row list) stmt" where
  "swap_loop c ad a boot [] = ret []"
| "swap_loop c ad a boot (i # is) =
     andthen (at_engine (swap_once c ad (w_name a) (swap_target a boot i))) (\<lambda>row.
     andthen (show_line (swap_line c i row)) (\<lambda>_.
     andthen (at_engine (be_sleep c (w_gap a))) (\<lambda>_.
     andthen (swap_loop c ad a boot is) (\<lambda>rows. ret (row # rows)))))"

text \<open>\<open>statistics.median\<close>, and the 95th percentile as the script computes its index.\<close>

definition median :: "rounding \<Rightarrow> pyfloat list \<Rightarrow> exn + pyfloat" where
  "median rnd xs =
     (let n = length xs; ys = sort xs
      in if n = 0 then Inl (ValueError ''no median for empty data'')
         else if n mod 2 = 1 then Inr (ys ! (n div 2))
         else f_div rnd (f_add rnd (ys ! (n div 2 - 1)) (ys ! (n div 2))) (Fin 2))"

definition p95_index :: "rounding \<Rightarrow> nat \<Rightarrow> exn + int" where
  "p95_index rnd n =
     (case int_of (JFloat (f_mul rnd (Fin (of_nat n)) (rnd (19 / 20)))) of
        Inl e \<Rightarrow> Inl e
      | Inr i \<Rightarrow> Inr (max 0 (i - 1)))"

definition p95 :: "rounding \<Rightarrow> pyfloat list \<Rightarrow> exn + pyfloat" where
  "p95 rnd xs =
     (case p95_index rnd (length xs) of
        Inl e \<Rightarrow> Inl e
      | Inr i \<Rightarrow> if int (length xs) \<le> i then Inl IndexError else Inr (xs ! nat i))"

definition swap_summary ::
  "'e bench_env \<Rightarrow> swap_args \<Rightarrow> json \<Rightarrow> swap_row list \<Rightarrow> exn + fields" where
  "swap_summary c a boot rows =
     (let api = sort (map wr_api_ms rows); eff = sort (map wr_effect_ms rows); rnd = be_rounding c;
          two = (\<lambda>x. JFloat (be_round2 c x))
      in case median rnd api of Inl e \<Rightarrow> Inl e | Inr am \<Rightarrow>
         case p95 rnd api of Inl e \<Rightarrow> Inl e | Inr ap \<Rightarrow>
         case median rnd eff of Inl e \<Rightarrow> Inl e | Inr em \<Rightarrow>
         case p95 rnd eff of Inl e \<Rightarrow> Inl e | Inr ep \<Rightarrow>
         Inr [(''engine'', JStr (w_name a)), (''cap_knob'', JStr (swap_cap (w_name a))), (''boot_value'', boot),
           (''iters'', JInt (int (length rows))), (''all_ok'', JBool (list_all wr_ok rows)),
           (''api_ms_median'', two am), (''api_ms_p95'', two ap), (''effect_ms_median'', two em),
           (''effect_ms_p95'', two ep), (''background_completed'', JInt (int (be_sent c))),
           (''background_failed'', JInt (int (be_failed c))), (''rows'', JArr (map swap_row_json rows))])"

definition without_rows :: "fields \<Rightarrow> json" where
  "without_rows d = JObj (filter (\<lambda>(k, v). k \<noteq> ''rows'') d)"

definition swap_main :: "'e bench_env \<Rightarrow> swap_args \<Rightarrow> ('e bench, unit) stmt" where
  "swap_main c a =
     andthen (of_result (make_adapter (be_http c) (be_repr c) (w_name a))) (\<lambda>ad.
     andthen (at_engine (a_read_knobs ad)) (\<lambda>live.
     andthen (of_result (knob_at (swap_cap (w_name a)) live)) (\<lambda>boot.
     andthen (show_line (''engine='' @ w_name a @ '' boot '' @ swap_cap (w_name a) @ ''='' @ str_json (be_repr c) boot)) (\<lambda>_.
     andthen (at_engine (be_sleep c (w_settle a))) (\<lambda>_.
     andthen (swap_loop c ad a boot [0..<w_iters a]) (\<lambda>rows.
     andthen (at_engine (be_sleep c (Fin 3))) (\<lambda>_.
     andthen (of_result (swap_summary c a boot rows)) (\<lambda>summary.
     andthen (dump_file c (w_out a) (JObj summary)) (\<lambda>_.
     andthen (show_line (dumps_indent (be_repr c) (without_rows summary))) (\<lambda>_.
     leave (list_all wr_ok rows)))))))))))"

section \<open>The warm-reinit bench\<close>

definition generate_ok :: "int \<times> json \<Rightarrow> exn + json" where
  "generate_ok p = (if 200 \<le> fst p \<and> fst p < 300 then Inr (snd p) else Inl (HTTPError (fst p)))"

definition text_in :: "string \<Rightarrow> json \<Rightarrow> exn + json" where
  "text_in engine v =
     (if engine = ''sglang'' then rbind (as_obj v) (need ''text'')
      else rbind (as_obj v) (\<lambda>d. rbind (need ''choices'' d) (\<lambda>cs.
        case cs of JArr [] \<Rightarrow> Inl IndexError | JArr (x # _) \<Rightarrow> rbind (as_obj x) (need ''text'') | _ \<Rightarrow> Inl TypeError)))"

definition prompt :: "string \<Rightarrow> string \<times> json" where
  "prompt engine =
     (if engine = ''sglang''
      then (''/generate'', JObj [(''text'', JStr ''The ship turned when''),
        (''sampling_params'', JObj [(''max_new_tokens'', JInt 16), (''temperature'', JInt 0)])])
      else (''/v1/completions'', JObj [(''model'', JStr ''default''), (''prompt'', JStr ''The ship turned when''),
        (''max_tokens'', JInt 16), (''temperature'', JInt 0)]))"

definition generate :: "'e http \<Rightarrow> string \<Rightarrow> ('e, json) stmt" where
  "generate h engine =
     andthen (h_post h (fst (prompt engine)) (snd (prompt engine))) (\<lambda>p.
     of_result (rbind (generate_ok p) (text_in engine)))"

text \<open>A reader of the engine's raw state, and the plan made from it.\<close>

definition read_raw :: "'e http \<Rightarrow> string \<Rightarrow> ('e, json) stmt" where
  "read_raw h engine = (if engine = ''sglang'' then sglang_read_raw h else vllm_read_raw h)"

text \<open>A literal such as \<open>0.75\<close>.\<close>

definition fraction :: "rounding \<Rightarrow> rat \<Rightarrow> json" where
  "fraction rnd q = JFloat (rnd q)"

record warm_plan =
  p_tokens :: json
  p_cap :: json
  p_steps :: "fields list"

definition warm_plan_for :: "rounding \<Rightarrow> string \<Rightarrow> fields \<Rightarrow> exn + warm_plan" where
  "warm_plan_for rnd engine raw =
     (if engine = ''sglang'' then
        rbind (need ''max_total_num_tokens'' raw) (\<lambda>tokens.
        rbind (need ''max_running_requests'' raw) (\<lambda>cap.
        rbind (int_value tokens) (\<lambda>t. rbind (int_value cap) (\<lambda>m.
        Inr \<lparr>p_tokens = tokens, p_cap = cap, p_steps =
          [[(''mem_fraction_static'', fraction rnd (3 / 4))],
           [(''max_total_tokens'', JInt (max 4096 (t div 4))), (''max_running_requests'', JInt (max 1 (m div 2)))],
           [(''mem_fraction_static'', fraction rnd (17 / 20))]]\<rparr>))))
      else
        rbind (need ''max_num_seqs'' raw) (\<lambda>cap.
        rbind (int_value cap) (\<lambda>m.
        Inr \<lparr>p_tokens = dget ''num_gpu_blocks'' raw, p_cap = cap, p_steps =
          [[(''gpu_memory_utilization'', fraction rnd (7 / 10))],
           [(''gpu_memory_utilization'', fraction rnd (3 / 5)), (''max_num_seqs'', JInt (max 1 (m div 2)))],
           [(''gpu_memory_utilization'', fraction rnd (17 / 20)), (''max_num_seqs'', cap)]]\<rparr>)))"

definition size_key :: "string \<Rightarrow> string" where
  "size_key engine = (if engine = ''sglang'' then ''max_total_num_tokens'' else ''num_gpu_blocks'')"

record warm_row =
  y_fields :: fields
  y_ok :: bool
  y_http :: int
  y_engine :: json
  y_call_s :: pyfloat
  y_first_token_s :: pyfloat
  y_tokens_after :: json
  y_cap_after :: json
  y_generated :: bool
  y_sample :: json

definition warm_row_fields :: "warm_row \<Rightarrow> fields" where
  "warm_row_fields r =
     [(''fields'', JObj (y_fields r)), (''ok'', JBool (y_ok r)), (''http'', JInt (y_http r)), (''engine'', y_engine r),
      (''call_s'', JFloat (y_call_s r)), (''call_to_first_token_s'', JFloat (y_first_token_s r)),
      (''max_total_num_tokens_after'', y_tokens_after r), (''max_running_requests_after'', y_cap_after r),
      (''generate_ok'', JBool (y_generated r)), (''sample'', y_sample r)]"

definition clip :: "json \<Rightarrow> exn + json" where
  "clip v = (case v of JStr s \<Rightarrow> Inr (JStr (take 60 s)) | JArr xs \<Rightarrow> Inr (JArr (take 60 xs)) | _ \<Rightarrow> Inl TypeError)"

text \<open>The \<open>try\<close> around the generation: its text and whether there is one, or the text of the exception.\<close>

definition try_generate :: "'e bench_env \<Rightarrow> string \<Rightarrow> ('e, json \<times> bool) stmt" where
  "try_generate c engine e =
     (case generate (be_http c) engine e of
        (Inl x, e') \<Rightarrow> (Inr (JStr (''generate failed: '' @ be_exn_text c x), False), e')
      | (Inr t, e') \<Rightarrow> (Inr (t, truthy t), e'))"

definition field_after :: "string \<Rightarrow> json \<Rightarrow> fields \<Rightarrow> json" where
  "field_after k dflt d = (case map_of d k of None \<Rightarrow> dflt | Some v \<Rightarrow> v)"

definition warm_once :: "'e bench_env \<Rightarrow> 'e adapter \<Rightarrow> string \<Rightarrow> fields \<Rightarrow> ('e, warm_row) stmt" where
  "warm_once c ad engine flds =
     andthen (be_time c) (\<lambda>t0.
     andthen (a_reinit_warm ad flds) (\<lambda>r.
     andthen (be_time c) (\<lambda>t1.
     andthen (try_generate c engine) (\<lambda>(text, gen_ok).
     andthen (be_time c) (\<lambda>t2.
     andthen (read_raw (be_http c) engine) (\<lambda>raw.
     andthen (of_result (fields_of raw)) (\<lambda>after.
     andthen (of_result (clip text)) (\<lambda>sample.
     ret \<lparr>y_fields = flds, y_ok = r_ok r, y_http = r_http_status r, y_engine = dget ''last_reinit'' (r_applied r),
          y_call_s = be_round2 c (f_sub (be_rounding c) t1 t0),
          y_first_token_s = be_round2 c (f_sub (be_rounding c) t2 t0),
          y_tokens_after = dget (size_key engine) after,
          y_cap_after = field_after ''max_running_requests'' (dget ''max_num_seqs'' after) after,
          y_generated = gen_ok, y_sample = sample\<rparr>))))))))"

text \<open>The loop stops after the first row that is not all right.\<close>

fun warm_loop :: "'e bench_env \<Rightarrow> 'e adapter \<Rightarrow> string \<Rightarrow> fields list \<Rightarrow> ('e bench, warm_row list) stmt" where
  "warm_loop c ad engine [] = ret []"
| "warm_loop c ad engine (flds # plan) =
     andthen (at_engine (warm_once c ad engine flds)) (\<lambda>row.
     andthen (show_line (dumps (be_repr c) (JObj (filter (\<lambda>(k, v). k \<noteq> ''sample'') (warm_row_fields row))))) (\<lambda>_.
     if y_ok row \<and> y_generated row
     then andthen (warm_loop c ad engine plan) (\<lambda>rows. ret (row # rows))
     else ret [row]))"

definition warm_all_ok :: "fields list \<Rightarrow> warm_row list \<Rightarrow> bool" where
  "warm_all_ok plan rows \<longleftrightarrow> list_all (\<lambda>r. y_ok r \<and> y_generated r) rows \<and> length rows = length plan"

definition warm_summary :: "warm_plan \<Rightarrow> warm_row list \<Rightarrow> fields" where
  "warm_summary p rows =
     [(''boot_max_total_num_tokens'', p_tokens p), (''boot_max_running_requests'', p_cap p),
      (''all_ok'', JBool (warm_all_ok (p_steps p) rows)), (''rows'', JArr (map (JObj \<circ> warm_row_fields) rows))]"

definition warm_main :: "'e bench_env \<Rightarrow> string \<Rightarrow> string \<Rightarrow> ('e bench, unit) stmt" where
  "warm_main c engine out =
     andthen (of_result (make_adapter (be_http c) (be_repr c) engine)) (\<lambda>ad.
     andthen (at_engine (read_raw (be_http c) engine)) (\<lambda>raw.
     andthen (of_result (rbind (as_obj raw) (warm_plan_for (be_rounding c) engine))) (\<lambda>p.
     andthen (show_line (''boot '' @ size_key engine @ ''='' @ str_json (be_repr c) (p_tokens p) @ '' cap='' @
       str_json (be_repr c) (p_cap p))) (\<lambda>_.
     andthen (warm_loop c ad engine (p_steps p)) (\<lambda>rows.
     andthen (dump_file c out (JObj (warm_summary p rows))) (\<lambda>_.
     andthen (show_line (dumps (be_repr c) (without_rows (warm_summary p rows)))) (\<lambda>_.
     leave (warm_all_ok (p_steps p) rows))))))))"

end
