(* ===== verification/Mock_Types.thy ===== *)
theory Mock_Types
  imports Adapter_Contracts
begin

text \<open>
  The types of the mock engine's knobs: whatever is sent to it, it keeps the knobs it booted with
  and each keeps a value of its kind. A well-typed engine decides on every value it holds itself.
\<close>

section \<open>The type of a knob\<close>

definition knob_typed :: "string \<Rightarrow> json \<Rightarrow> bool" where
  "knob_typed k v =
     (case map_of str_choices k of
        Some cs \<Rightarrow> (case v of JStr t \<Rightarrow> lower t \<in> set (map lower cs) | _ \<Rightarrow> False)
      | None \<Rightarrow>
          if k = ''schedule_conservativeness'' then (case v of JFloat x \<Rightarrow> True | _ \<Rightarrow> False)
          else (case v of JInt i \<Rightarrow> True | _ \<Rightarrow> False))"

definition typed_knobs :: "string list \<Rightarrow> mock \<Rightarrow> bool" where
  "typed_knobs ks s \<longleftrightarrow>
     keys (mk_knobs s) = ks \<and> (\<forall>k v. map_of (mk_knobs s) k = Some v \<longrightarrow> knob_typed k v)"

lemma typed_set_knob:
  "typed_knobs ks s \<Longrightarrow> k \<in> set ks \<Longrightarrow> knob_typed k v \<Longrightarrow> typed_knobs ks (set_knob k v s)"
  by (auto simp: typed_knobs_def set_knob_def keys_dset)

lemma typed_other [simp]:
  "typed_knobs ks (set_tokens i s) = typed_knobs ks s"
  "typed_knobs ks (s\<lparr>mk_last_reinit := j\<rparr>) = typed_knobs ks s"
  "typed_knobs ks (s\<lparr>mk_applied_calls := n\<rparr>) = typed_knobs ks s"
  by (simp_all add: typed_knobs_def set_tokens_def)

lemma plain_typed: "plain_knob k \<Longrightarrow> knob_typed k (JInt i)"
  by (simp add: plain_knob_def knob_typed_def)

lemma typed_set_sized:
  "typed_knobs ks s \<Longrightarrow> k \<in> set ks \<Longrightarrow> plain_knob k \<Longrightarrow> typed_knobs ks (set_sized k i s)"
  using typed_set_knob [of ks s k "JInt i"]
  by (simp add: plain_typed typed_knobs_def set_knob_def set_sized_def)

text \<open>What \<open>apply\<close> stores has the type of its knob.\<close>

lemma apply_value_typed:
  assumes "apply_value rnd fr s k v = Inr (Inr w)"
  shows "knob_typed k w"
proof (cases "map_of str_choices k")
  case (Some cs)
  then show ?thesis
    using assms by (auto simp: apply_value_def knob_typed_def lower_upper split: if_splits)
next
  case None
  show ?thesis
  proof (cases "k = ''schedule_conservativeness''")
    case True
    obtain x where "w = JFloat x"
      using assms None unfolding True by (simp add: apply_value_def split: if_splits option.splits sum.splits) blast
    with None True show ?thesis by (simp add: knob_typed_def)
  next
    case False
    with None have "plain_knob k" by (simp add: plain_knob_def)
    then show ?thesis using apply_value_plain [OF assms] plain_typed by metis
  qed
qed

lemma typed_apply_loop:
  "typed_knobs ks s \<Longrightarrow> typed_knobs ks (snd (apply_loop rnd fr cs applied rejected s))"
proof (induction rnd fr cs applied rejected s rule: apply_loop.induct)
  case (2 rnd fr k v cs applied rejected s)
  have "typed_knobs ks (set_knob k w s)" if "apply_value rnd fr s k v = Inr (Inr w)" for w
    using apply_value_known [OF that] apply_value_typed [OF that] 2(3)
    by (intro typed_set_knob) (auto simp: typed_knobs_def)
  with 2 show ?case by (auto split: sum.split)
qed simp

section \<open>Every request keeps the types\<close>

text \<open>The sizes a reinit may set are knobs of the engine that has them.\<close>

definition sized_knobs :: "string \<Rightarrow> string list" where
  "sized_knobs engine = filter (\<lambda>k. k \<in> set ceiling_names) (reinit_allowed engine)"

definition knob_names :: "string \<Rightarrow> string list" where
  "knob_names engine = keys (boot_knobs engine 0 0 0 0)"

lemma keys_boot_knobs: "keys (boot_knobs engine mrr mqr cps tokens) = knob_names engine"
  by (simp add: knob_names_def boot_knobs_def keys_def)

definition typed_mock :: "string \<Rightarrow> mock \<Rightarrow> bool" where
  "typed_mock engine s \<longleftrightarrow> mk_engine s = engine \<and> typed_knobs (knob_names engine) s"

lemma keeps_typed_sized:
  assumes "map_of flds k \<noteq> None \<Longrightarrow> k \<in> set (knob_names engine)" and "plain_knob k"
  shows "keeps (typed_mock engine) (when_int k flds (set_sized k))"
proof -
  have "typed_mock engine (set_sized k i s)" if "typed_mock engine s" "map_of flds k \<noteq> None" for i s
    using that assms typed_set_sized [of "knob_names engine" s k i]
    by (simp add: typed_mock_def) (simp add: set_sized_def)
  then show ?thesis by (auto simp: keeps_def when_int_def split: option.splits sum.splits)
qed

lemma keeps_typed_pool: "keeps (typed_mock engine) (when_int ''max_total_tokens'' flds resize_pool)"
proof (rule keeps_when_int)
  fix i s assume s: "typed_mock engine s"
  have tok: "typed_mock engine (set_tokens i s)"
    using s by (simp add: typed_mock_def) (simp add: set_tokens_def)
  have "typed_mock engine (set_sized ''max_prefill_tokens'' i (set_tokens i s))"
    if "map_of (mk_knobs (set_tokens i s)) ''max_prefill_tokens'' \<noteq> None"
  proof -
    have "mk_knobs (set_tokens i s) = mk_knobs s" by (simp add: set_tokens_def)
    then have "''max_prefill_tokens'' \<in> set (keys (mk_knobs s))" using that by (simp only: map_of_keys_None not_not)
    then have "''max_prefill_tokens'' \<in> set (knob_names engine)"
      using s by (simp only: typed_mock_def typed_knobs_def)
    then have "typed_knobs (knob_names engine) (set_sized ''max_prefill_tokens'' i (set_tokens i s))"
      using s by (intro typed_set_sized) (simp_all add: typed_mock_def ceiling_plain ceiling_names_def)
    then show ?thesis using s by (simp add: typed_mock_def set_sized_def set_tokens_def)
  qed
  then show "typed_mock engine (resize_pool i s)"
    using tok by (simp add: resize_pool_def Let_def)
qed

lemma sized_names:
  "''max_running_requests'' \<in> set (reinit_allowed engine) \<Longrightarrow> ''max_running_requests'' \<in> set (knob_names engine)"
  "''max_num_seqs'' \<in> set (reinit_allowed engine) \<Longrightarrow> ''max_num_seqs'' \<in> set (knob_names engine)"
  "''max_num_batched_tokens'' \<in> set (reinit_allowed engine) \<Longrightarrow> ''max_num_batched_tokens'' \<in> set (knob_names engine)"
  by (cases "engine = ''sglang''"; simp add: reinit_allowed_def knob_names_def boot_knobs_def)+

lemma reinit_names:
  assumes "filter (\<lambda>k. k \<notin> set (reinit_allowed engine)) (remdups (keys flds)) = []"
    and "map_of flds k \<noteq> None" and "k \<in> {''max_running_requests'', ''max_num_seqs'', ''max_num_batched_tokens''}"
  shows "k \<in> set (knob_names engine)"
proof -
  have "k \<in> set (reinit_allowed engine)"
    using assms(1,2) by (auto simp: filter_empty_conv) (metis map_of_keys_None option.distinct(1))
  with assms(3) show ?thesis by (elim insertE emptyE) (simp_all add: sized_names)
qed

lemma keeps_typed_reinit: "keeps (typed_mock engine) (reinit rnd flds)"
  unfolding keeps_def
proof (intro allI impI)
  fix s assume s: "typed_mock engine s"
  then have eng: "mk_engine s = engine" by (simp add: typed_mock_def)
  show "typed_mock engine (snd (reinit rnd flds s))"
  proof (cases "filter (\<lambda>k. k \<notin> set (reinit_allowed engine)) (remdups (keys flds)) = []")
    case True
    note names = reinit_names [OF True]
    have sized: "keeps (typed_mock engine) (when_int k flds (set_sized k))"
      if "k \<in> {''max_running_requests'', ''max_num_seqs'', ''max_num_batched_tokens''}" for k
      using that names [of k]
      by (intro keeps_typed_sized) (auto simp: ceiling_plain ceiling_names_def)
    have frac: "keeps (typed_mock engine) (when_fraction rnd flds)"
      by (auto simp: keeps_def when_fraction_def typed_mock_def set_tokens_def typed_knobs_def
          split: option.splits sum.splits)
    have rec: "keeps (typed_mock engine) (record_reinit rnd flds)"
      by (simp add: keeps_def record_reinit_def Let_def typed_mock_def)
    have "keeps (typed_mock engine) (andthen (when_int ''max_total_tokens'' flds resize_pool) (\<lambda>_.
        andthen (when_int ''max_running_requests'' flds (set_sized ''max_running_requests'')) (\<lambda>_.
        andthen (when_int ''max_num_seqs'' flds (set_sized ''max_num_seqs'')) (\<lambda>_.
        andthen (when_int ''max_num_batched_tokens'' flds (set_sized ''max_num_batched_tokens'')) (\<lambda>_.
        andthen (when_fraction rnd flds) (\<lambda>_. record_reinit rnd flds))))))"
      by (intro keeps_andthen keeps_typed_pool frac rec sized) simp_all
    then show ?thesis using s True eng by (simp add: keeps_def reinit_def Let_def)
  next
    case False
    then have "sort (filter (\<lambda>k. k \<notin> set (reinit_allowed engine)) (remdups (keys flds))) \<noteq> []"
      by (metis set_empty set_sort)
    then show ?thesis using s eng by (simp add: reinit_def Let_def)
  qed
qed

lemma keeps_typed_apply: "keeps (typed_mock engine) (apply_changes rnd fr changes)"
proof -
  have loop: "keeps (typed_mock engine) (apply_loop rnd fr cs a r)" for cs a r
    using typed_apply_loop [of "knob_names engine" _ rnd fr cs a r] apply_loop_same [of rnd fr cs a r]
    by (auto simp: keeps_def typed_mock_def)
  have count: "keeps (typed_mock engine) (count_call r)" for r
    by (simp add: keeps_def count_call_def typed_mock_def)
  show ?thesis
    unfolding apply_changes_def
    by (auto intro!: keeps_andthen loop count keeps_typed_reinit)
qed

lemma keeps_typed_post: "keeps (typed_mock engine) (mock_post rnd fr path payload)"
proof -
  have "keeps (typed_mock engine) (post_internal_state rnd fr payload)"
    "keeps (typed_mock engine) (post_reinit rnd payload)"
    "keeps (typed_mock engine) (post_set_knobs rnd fr payload)"
    unfolding post_internal_state_def post_reinit_def post_set_knobs_def
    by (intro keeps_andthen keeps_ret keeps_typed_apply keeps_typed_reinit)+
  then show ?thesis
    unfolding mock_post_def by (intro keeps_handled) (simp add: keeps_def)
qed

lemma typed_serve: "typed_mock engine s \<Longrightarrow> typed_mock engine (serve rnd fr rs s)"
  using keeps_typed_post
  by (induction rnd fr rs s rule: serve.induct) (auto simp: keeps_def)

lemma typed_make_mock: "typed_mock engine (make_mock engine mrr mqr cps tokens)"
proof -
  have "list_all (\<lambda>(k, v). knob_typed k v) (boot_knobs engine mrr mqr cps tokens)"
    by (simp add: boot_knobs_def knob_typed_def str_choices_def)
  then have "map_of (boot_knobs engine mrr mqr cps tokens) k = Some v \<Longrightarrow> knob_typed k v" for k v
    by (auto simp: list_all_iff dest!: map_of_SomeD)
  then show ?thesis by (simp add: typed_mock_def typed_knobs_def make_mock_def Let_def keys_boot_knobs)
qed

text \<open>
  C39. The knobs of an engine are well typed for ever. Whatever sequence of requests it is sent, hot or
  warm, well formed or not, it has the knobs it booted with, in their order, and no other; the
  scheduling policy and the log level are texts among their choices, the conservativeness is a float,
  and every other knob an integer.
\<close>

theorem knobs_keep_types:
  "let s = serve rnd fr requests (make_mock engine mrr mqr cps tokens) in
   keys (mk_knobs s) = keys (boot_knobs engine mrr mqr cps tokens) \<and>
   list_all (\<lambda>(k, v). knob_typed k v) (mk_knobs s)"
proof -
  define s where "s = serve rnd fr requests (make_mock engine mrr mqr cps tokens)"
  have "typed_mock engine s" unfolding s_def by (intro typed_serve typed_make_mock)
  then have ks: "keys (mk_knobs s) = knob_names engine"
    and ty: "\<And>k v. map_of (mk_knobs s) k = Some v \<Longrightarrow> knob_typed k v"
    by (simp_all add: typed_mock_def typed_knobs_def)
  have "wf_dict (mk_knobs s)" by (simp add: wf_dict_def ks knob_names_def boot_knobs_def)
  then have "list_all (\<lambda>(k, v). knob_typed k v) (mk_knobs s)"
    by (auto simp: list_all_iff intro: ty map_of_wf)
  then show ?thesis using ks by (simp add: keys_boot_knobs Let_def flip: s_def)
qed

end
