(* ===== verification/Bench_Facts.thy ===== *)
theory Bench_Facts
  imports Bench Mock_Types
begin

text \<open>
  What a knob sweep does to an engine: the locale \<open>probed_adapter\<close> states what a push of one knob
  does through an adapter, both adapters keep it against the mock engine, and the whole script then
  follows by induction over the knobs.
\<close>

section \<open>One push\<close>

lemma set_knob_twice: "set_knob k v (set_knob k w s) = set_knob k v s"
  by (simp add: set_knob_def dset_dset)

definition called :: "mock \<Rightarrow> mock" where
  "called s = s\<lparr>mk_applied_calls := Suc (mk_applied_calls s)\<rparr>"

text \<open>Which values the engine takes for a knob, and what it stores.\<close>

definition stored :: "rounding \<Rightarrow> float_text \<Rightarrow> mock \<Rightarrow> string \<Rightarrow> json \<Rightarrow> json option" where
  "stored rnd fr s k v = (case apply_value rnd fr s k v of Inr (Inr w) \<Rightarrow> Some w | _ \<Rightarrow> None)"

definition pushed :: "rounding \<Rightarrow> float_text \<Rightarrow> string \<Rightarrow> json \<Rightarrow> mock \<Rightarrow> mock" where
  "pushed rnd fr k v s = called (case stored rnd fr s k v of None \<Rightarrow> s | Some w \<Rightarrow> set_knob k w s)"

definition decided :: "rounding \<Rightarrow> float_text \<Rightarrow> mock \<Rightarrow> string \<Rightarrow> json \<Rightarrow> bool" where
  "decided rnd fr s k v \<longleftrightarrow> (case apply_value rnd fr s k v of Inl e \<Rightarrow> False | Inr r \<Rightarrow> True)"

definition same_limits :: "mock \<Rightarrow> mock \<Rightarrow> bool" where
  "same_limits s t \<longleftrightarrow>
     mk_engine t = mk_engine s \<and> keys (mk_knobs t) = keys (mk_knobs s) \<and> mk_ceilings t = mk_ceilings s \<and>
     mk_tokens t = mk_tokens s \<and> mk_last_reinit t = mk_last_reinit s"

lemma same_limits_refl [simp]: "same_limits s s"
  by (simp add: same_limits_def)

lemma same_limits_trans: "same_limits s t \<Longrightarrow> same_limits t u \<Longrightarrow> same_limits s u"
  by (simp add: same_limits_def)

lemma stored_known: "stored rnd fr s k v = Some w \<Longrightarrow> k \<in> set (keys (mk_knobs s))"
  by (auto simp: stored_def dest: apply_value_known split: sum.splits)

lemma same_limits_pushed: "same_limits s (pushed rnd fr k v s)"
  using stored_known [of rnd fr s k v] set_knob_keys [of k s]
  by (auto simp: same_limits_def pushed_def called_def set_knob_def split: option.split)

lemma same_limits_verdict:
  "same_limits s t \<Longrightarrow> apply_value rnd fr t = apply_value rnd fr s"
  by (rule apply_value_cong) (simp_all add: same_limits_def)

lemma same_limits_stored: "same_limits s t \<Longrightarrow> stored rnd fr t = stored rnd fr s"
  by (intro ext) (simp add: stored_def same_limits_verdict)

lemma apply_changes_single:
  assumes "\<not> is_reinit_key k" and "decided rnd fr s k v"
  shows "apply_changes rnd fr [(k, v)] s =
    (case apply_value rnd fr s k v of
       Inr (Inr w) \<Rightarrow> (Inr ([(k, w)], []), pushed rnd fr k v s)
     | Inr (Inl why) \<Rightarrow> (Inr ([], [(k, JStr why)]), pushed rnd fr k v s)
     | Inl e \<Rightarrow> (Inl e, s))"
proof -
  have "hot_changes [(k, v)]" using assms(1) by (simp add: hot_changes_def wf_dict_def)
  then show ?thesis
    using assms(2)
    by (simp add: apply_changes_hot decided_def pushed_def stored_def count_call_def called_def split: sum.split)
qed

section \<open>The samples\<close>

text \<open>The sweep never raises on its own samples.\<close>

lemma decided_int: "plain_knob k \<Longrightarrow> decided rnd fr s k (JInt i)"
  by (simp add: decided_def apply_value_def plain_knob_def is_num_def Let_def)

lemma decided_choice: "map_of str_choices k \<noteq> None \<Longrightarrow> decided rnd fr s k v"
  by (cases "map_of str_choices k") (simp_all add: decided_def apply_value_def)

lemma decided_float: "decided rnd fr s ''schedule_conservativeness'' (JFloat x)"
  by (simp add: decided_def apply_value_def str_choices_def)

lemma plain_names:
  "list_all plain_knob [''max_running_requests'', ''max_queued_requests'', ''chunked_prefill_size'',
     ''max_prefill_tokens'', ''max_num_seqs'', ''max_num_batched_tokens'', ''long_prefill_token_threshold'']"
  by (simp add: plain_knob_def str_choices_def)
lemma half_of_decided: "plain_knob k \<Longrightarrow> decided rnd fr s k (half_of boot)"
  by (simp add: half_of_def decided_int)
lemma sample_knobs:
  "list_all (\<lambda>(k, f). \<not> is_reinit_key k \<and> k \<notin> set sglang_hidden \<and> k \<notin> set vllm_hidden \<and>
     k \<noteq> ''max_num_seqs_effective'') samples"
  by (simp add: samples_def is_reinit_key_def starts_with_def sglang_hidden_def vllm_hidden_def)

lemma sample_decided:
  assumes "map_of samples k = Some f"
  shows "decided rnd fr s k (f boot)"
proof -
  note plain = plain_names [simplified list.pred_inject simp_thms]
  have choice: "map_of str_choices ''schedule_policy'' \<noteq> None" "map_of str_choices ''log_level'' \<noteq> None"
    by (simp_all add: str_choices_def)
  have "list_all (\<lambda>(k, f). decided rnd fr s k (f boot)) samples"
    unfolding samples_def list.pred_inject prod.case
    using plain by (simp add: decided_float decided_int half_of_decided decided_choice [OF choice(1)] decided_choice [OF choice(2)])
  then show ?thesis using assms by (auto simp: list_all_iff dest!: map_of_SomeD)
qed

section \<open>The contract of a sweep\<close>

locale probed_adapter =
  fixes rnd :: rounding and fr :: float_text
    and ad :: "mock adapter"
    and ready :: "mock \<Rightarrow> bool"
    and confirms :: "json \<Rightarrow> json \<Rightarrow> bool"
  assumes push: "ready s \<Longrightarrow> \<not> is_reinit_key k \<Longrightarrow> decided rnd fr s k v \<Longrightarrow>
      \<exists>r. a_set_hot ad [(k, v)] s = (Inr r, pushed rnd fr k v s) \<and>
        r_ok r = (case stored rnd fr s k v of None \<Rightarrow> False | Some w \<Rightarrow> confirms w v)"
    and read: "ready s \<Longrightarrow> \<exists>live. a_read_knobs ad s = (Inr live, s) \<and>
        (\<forall>k \<in> set (keys samples). map_of live k = map_of (mk_knobs s) k)"
    and ready_limits: "ready s \<Longrightarrow> same_limits s t \<Longrightarrow> ready t"

text \<open>
  A push of a value the engine keeps as it is: every knob but an unset one is steady.
\<close>

definition steady :: "rounding \<Rightarrow> float_text \<Rightarrow> mock \<Rightarrow> bool" where
  "steady rnd fr s \<longleftrightarrow> list_all (\<lambda>(k, v). v = JNull \<or> stored rnd fr s k v = Some v) (mk_knobs s)"

text \<open>What one knob of the sweep leaves: its boot value, or the sample where there was none.\<close>

definition left_by :: "rounding \<Rightarrow> float_text \<Rightarrow> mock \<Rightarrow> string \<Rightarrow> (json \<Rightarrow> json) \<Rightarrow> json \<Rightarrow> json" where
  "left_by rnd fr s k f boot =
     (if boot = JNull then (case stored rnd fr s k (f boot) of None \<Rightarrow> boot | Some w \<Rightarrow> w) else boot)"

text \<open>When a row of the sweep is right.\<close>

definition row_right ::
  "rounding \<Rightarrow> float_text \<Rightarrow> float_text \<Rightarrow> (json \<Rightarrow> json \<Rightarrow> bool) \<Rightarrow> mock \<Rightarrow> string \<Rightarrow> json \<Rightarrow> bool" where
  "row_right rnd fr rp confirms s k target \<longleftrightarrow>
     (case stored rnd fr s k target of
        None \<Rightarrow> False | Some w \<Rightarrow> confirms w target \<and> same_text rp w target)"

text \<open>What a row of the sweep tells of the engine it began with.\<close>

definition row_tells ::
  "rounding \<Rightarrow> float_text \<Rightarrow> float_text \<Rightarrow> (json \<Rightarrow> json \<Rightarrow> bool) \<Rightarrow> mock \<Rightarrow> sweep_row \<Rightarrow> bool" where
  "row_tells rnd fr rp confirms s row \<longleftrightarrow>
     (case (map_of samples (sr_knob row), map_of (mk_knobs s) (sr_knob row)) of
        (Some f, Some boot) \<Rightarrow>
          sr_boot row = boot \<and> sr_target row = f boot \<and>
          sr_ok row = row_right rnd fr rp confirms s (sr_knob row) (f boot) \<and>
          sr_restored row = (boot \<noteq> JNull \<and> confirms boot boot)
      | _ \<Rightarrow> False)"

definition swept :: "fields \<Rightarrow> string \<Rightarrow> bool" where
  "swept before k \<longleftrightarrow> map_of samples k \<noteq> None \<and> map_of before k \<noteq> None"

definition swept_value :: "rounding \<Rightarrow> float_text \<Rightarrow> mock \<Rightarrow> string \<Rightarrow> json \<Rightarrow> json" where
  "swept_value rnd fr s k v = (case map_of samples k of None \<Rightarrow> v | Some f \<Rightarrow> left_by rnd fr s k f v)"

lemma left_by_limits: "same_limits s t \<Longrightarrow> left_by rnd fr t = left_by rnd fr s"
  by (intro ext) (simp add: left_by_def same_limits_stored)

lemma swept_value_limits: "same_limits s t \<Longrightarrow> swept_value rnd fr t = swept_value rnd fr s"
  by (intro ext) (simp add: swept_value_def left_by_limits split: option.split)

lemma row_tells_limits:
  assumes "same_limits s t" and "map_of (mk_knobs t) (sr_knob row) = map_of (mk_knobs s) (sr_knob row)"
  shows "row_tells rnd fr rp confirms t row = row_tells rnd fr rp confirms s row"
  by (simp only: row_tells_def row_right_def assms(2) same_limits_stored [OF assms(1)])

definition steady_on :: "rounding \<Rightarrow> float_text \<Rightarrow> mock \<Rightarrow> string set \<Rightarrow> bool" where
  "steady_on rnd fr s ks \<longleftrightarrow>
     (\<forall>k \<in> ks. \<forall>v. map_of (mk_knobs s) k = Some v \<longrightarrow> v = JNull \<or> stored rnd fr s k v = Some v)"

lemma steady_everywhere: "steady rnd fr s \<Longrightarrow> steady_on rnd fr s ks"
  by (auto simp: steady_def steady_on_def list_all_iff dest!: map_of_SomeD)

context probed_adapter
begin

lemma ready_pushed: "ready s \<Longrightarrow> ready (pushed rnd fr k v s)"
  by (rule ready_limits [OF _ same_limits_pushed])

lemma knob_swept:
  assumes s: "ready s" and f: "map_of samples k = Some f"
    and boot: "map_of (mk_knobs s) k = Some boot"
    and keep: "boot = JNull \<or> stored rnd fr s k boot = Some boot"
  shows "\<exists>row t. sweep_knob c ad k boot (f boot) s = (Inr row, t) \<and> same_limits s t \<and>
    mk_knobs t = dset k (left_by rnd fr s k f boot) (mk_knobs s) \<and>
    sr_knob row = k \<and> sr_boot row = boot \<and> sr_target row = f boot \<and>
    sr_ok row = row_right rnd fr (be_repr c) confirms s k (f boot) \<and>
    (sr_restored row \<longleftrightarrow> boot \<noteq> JNull \<and> confirms boot boot)"
proof -
  let ?s1 = "pushed rnd fr k (f boot) s"
  have k: "\<not> is_reinit_key k" "k \<in> set (keys samples)"
    using sample_knobs f by (auto simp: list_all_iff dest!: map_of_SomeD intro: in_keysI)
  obtain r where r: "a_set_hot ad [(k, f boot)] s = (Inr r, ?s1)"
    and r_ok: "r_ok r = (case stored rnd fr s k (f boot) of None \<Rightarrow> False | Some w \<Rightarrow> confirms w (f boot))"
    using push [OF s k(1) sample_decided [OF f]] by blast
  have s1: "ready ?s1" by (rule ready_pushed [OF s])
  have lim: "same_limits s ?s1" by (rule same_limits_pushed)
  obtain live where live: "a_read_knobs ad ?s1 = (Inr live, ?s1)" "map_of live k = map_of (mk_knobs ?s1) k"
    using read [OF s1] k(2) by blast
  have knobs: "mk_knobs ?s1 = (case stored rnd fr s k (f boot) of None \<Rightarrow> mk_knobs s | Some w \<Rightarrow> dset k w (mk_knobs s))"
    by (simp add: pushed_def called_def set_knob_def split: option.split)
  have ok: "r_ok r \<and> same_text (be_repr c) (dget k live) (f boot) \<longleftrightarrow>
      row_right rnd fr (be_repr c) confirms s k (f boot)"
    using r_ok live(2) knobs by (auto simp: row_right_def dget_def split: option.splits)
  have "\<exists>b t. restore ad k boot ?s1 = (Inr b, t) \<and> same_limits s t \<and>
      mk_knobs t = dset k (left_by rnd fr s k f boot) (mk_knobs s) \<and>
      (b \<longleftrightarrow> boot \<noteq> JNull \<and> confirms boot boot)"
  proof (cases "boot = JNull")
    case True
    then have "restore ad k boot ?s1 = (Inr False, ?s1)" by (simp add: restore_def)
    then show ?thesis
      using True lim boot knobs by (auto simp: left_by_def dset_same split: option.split)
  next
    case False
    then have st: "stored rnd fr ?s1 k boot = Some boot"
      using keep by (simp add: same_limits_stored [OF lim])
    then have "decided rnd fr ?s1 k boot" by (auto simp: stored_def decided_def split: sum.splits)
    then obtain r' where "a_set_hot ad [(k, boot)] ?s1 = (Inr r', pushed rnd fr k boot ?s1)" "r_ok r' = confirms boot boot"
      using push [OF s1 k(1), of boot] st by auto
    then have "restore ad k boot ?s1 = (Inr (confirms boot boot), pushed rnd fr k boot ?s1)"
      using False by (simp add: restore_def ret_def)
    moreover have "mk_knobs (pushed rnd fr k boot ?s1) = dset k boot (mk_knobs s)"
      using st knobs by (simp add: pushed_def called_def set_knob_def dset_dset split: option.split)
    moreover have "same_limits s (pushed rnd fr k boot ?s1)"
      using lim same_limits_pushed by (rule same_limits_trans)
    ultimately show ?thesis using False by (simp add: left_by_def)
  qed
  then show ?thesis
    using r live(1) ok by (auto simp: sweep_knob_def ret_def)
qed

lemma loop_swept:
  assumes "ready (b_engine w)" and "distinct ks" and "steady_on rnd fr (b_engine w) (set ks)"
    and "\<And>k. k \<in> set ks \<Longrightarrow> k \<in> set (keys samples) \<Longrightarrow> map_of before k = map_of (mk_knobs (b_engine w)) k"
  shows "\<exists>rows w'. sweep_loop c ad before ks w = (Inr rows, w') \<and>
    same_limits (b_engine w) (b_engine w') \<and> b_files w' = b_files w \<and>
    map_of (mk_knobs (b_engine w')) =
      (\<lambda>k. if k \<in> set ks then map_option (swept_value rnd fr (b_engine w) k) (map_of (mk_knobs (b_engine w)) k)
           else map_of (mk_knobs (b_engine w)) k) \<and>
    map sr_knob rows = filter (swept before) ks \<and>
    list_all (row_tells rnd fr (be_repr c) confirms (b_engine w)) rows"
  using assms
proof (induction ks arbitrary: w)
  case Nil
  then show ?case by (simp add: ret_def)
next
  case (Cons k ks)
  let ?s = "b_engine w"
  show ?case
  proof (cases "swept before k")
    case False
    then have skip: "sweep_loop c ad before (k # ks) = sweep_loop c ad before ks"
      by (auto simp: swept_def fun_eq_iff split: option.split)
    have id: "map_option (swept_value rnd fr ?s k) (map_of (mk_knobs ?s) k) = map_of (mk_knobs ?s) k"
    proof (cases "map_of samples k")
      case None
      then show ?thesis by (cases "map_of (mk_knobs ?s) k") (simp_all add: swept_value_def)
    next
      case (Some f)
      then have "k \<in> set (keys samples)" by (metis map_of_keys_None option.distinct(1))
      then have "map_of (mk_knobs ?s) k = None" using Cons.prems(4) [of k] False Some by (auto simp: swept_def)
      then show ?thesis by simp
    qed
    have IH: "\<exists>rows w'. sweep_loop c ad before ks w = (Inr rows, w') \<and>
      same_limits ?s (b_engine w') \<and> b_files w' = b_files w \<and>
      map_of (mk_knobs (b_engine w')) =
        (\<lambda>k. if k \<in> set ks then map_option (swept_value rnd fr ?s k) (map_of (mk_knobs ?s) k)
             else map_of (mk_knobs ?s) k) \<and>
      map sr_knob rows = filter (swept before) ks \<and>
      list_all (row_tells rnd fr (be_repr c) confirms ?s) rows"
      using Cons.prems by (intro Cons.IH) (auto simp: steady_on_def)
    have "(\<lambda>k'. if k' \<in> set (k # ks) then map_option (swept_value rnd fr ?s k') (map_of (mk_knobs ?s) k')
             else map_of (mk_knobs ?s) k') =
       (\<lambda>k'. if k' \<in> set ks then map_option (swept_value rnd fr ?s k') (map_of (mk_knobs ?s) k')
             else map_of (mk_knobs ?s) k')"
      using id by auto
    then show ?thesis using IH False unfolding skip by simp
  next
    case True
    then obtain f boot where f: "map_of samples k = Some f" and b: "map_of before k = Some boot"
      by (auto simp: swept_def)
    from f have "k \<in> set (keys samples)" by (metis map_of_keys_None option.distinct(1))
    then have boot: "map_of (mk_knobs ?s) k = Some boot" using Cons.prems(4) [of k] b by simp
    then have keep: "boot = JNull \<or> stored rnd fr ?s k boot = Some boot"
      using Cons.prems(3) by (simp add: steady_on_def)
    obtain row t where row: "sweep_knob c ad k boot (f boot) ?s = (Inr row, t)" "same_limits ?s t"
      and t: "mk_knobs t = dset k (left_by rnd fr ?s k f boot) (mk_knobs ?s)" and kn: "sr_knob row = k"
      and tells: "row_tells rnd fr (be_repr c) confirms ?s row"
      using knob_swept [OF Cons.prems(1) f boot keep, of c] boot f
      by (auto simp: row_tells_def)
    define v where "v = w\<lparr>b_engine := t, b_out := b_out w @ sweep_line (be_repr c) row @ [CHR 0x0A]\<rparr>"
    have vt: "b_engine v = t" "b_files v = b_files w" by (simp_all add: v_def)
    have other: "map_of (mk_knobs t) k' = map_of (mk_knobs ?s) k'" if "k' \<in> set ks" for k'
      using that Cons.prems(2) t by auto
    have "\<exists>rows w'. sweep_loop c ad before ks v = (Inr rows, w') \<and>
      same_limits (b_engine v) (b_engine w') \<and> b_files w' = b_files v \<and>
      map_of (mk_knobs (b_engine w')) =
        (\<lambda>k. if k \<in> set ks then map_option (swept_value rnd fr (b_engine v) k) (map_of (mk_knobs (b_engine v)) k)
             else map_of (mk_knobs (b_engine v)) k) \<and>
      map sr_knob rows = filter (swept before) ks \<and>
      list_all (row_tells rnd fr (be_repr c) confirms (b_engine v)) rows"
    proof (rule Cons.IH)
      show "ready (b_engine v)" using ready_limits [OF Cons.prems(1) row(2)] vt by simp
      show "distinct ks" using Cons.prems(2) by simp
      show "steady_on rnd fr (b_engine v) (set ks)"
        using Cons.prems(3) other by (simp add: steady_on_def vt same_limits_stored [OF row(2)])
      show "map_of before k' = map_of (mk_knobs (b_engine v)) k'"
        if "k' \<in> set ks" "k' \<in> set (keys samples)" for k'
        using Cons.prems(4) [of k'] that other by (simp add: vt)
    qed
    then obtain rows w' where IH: "sweep_loop c ad before ks v = (Inr rows, w')" "same_limits t (b_engine w')"
        "b_files w' = b_files w"
      and m: "map_of (mk_knobs (b_engine w')) =
        (\<lambda>k. if k \<in> set ks then map_option (swept_value rnd fr t k) (map_of (mk_knobs t) k)
             else map_of (mk_knobs t) k)"
      and names: "map sr_knob rows = filter (swept before) ks"
      and rows: "list_all (row_tells rnd fr (be_repr c) confirms t) rows"
      unfolding vt by blast
    have "sweep_loop c ad before (k # ks) w = (Inr (row # rows), w')"
      using row(1) IH(1) by (simp add: f b at_engine_def show_line_def v_def ret_def)
    moreover have "same_limits ?s (b_engine w')" using row(2) IH(2) by (rule same_limits_trans)
    moreover have "map_of (mk_knobs (b_engine w')) =
      (\<lambda>k'. if k' \<in> set (k # ks) then map_option (swept_value rnd fr ?s k') (map_of (mk_knobs ?s) k')
           else map_of (mk_knobs ?s) k')"
      using Cons.prems(2) boot f
      by (auto simp: m t swept_value_limits [OF row(2)] swept_value_def fun_eq_iff)
    moreover have "list_all (row_tells rnd fr (be_repr c) confirms ?s) rows"
    proof -
      have "sr_knob r \<in> set ks" if "r \<in> set rows" for r
        using names that by (metis (no_types, lifting) filter_is_subset image_eqI list.set_map subsetD)
      then show ?thesis using rows row_tells_limits [OF row(2)] other by (simp add: list_all_iff)
    qed
    ultimately show ?thesis using IH(3) names tells kn True by simp
  qed
qed

end

section \<open>Both engines\<close>

lemma single_hot: "\<not> is_reinit_key k \<Longrightarrow> hot_changes [(k, v)]"
  by (simp add: hot_changes_def wf_dict_def)

lemma stored_in_place:
  "stored rnd fr s k v = Some w \<Longrightarrow> map_of (mk_knobs (pushed rnd fr k v s)) k = Some w"
  by (simp add: pushed_def called_def set_knob_def)

lemma sample_key:
  assumes "k \<in> set (keys samples)"
  shows "k \<notin> set vllm_hidden" and "k \<noteq> ''max_num_seqs_effective''"
  using assms sample_knobs by (auto simp: list_all_iff keys_def)

interpretation sglang_probe: probed_adapter rnd fr "sglang_adapter (mock_http rnd fr) fr'" sglang_ready py_eq
  for rnd fr fr'
proof (unfold_locales, goal_cases)
  case (1 s k v)
  then have eng: "mk_engine s = ''sglang''" by (simp add: sglang_ready_def)
  have ready: "sglang_ready (pushed rnd fr k v s)"
    using sglang_ready_cong [of "pushed rnd fr k v s" s] same_limits_pushed [of s rnd fr k v] 1(1)
    by (simp add: same_limits_def)
  have live: "stored rnd fr s k v = Some w \<Longrightarrow> dget k (sglang_live (pushed rnd fr k v s)) = w" for w
    by (simp add: dget_def map_of_sglang_live [OF ready] stored_in_place)
  obtain r where r: "apply_value rnd fr s k v = Inr r" using 1(3) by (auto simp: decided_def split: sum.splits)
  note run = sglang_set_hot_run [OF eng single_hot [OF 1(2)], of rnd fr v] apply_changes_single [OF 1(2,3)]
  show ?case
  proof (cases r)
    case (Inl why)
    then show ?thesis by (simp add: sglang_adapter_def run r stored_def)
  next
    case (Inr w)
    then have w: "stored rnd fr s k v = Some w" by (simp add: stored_def r)
    then show ?thesis using Inr by (simp add: sglang_adapter_def run r confirmed_def live [OF w] Let_def)
  qed
next
  case (2 s)
  then have "mk_engine s = ''sglang''" by (simp add: sglang_ready_def)
  then show ?case by (simp add: sglang_adapter_def sglang_read_knobs_run map_of_sglang_live [OF 2])
next
  case (3 s t)
  then show ?case using sglang_ready_cong [of t s] by (simp add: same_limits_def)
qed

lemma vllm_read_run:
  assumes "vllm_ready s"
  shows "\<exists>live. vllm_read_knobs (mock_http rnd fr) s = (Inr live, s) \<and>
    (\<forall>k \<in> set (keys samples). map_of live k = map_of (mk_knobs s) k)"
proof -
  let ?more = "[(''max_num_seqs_effective'', knob_value s ''max_num_seqs''), (''running'', JInt 0),
            (''ceilings'', ceilings_json s), (''last_reinit'', mk_last_reinit s),
            (''num_gpu_blocks'', JInt (mk_tokens s div 16))]"
  let ?live = "filter (\<lambda>(k, v). k \<notin> set vllm_hidden) (dict_update (mk_knobs s) ?more)"
  have wf: "wf_dict (mk_knobs s)" and eng: "mk_engine s = ''vllm''" using assms by (simp_all add: vllm_ready_def)
  have "map_of ?live k = map_of (mk_knobs s) k" if "k \<in> set (keys samples)" for k
  proof -
    have "k \<noteq> ''running''" "k \<noteq> ''ceilings''" "k \<noteq> ''last_reinit''" "k \<noteq> ''num_gpu_blocks''"
      using sample_key(1) [OF that] by (auto simp: vllm_hidden_def)
    then show ?thesis
      using sample_key [OF that] wf by (simp add: map_of_filter_wf wf_dict_update map_of_dict_update split: option.split)
  qed
  moreover have "vllm_read_knobs (mock_http rnd fr) s = (Inr ?live, s)"
    using eng by (simp add: vllm_read_knobs_def get_def mock_http_def mock_get_def starts_with_def object_of_def)
  ultimately show ?thesis by blast
qed

interpretation vllm_probe: probed_adapter rnd fr "vllm_adapter (mock_http rnd fr) fr'" vllm_ready "\<lambda>_ _. True"
  for rnd fr fr'
proof (unfold_locales, goal_cases)
  case (1 s k v)
  then have eng: "mk_engine s = ''vllm''" by (simp add: vllm_ready_def)
  show ?case
    using 1(3)
    by (auto simp: vllm_adapter_def vllm_set_hot_run [OF eng] apply_changes_single [OF 1(2,3)]
        decided_def stored_def split: sum.split)
next
  case (2 s)
  then show ?case using vllm_read_run [OF 2] by (simp add: vllm_adapter_def)
next
  case (3 s t)
  then show ?case by (simp add: same_limits_def vllm_ready_def wf_dict_def)
qed

section \<open>The warm-reinit bench stops at the first failure\<close>

definition warm_good :: "warm_row \<Rightarrow> bool" where
  "warm_good r \<longleftrightarrow> y_ok r \<and> y_generated r"

lemma warm_once_fields: "warm_once c ad engine flds e = (Inr row, e') \<Longrightarrow> y_fields row = flds"
  unfolding warm_once_def by (auto elim!: andthen_InrE simp: ret_def split: prod.splits)

text \<open>
  The rows answer the steps of the plan from the first on, and no step follows a row that is not all
  right: the engine is sent nothing after a reinit that failed or left it unable to generate.
\<close>

lemma warm_loop_prefix:
  assumes "warm_loop c ad engine plan w = (Inr rows, w')"
  shows "map y_fields rows = take (length rows) plan \<and> list_all warm_good (butlast rows) \<and>
    (length rows < length plan \<longrightarrow> rows \<noteq> [] \<and> \<not> warm_good (last rows)) \<and>
    (warm_all_ok plan rows \<longleftrightarrow> list_all warm_good rows)"
  using assms
proof (induction plan arbitrary: w rows)
  case Nil
  then show ?case by (simp add: ret_def warm_all_ok_def)
next
  case (Cons flds plan)
  obtain row w1 w2 where row: "at_engine (warm_once c ad engine flds) w = (Inr row, w1)"
    and rest: "(if y_ok row \<and> y_generated row
      then andthen (warm_loop c ad engine plan) (\<lambda>rows. ret (row # rows)) else ret [row]) w2 = (Inr rows, w')"
    using Cons.prems unfolding warm_loop.simps by (elim andthen_InrE) blast
  have flds: "y_fields row = flds"
    using row warm_once_fields [of c ad engine flds "b_engine w" row]
    by (auto simp: at_engine_def split: prod.splits)
  show ?case
  proof (cases "warm_good row")
    case False
    then have "rows = [row]" using rest by (auto simp: warm_good_def ret_def)
    then show ?thesis using flds False by (auto simp: warm_all_ok_def warm_good_def)
  next
    case True
    then obtain rs where "warm_loop c ad engine plan w2 = (Inr rs, w')" and rows: "rows = row # rs"
      using rest by (auto simp: warm_good_def ret_def elim!: andthen_InrE)
    with Cons.IH [of w2 rs] show ?thesis
      using flds True by (auto simp: warm_all_ok_def warm_good_def)
  qed
qed

section \<open>The whole script\<close>

lemma distinct_keys_filter: "wf_dict d \<Longrightarrow> distinct (keys (filter P d))"
  by (simp add: wf_dict_def keys_def distinct_map_filter)

lemma load_wf: "load rnd text = Inr m \<Longrightarrow> wf_dict (knobs m)"
  by (auto simp: load_def wf_make_manifest split: sum.splits prod.splits)

lemma hot_fields_distinct:
  assumes "find_manifest rnd dir engine = Inr m"
  shows "distinct (hot_fields m)"
  using assms by (auto simp: find_manifest_def hot_fields_def Let_def load_wf distinct_keys_filter split: if_splits)

text \<open>What either adapter takes for a confirmation: SGLang's compares the value read back, vLLM's believes the engine.\<close>

definition confirms :: "string \<Rightarrow> json \<Rightarrow> json \<Rightarrow> bool" where
  "confirms engine w v \<longleftrightarrow> (if engine = ''sglang'' then py_eq w v else True)"

definition engine_ready :: "string \<Rightarrow> mock \<Rightarrow> bool" where
  "engine_ready engine s \<longleftrightarrow> (if engine = ''sglang'' then sglang_ready s else engine = ''vllm'' \<and> vllm_ready s)"

lemma probed:
  assumes "engine_ready engine s0"
  obtains ad where "make_adapter (mock_http rnd fr) fr' engine = Inr ad"
    and "probed_adapter rnd fr ad (engine_ready engine) (confirms engine)"
proof (cases "engine = ''sglang''")
  case True
  have "engine_ready engine = sglang_ready" "confirms engine = py_eq"
    by (intro ext; simp add: engine_ready_def confirms_def True)+
  then show ?thesis
    using that [of "sglang_adapter (mock_http rnd fr) fr'"] sglang_probe.probed_adapter_axioms [of rnd fr fr'] True
    by (simp add: make_adapter_def)
next
  case False
  then have e: "engine = ''vllm''" using assms by (simp add: engine_ready_def)
  have "engine_ready engine = vllm_ready" "confirms engine = (\<lambda>_ _. True)"
    by (intro ext; simp add: engine_ready_def confirms_def e)+
  then show ?thesis
    using that [of "vllm_adapter (mock_http rnd fr) fr'"] vllm_probe.probed_adapter_axioms [of rnd fr fr'] e
    by (simp add: make_adapter_def)
qed

text \<open>
  C40. A knob sweep says what the engine can do and leaves it as it was, with one exception. On an
  engine that would take each of its own values again, the script always finishes: it writes one row
  for every hot knob of the manifest that it has a sample for and the engine has, in order; a row is
  right exactly when the engine takes the sample and reads back the same text, and the status is 0
  exactly when all are. No limit of the engine moves. Every knob holds its boot value again, except a
  knob that was unset at boot: it keeps the sample.
\<close>

theorem sweep_outcome:
  assumes ready: "engine_ready engine (b_engine w)" and st: "steady rnd fr (b_engine w)"
    and http: "be_http c = mock_http rnd fr"
    and m: "find_manifest (be_rounding c) (be_manifests c) engine = Inr m"
  shows "\<exists>rows w'. sweep_main c engine out w =
      (Inl (SystemExit (if list_all sr_ok rows then 0 else 1)), w') \<and>
    map_of (b_files w') out = Some (dumps_indent (be_repr c) (sweep_summary engine rows)) \<and>
    map sr_knob rows =
      filter (\<lambda>k. k \<in> set (keys samples) \<and> k \<in> set (keys (mk_knobs (b_engine w)))) (hot_fields m) \<and>
    list_all (row_tells rnd fr (be_repr c) (confirms engine) (b_engine w)) rows \<and>
    same_limits (b_engine w) (b_engine w') \<and>
    map_of (mk_knobs (b_engine w')) =
      (\<lambda>k. if k \<in> set (hot_fields m)
           then map_option (swept_value rnd fr (b_engine w) k) (map_of (mk_knobs (b_engine w)) k)
           else map_of (mk_knobs (b_engine w)) k)"
proof -
  let ?s = "b_engine w"
  obtain ad where ad: "make_adapter (mock_http rnd fr) (be_repr c) engine = Inr ad"
    and pa: "probed_adapter rnd fr ad (engine_ready engine) (confirms engine)"
    using probed [OF ready] by blast
  obtain before where before: "a_read_knobs ad ?s = (Inr before, ?s)"
    and same: "\<And>k. k \<in> set (keys samples) \<Longrightarrow> map_of before k = map_of (mk_knobs ?s) k"
    using probed_adapter.read [OF pa ready] by blast
  obtain rows w' where run: "sweep_loop c ad before (hot_fields m) w = (Inr rows, w')" "same_limits ?s (b_engine w')"
      "b_files w' = b_files w"
    and knobs: "map_of (mk_knobs (b_engine w')) =
      (\<lambda>k. if k \<in> set (hot_fields m) then map_option (swept_value rnd fr ?s k) (map_of (mk_knobs ?s) k)
           else map_of (mk_knobs ?s) k)"
    and names: "map sr_knob rows = filter (swept before) (hot_fields m)"
    and tells: "list_all (row_tells rnd fr (be_repr c) (confirms engine) ?s) rows"
    using probed_adapter.loop_swept [OF pa ready hot_fields_distinct [OF m] steady_everywhere [OF st] same, of c] by blast
  have "swept before = (\<lambda>k. k \<in> set (keys samples) \<and> k \<in> set (keys (mk_knobs ?s)))"
    by (intro ext) (metis map_of_keys_None same swept_def)
  moreover have "length (filter sr_ok rows) = length rows \<longleftrightarrow> list_all sr_ok rows"
    by (metis filter_id_conv length_filter_less list_all_iff nat_neq_iff)
  moreover have "sweep_main c engine out w = (Inl (SystemExit (if length (filter sr_ok rows) = length rows then 0 else 1)),
      w'\<lparr>b_files := dset out (dumps_indent (be_repr c) (sweep_summary engine rows)) (b_files w')\<rparr>)"
    using run(1) by (simp add: sweep_main_def http ad m at_engine_def before dump_file_def leave_def raise_def)
  ultimately show ?thesis
    using run(2) knobs names tells
    by (intro exI [of _ rows] exI [of _ "w'\<lparr>b_files := dset out (dumps_indent (be_repr c) (sweep_summary engine rows)) (b_files w')\<rparr>"])
      simp
qed

definition sweep_yaml :: string where
  "sweep_yaml = concat (map (\<lambda>l. l @ [CHR 0x0A])
     [''engine: sglang'', ''engine_commit: c0adee9'', ''knobs:'', ''  - field: max_running_requests'',
      ''    klass: hot'', ''  - field: max_queued_requests'', ''    klass: hot''])"

text \<open>An engine that was started without a bound on its queue.\<close>

definition unbounded_queue :: mock where
  "unbounded_queue = set_knob ''max_queued_requests'' JNull (make_mock ''sglang'' 128 1024 8192 16384)"

definition sweep_bench :: "mock bench" where
  "sweep_bench = \<lparr>b_engine = unbounded_queue, b_out = [], b_files = []\<rparr>"

definition sweep_env :: "mock bench_env" where
  "sweep_env =
     \<lparr>be_rounding = Fin, be_repr = (\<lambda>_. ''1''), be_exn_text = (\<lambda>_. []), be_http = mock_http Fin (\<lambda>_. ''1''),
      be_manifests = [(''m.yaml'', sweep_yaml)], be_time = ret (Fin 0), be_sleep = (\<lambda>_. ret ()),
      be_latency = (\<lambda>_. Fin 1), be_round2 = (\<lambda>x. x), be_1f = (\<lambda>_. ''1''), be_sent = 0, be_failed = 0,
      be_fuel = 1\<rparr>"

theorem sweep_outcome_witness:
  "\<exists>w'. sweep_main sweep_env ''sglang'' ''sweep.json'' sweep_bench = (Inl (SystemExit 0), w') \<and>
    map_of (mk_knobs (b_engine w')) ''max_running_requests'' = Some (JInt 128) \<and>
    map_of (mk_knobs (b_engine w')) ''max_queued_requests'' = Some (JInt 512)"
proof -
  have eng: "b_engine sweep_bench = unbounded_queue" by (simp add: sweep_bench_def)
  have ready: "engine_ready ''sglang'' unbounded_queue" by code_simp
  have st: "steady Fin (\<lambda>_. ''1'') unbounded_queue" by code_simp
  have "map_sum id hot_fields (find_manifest Fin [(''m.yaml'', sweep_yaml)] ''sglang'') =
      Inr [''max_queued_requests'', ''max_running_requests'']"
    by code_simp
  then obtain m where m: "find_manifest Fin [(''m.yaml'', sweep_yaml)] ''sglang'' = Inr m"
      "hot_fields m = [''max_queued_requests'', ''max_running_requests'']"
    by (cases "find_manifest Fin [(''m.yaml'', sweep_yaml)] ''sglang''") simp_all
  have ok: "fst (sweep_main sweep_env ''sglang'' ''sweep.json'' sweep_bench) = Inl (SystemExit 0)"
    by code_simp
  have left: "map_option (swept_value Fin (\<lambda>_. ''1'') unbounded_queue ''max_running_requests'')
      (map_of (mk_knobs unbounded_queue) ''max_running_requests'') = Some (JInt 128)"
    "map_option (swept_value Fin (\<lambda>_. ''1'') unbounded_queue ''max_queued_requests'')
      (map_of (mk_knobs unbounded_queue) ''max_queued_requests'') = Some (JInt 512)"
    by code_simp+
  have env: "be_http sweep_env = mock_http Fin (\<lambda>_. ''1'')"
      "find_manifest (be_rounding sweep_env) (be_manifests sweep_env) ''sglang'' = Inr m"
    by (simp_all add: sweep_env_def m(1))
  obtain rows :: "sweep_row list" and w' where run: "sweep_main sweep_env ''sglang'' ''sweep.json'' sweep_bench =
      (Inl (SystemExit (if list_all sr_ok rows then 0 else 1)), w')"
    and knobs: "map_of (mk_knobs (b_engine w')) =
      (\<lambda>k. if k \<in> set (hot_fields m)
           then map_option (swept_value Fin (\<lambda>_. ''1'') unbounded_queue k) (map_of (mk_knobs unbounded_queue) k)
           else map_of (mk_knobs unbounded_queue) k)"
    using sweep_outcome [OF ready [folded eng] st [folded eng] env, of "''sweep.json''", unfolded eng] by blast
  have "sweep_main sweep_env ''sglang'' ''sweep.json'' sweep_bench = (Inl (SystemExit 0), w')"
    using run ok by (metis fst_conv)
  then show ?thesis using left by (simp add: knobs m(2))
qed

end
