(* ===== verification/Vllm_Release.thy ===== *)
theory Vllm_Release
  imports Server
begin

text \<open>
  The worker side of a warm reinit of vLLM (\<open>engine/vllm/reinit_worker_body.py\<close>): the captured graphs
  are cleared, the references to the KV cache dropped, and the memory pool is torn down before the
  allocator it frees its blocks through. What belongs to torch and vLLM is an argument, the record
  \<open>release_env\<close>: the synchronisation, the free memory, the graph wrappers, the cleanup of the profiling
  cache, the collector, the snapshot of a pool and the two destructors. The worker keeps what the body
  itself changes: the key sets of the graph dispatcher and the pools of the allocator by tag.
\<close>

section \<open>The worker\<close>

record ('g, 'p, 'a) worker =
  wk_device :: 'g
  wk_graph_keys :: "string list dict"
  wk_keys_initialized :: bool
  wk_pools :: "('p \<times> 'a) dict"

record ('g, 'p, 'a) release_env =
  rl_rounding :: rounding
  rl_round2 :: "pyfloat \<Rightarrow> pyfloat"
  rl_synchronize :: "('g, unit) stmt"
  rl_free :: "('g, int) stmt"
  rl_clear_breakable :: "('g, unit) stmt"
  rl_clear_graphs :: "('g, unit) stmt"
  rl_cleanup :: "('g, unit) stmt"
  rl_collect :: "('g, unit) stmt"
  rl_snapshot :: "'p \<Rightarrow> ('g, fields list) stmt"
  rl_drop_pool :: "'p \<Rightarrow> ('g, unit) stmt"
  rl_drop_allocator :: "'a \<Rightarrow> ('g, unit) stmt"
  rl_set_fraction :: "pyfloat \<Rightarrow> ('g, unit) stmt"

definition on_device :: "('g, 'b) stmt \<Rightarrow> (('g, 'p, 'a) worker, 'b) stmt" where
  "on_device m w = (case m (wk_device w) of (r, g) \<Rightarrow> (r, w\<lparr>wk_device := g\<rparr>))"

section \<open>The graphs\<close>

text \<open>\<open>try: \<dots> except Exception: pass\<close>.\<close>

definition ignoring :: "('s, unit) stmt \<Rightarrow> ('s, unit) stmt" where
  "ignoring m s = (Inr (), snd (m s))"

definition clear_keys :: "(('g, 'p, 'a) worker, unit) stmt" where
  "clear_keys w =
     (Inr (), w\<lparr>wk_graph_keys := map (\<lambda>(mode, ks). (mode, [])) (wk_graph_keys w), wk_keys_initialized := False\<rparr>)"

definition drop_graphs :: "('g, 'p, 'a) release_env \<Rightarrow> (('g, 'p, 'a) worker, unit) stmt" where
  "drop_graphs E =
     andthen (on_device (ignoring (rl_clear_breakable E))) (\<lambda>_.
     andthen (on_device (rl_clear_graphs E)) (\<lambda>_.
     clear_keys))"

section \<open>The pool\<close>

text \<open>\<open>allocation["allocated_size"] == 0\<close>, and then \<open>allocation.get("total_size", 0)\<close>; sizes are integers.\<close>

fun as_size :: "json \<Rightarrow> exn + int" where
  "as_size (JInt i) = Inr i"
| "as_size _ = Inl TypeError"

definition freed_by :: "fields \<Rightarrow> exn + int" where
  "freed_by allocation =
     rbind (need ''allocated_size'' allocation) (\<lambda>n.
     if py_eq n (JInt 0) then as_size (case map_of allocation ''total_size'' of None \<Rightarrow> JInt 0 | Some t \<Rightarrow> t)
     else Inr 0)"

fun freed_total :: "fields list \<Rightarrow> exn + int" where
  "freed_total [] = Inr 0"
| "freed_total (a # as) = rbind (freed_by a) (\<lambda>n. rbind (freed_total as) (\<lambda>m. Inr (n + m)))"

definition take_pool :: "(('g, 'p, 'a) worker, ('p \<times> 'a) option) stmt" where
  "take_pool w =
     (Inr (map_of (wk_pools w) ''kv_cache''), w\<lparr>wk_pools := AList.delete ''kv_cache'' (wk_pools w)\<rparr>)"

text \<open>The pool goes while its allocator is still held, the allocator after it.\<close>

definition tear_down :: "('g, 'p, 'a) release_env \<Rightarrow> 'p \<times> 'a \<Rightarrow> (('g, 'p, 'a) worker, int) stmt" where
  "tear_down E data =
     andthen (on_device (rl_snapshot E (fst data))) (\<lambda>blocks.
     andthen (of_result (freed_total blocks)) (\<lambda>released.
     andthen (on_device (rl_drop_pool E (fst data))) (\<lambda>_.
     andthen (on_device (rl_collect E)) (\<lambda>_.
     andthen (on_device (rl_drop_allocator E (snd data))) (\<lambda>_.
     andthen (on_device (rl_collect E)) (\<lambda>_.
     ret released))))))"

definition release_pool :: "('g, 'p, 'a) release_env \<Rightarrow> (('g, 'p, 'a) worker, int) stmt" where
  "release_pool E =
     andthen take_pool (\<lambda>found. case found of None \<Rightarrow> ret 0 | Some data \<Rightarrow> tear_down E data)"

section \<open>The release\<close>

definition in_gib :: "('g, 'p, 'a) release_env \<Rightarrow> int \<Rightarrow> exn + json" where
  "in_gib E n = rbind (f_div (rl_rounding E) (Fin (of_int n)) (Fin (2 ^ 30))) (\<lambda>x. Inr (JFloat (rl_round2 E x)))"

definition trimtab_release_kv :: "('g, 'p, 'a) release_env \<Rightarrow> (('g, 'p, 'a) worker, fields) stmt" where
  "trimtab_release_kv E =
     andthen (on_device (rl_synchronize E)) (\<lambda>_.
     andthen (on_device (rl_free E)) (\<lambda>free0.
     andthen (drop_graphs E) (\<lambda>_.
     andthen (on_device (rl_cleanup E)) (\<lambda>_.
     andthen (on_device (rl_collect E)) (\<lambda>_.
     andthen (release_pool E) (\<lambda>released.
     andthen (on_device (rl_synchronize E)) (\<lambda>_.
     andthen (on_device (rl_set_fraction E (Fin 1))) (\<lambda>_.
     andthen (of_result (in_gib E released)) (\<lambda>r.
     andthen (on_device (rl_free E)) (\<lambda>free1.
     andthen (of_result (in_gib E (free1 - free0))) (\<lambda>f.
     ret [(''released_gib'', r), (''free_gib'', f)])))))))))))"

section \<open>What a release leaves\<close>

text \<open>Everything but the device is kept by what torch and vLLM do.\<close>

definition same_books :: "('g, 'p, 'a) worker \<Rightarrow> ('g, 'p, 'a) worker \<Rightarrow> bool" where
  "same_books v w \<longleftrightarrow>
     wk_graph_keys w = wk_graph_keys v \<and> wk_keys_initialized w = wk_keys_initialized v \<and> wk_pools w = wk_pools v"

lemma on_device_books: "on_device m v = (r, w) \<Longrightarrow> same_books v w"
  by (auto simp: on_device_def same_books_def split: prod.splits)

lemma same_books_trans: "same_books u v \<Longrightarrow> same_books v w \<Longrightarrow> same_books u w"
  by (simp add: same_books_def)

lemma drop_graphs_leaves:
  assumes "drop_graphs E v = (Inr (), w)"
  shows "list_all (\<lambda>(mode, ks). ks = []) (wk_graph_keys w) \<and> keys (wk_graph_keys w) = keys (wk_graph_keys v) \<and>
    \<not> wk_keys_initialized w \<and> wk_pools w = wk_pools v"
proof -
  obtain v1 v2 where v: "same_books v v1" "same_books v1 v2" "clear_keys v2 = (Inr (), w)"
    using assms unfolding drop_graphs_def by (elim andthen_InrE) (metis on_device_books)
  have w: "w = v2\<lparr>wk_graph_keys := map (\<lambda>(mode, ks). (mode, [])) (wk_graph_keys v2), wk_keys_initialized := False\<rparr>"
    using v(3) by (simp add: clear_keys_def)
  show ?thesis using v(1,2) by (auto simp: w same_books_def list_all_iff keys_def)
qed

lemma tear_down_books: "tear_down E data v = (Inr n, w) \<Longrightarrow> same_books v w"
  unfolding tear_down_def
  by (elim andthen_InrE) (auto dest!: on_device_books simp: of_result_def same_books_def)

text \<open>
  A release that returns has emptied every key set of the dispatcher, which has to be initialised
  again, and has taken the pool of the KV cache and no other; a second release finds no pool, and
  reports nothing as released.
\<close>

lemma release_pool_leaves:
  assumes "release_pool E v = (Inr n, w)"
  shows "wk_pools w = AList.delete ''kv_cache'' (wk_pools v) \<and> wk_graph_keys w = wk_graph_keys v \<and>
    wk_keys_initialized w = wk_keys_initialized v \<and> (map_of (wk_pools v) ''kv_cache'' = None \<longrightarrow> n = 0)"
proof -
  let ?v = "v\<lparr>wk_pools := AList.delete ''kv_cache'' (wk_pools v)\<rparr>"
  have run: "(case map_of (wk_pools v) ''kv_cache'' of None \<Rightarrow> ret 0 | Some data \<Rightarrow> tear_down E data) ?v = (Inr n, w)"
    using assms by (simp add: release_pool_def take_pool_def)
  then show ?thesis
  proof (cases "map_of (wk_pools v) ''kv_cache''")
    case None
    then show ?thesis using run by auto
  next
    case (Some data)
    then have "tear_down E data ?v = (Inr n, w)" using run by simp
    then have "same_books ?v w" by (rule tear_down_books)
    then show ?thesis using Some by (simp add: same_books_def)
  qed
qed

theorem release_leaves:
  assumes "trimtab_release_kv E v = (Inr info, w)"
  shows "list_all (\<lambda>(mode, ks). ks = []) (wk_graph_keys w) \<and> \<not> wk_keys_initialized w \<and>
    wk_pools w = AList.delete ''kv_cache'' (wk_pools v)"
    and "map_of (wk_pools v) ''kv_cache'' = None \<Longrightarrow> Inr (the (map_of info ''released_gib'')) = in_gib E 0"
proof -
  obtain v1 v2 v3 v4 v5 v6 v7 v8 v9 n r where
      v: "same_books v v1" "same_books v1 v2" "drop_graphs E v2 = (Inr (), v3)" "same_books v3 v4" "same_books v4 v5"
        "release_pool E v5 = (Inr n, v6)" "same_books v6 v7" "same_books v7 v8" "same_books v8 v9"
    and r: "in_gib E n = Inr r" and w: "w = v9" "map_of info ''released_gib'' = Some r"
    using assms unfolding trimtab_release_kv_def
    by (elim andthen_InrE) (auto dest!: on_device_books simp: of_result_def)
  show "list_all (\<lambda>(mode, ks). ks = []) (wk_graph_keys w) \<and> \<not> wk_keys_initialized w \<and>
      wk_pools w = AList.delete ''kv_cache'' (wk_pools v)"
    using v drop_graphs_leaves [OF v(3)] release_pool_leaves [OF v(6)] by (simp add: same_books_def w)
  show "Inr (the (map_of info ''released_gib'')) = in_gib E 0" if "map_of (wk_pools v) ''kv_cache'' = None"
    using that v r drop_graphs_leaves [OF v(3)] release_pool_leaves [OF v(6)] by (simp add: same_books_def w)
qed

end
