(* ===== verification/Results_Table.thy ===== *)
theory Results_Table
  imports Bench
begin

text \<open>
  The table of measured results (\<open>bench/summarize.py\<close>): one row per result file of a run, from the
  JSON the benches wrote. The directory is a list of file names with their texts, the prose around the
  table two texts, and \<open>%.1f\<close> an argument. The counts in a file are integers; anything else is a
  \<open>TypeError\<close>, as a value of the wrong shape is.
\<close>

section \<open>The files\<close>

record table_env =
  tb_rounding :: rounding
  tb_repr :: float_text
  tb_1f :: "pyfloat \<Rightarrow> string"
  tb_dir :: string
  tb_before :: string
  tb_after :: string

text \<open>\<open>glob\<close> leaves hidden files out; \<open>-warm\<close> is looked for in the whole path.\<close>

definition is_result :: "string \<Rightarrow> string \<Rightarrow> bool" where
  "is_result dir name \<longleftrightarrow>
     ends_with ''.json'' name \<and> \<not> starts_with ''.'' name \<and> \<not> contains ''-warm'' (dir @ name)"

definition result_files :: "string \<Rightarrow> (string \<times> string) list \<Rightarrow> (string \<times> string) list" where
  "result_files dir fs = sort_key (\<lambda>p. dir @ fst p) (filter (\<lambda>(n, t). is_result dir n) fs)"

definition stem :: "string \<Rightarrow> string" where
  "stem name = take (length name - 5) name"

section \<open>A row\<close>

text \<open>\<open>for x in v\<close>.\<close>

definition iterate :: "json \<Rightarrow> exn + json list" where
  "iterate v =
     (case v of JArr xs \<Rightarrow> Inr xs | JObj d \<Rightarrow> Inr (map (JStr \<circ> fst) d) | JStr s \<Rightarrow> Inr (map (\<lambda>c. JStr [c]) s)
      | _ \<Rightarrow> Inl TypeError)"

fun each :: "(json \<Rightarrow> exn + 'a) \<Rightarrow> json list \<Rightarrow> exn + 'a list" where
  "each f [] = Inr []"
| "each f (x # xs) = rbind (f x) (\<lambda>y. rbind (each f xs) (\<lambda>ys. Inr (y # ys)))"

definition item_at :: "string \<Rightarrow> json \<Rightarrow> exn + json" where
  "item_at k v = rbind (as_obj v) (need k)"

definition text_at :: "float_text \<Rightarrow> string \<Rightarrow> json \<Rightarrow> exn + string" where
  "text_at fr k v = rbind (item_at k v) (\<lambda>x. Inr (str_json fr x))"

definition first_part :: "json \<Rightarrow> exn + string" where
  "first_part v = (case v of JStr s \<Rightarrow> Inr (hd (split_on CHR '','' s)) | _ \<Rightarrow> Inl AttributeError)"

definition swaps_ok :: "float_text \<Rightarrow> json \<Rightarrow> exn + string" where
  "swaps_ok fr h =
     rbind (item_at ''rows'' h) (\<lambda>rs. rbind (iterate rs) (\<lambda>xs.
     rbind (each (\<lambda>x. rbind (item_at ''ok'' x) int_value) xs) (\<lambda>ns.
     rbind (text_at fr ''iters'' h) (\<lambda>n.
     Inr (show_int (sum_list ns) @ ''/'' @ n)))))"

definition sweep_text :: "float_text \<Rightarrow> fields \<Rightarrow> exn + string" where
  "sweep_text fr r =
     (case map_of r ''knob_sweep'' of
        None \<Rightarrow> Inr ''cap only''
      | Some s \<Rightarrow> rbind (text_at fr ''knobs_ok'' s) (\<lambda>a. rbind (text_at fr ''knobs_total'' s) (\<lambda>b. Inr (a @ ''/'' @ b))))"

text \<open>\<open>max\<close> keeps the first of equals, and of what does not compare.\<close>

fun f_max :: "pyfloat \<Rightarrow> pyfloat list \<Rightarrow> pyfloat" where
  "f_max m [] = m"
| "f_max m (x # xs) = f_max (if f_lt m x then x else m) xs"

definition number :: "json \<Rightarrow> exn + pyfloat" where
  "number v = (case num_of v of None \<Rightarrow> Inl TypeError | Some x \<Rightarrow> Inr x)"

definition slowest :: "json list \<Rightarrow> exn + pyfloat" where
  "slowest rows =
     rbind (each (\<lambda>x. rbind (item_at ''call_to_first_token_s'' x) number) rows) (\<lambda>ns.
     case ns of [] \<Rightarrow> Inl (ValueError ''max() iterable argument is empty'') | n # ns' \<Rightarrow> Inr (f_max n ns'))"

definition warm_text :: "(pyfloat \<Rightarrow> string) \<Rightarrow> fields \<Rightarrow> exn + string" where
  "warm_text show_1f r =
     rbind (fields_of (case map_of r ''warm_reinit'' of None \<Rightarrow> JObj [] | Some w \<Rightarrow> w)) (\<lambda>w.
     case map_of w ''rows'' of
       None \<Rightarrow> Inr ''n/a''
     | Some rs \<Rightarrow>
         if \<not> truthy rs then Inr ''n/a''
         else rbind (iterate rs) (\<lambda>xs. rbind (slowest xs) (\<lambda>s. Inr (show_1f s @ '' s''))))"

record result_row =
  rr_target :: string
  rr_gpu :: string
  rr_engine :: string
  rr_cells :: "string list"
  rr_sweep :: string
  rr_warm :: string
  rr_stock :: string
  rr_patched :: string

text \<open>
  The cells of the row that are copied from the swap bench: the boot value, the swaps that were right,
  the four latencies and the two counts of background requests.
\<close>

definition swap_cells :: "float_text \<Rightarrow> json \<Rightarrow> exn + string list" where
  "swap_cells fr h =
     rbind (text_at fr ''boot_value'' h) (\<lambda>b. rbind (swaps_ok fr h) (\<lambda>ok.
     rbind (text_at fr ''api_ms_median'' h) (\<lambda>a5. rbind (text_at fr ''api_ms_p95'' h) (\<lambda>a9.
     rbind (text_at fr ''effect_ms_median'' h) (\<lambda>e5. rbind (text_at fr ''effect_ms_p95'' h) (\<lambda>e9.
     rbind (text_at fr ''background_completed'' h) (\<lambda>bg. rbind (text_at fr ''background_failed'' h) (\<lambda>dr.
     Inr [b, ok, a5, a9, e5, e9, bg, dr]))))))))"

definition result_row_of :: "table_env \<Rightarrow> string \<Rightarrow> json \<Rightarrow> exn + result_row" where
  "result_row_of c name v =
     (let fr = tb_repr c in
      rbind (as_obj v) (\<lambda>r. rbind (need ''hot_swap'' r) (\<lambda>h.
      rbind (rbind (need ''gpu'' r) first_part) (\<lambda>gpu.
      rbind (text_at fr ''engine'' v) (\<lambda>e. rbind (text_at fr ''engine_version'' v) (\<lambda>ev.
      rbind (swap_cells fr h) (\<lambda>cells.
      rbind (text_at fr ''boot_stock_s'' v) (\<lambda>stock. rbind (text_at fr ''boot_patched_s'' v) (\<lambda>patched.
      rbind (sweep_text fr r) (\<lambda>sweep. rbind (warm_text (tb_1f c) r) (\<lambda>warm.
      Inr \<lparr>rr_target = stem name, rr_gpu = gpu, rr_engine = e @ '' '' @ ev, rr_cells = cells,
           rr_sweep = sweep, rr_warm = warm, rr_stock = stock, rr_patched = patched\<rparr>)))))))))))"

fun result_rows :: "table_env \<Rightarrow> (string \<times> string) list \<Rightarrow> exn + result_row list" where
  "result_rows c [] = Inr []"
| "result_rows c ((name, text) # fs) =
     rbind (rbind (loads (tb_rounding c) text) (result_row_of c name)) (\<lambda>row.
     rbind (result_rows c fs) (\<lambda>rows. Inr (row # rows)))"

section \<open>The document\<close>

definition headings :: "string list" where
  "headings = [''run'', ''GPU'', ''engine'', ''boot cap'', ''swaps ok'', ''API p50 ms'', ''API p95 ms'',
     ''effect p50 ms'', ''effect p95 ms'', ''requests under load'', ''dropped'', ''hot knobs proven'',
     ''warm reinit'', ''boot cold disk s'', ''boot warm cache s'']"

definition table_line :: "string list \<Rightarrow> string" where
  "table_line cells = ''| '' @ join '' | '' cells @ '' |''"

definition row_cells :: "result_row \<Rightarrow> string list" where
  "row_cells x =
     [rr_target x, rr_gpu x, rr_engine x] @ rr_cells x @ [rr_sweep x, rr_warm x, rr_stock x, rr_patched x]"

definition table_lines :: "result_row list \<Rightarrow> string list" where
  "table_lines rows =
     [table_line headings, ''|'' @ concat (replicate 15 ''---|'')] @ map (table_line \<circ> row_cells) rows"

record desk =
  dk_document :: "string option"
  dk_out :: string

definition summarize :: "table_env \<Rightarrow> (string \<times> string) list \<Rightarrow> (desk, unit) stmt" where
  "summarize c fs =
     andthen (of_result (result_rows c (result_files (tb_dir c) fs))) (\<lambda>rows.
     let doc = tb_before c @ join [CHR 0x0A] (table_lines rows) @ tb_after c
     in (\<lambda>d. (Inr (), d\<lparr>dk_document := Some doc, dk_out := dk_out d @ doc @ [CHR 0x0A]\<rparr>)))"

section \<open>What the table holds\<close>

lemma each_map: "list_all (\<lambda>x. f x = Inr (g x)) xs \<Longrightarrow> each f xs = Inr (map g xs)"
  by (induction xs) (auto simp: rbind_def)

lemma rbind_InrE:
  assumes "rbind r f = Inr y"
  obtains x where "r = Inr x" and "f x = Inr y"
  using assms by (auto simp: rbind_def split: sum.splits)

lemma swap_cells_length: "swap_cells fr h = Inr cells \<Longrightarrow> length cells = 8"
  unfolding swap_cells_def by (elim rbind_InrE) auto

lemma result_row_shape:
  assumes "result_row_of c name v = Inr row"
  shows "rr_target row = stem name \<and> length (row_cells row) = length headings"
  using assms unfolding result_row_of_def Let_def
  by (elim rbind_InrE) (auto dest!: swap_cells_length simp: row_cells_def headings_def)

lemma result_rows_shape:
  "result_rows c fs = Inr rows \<Longrightarrow>
   map rr_target rows = map (stem \<circ> fst) fs \<and> list_all (\<lambda>row. length (row_cells row) = length headings) rows"
proof (induction c fs arbitrary: rows rule: result_rows.induct)
  case (2 c name body fs)
  obtain v row rs where "result_row_of c name v = Inr row" and r: "result_rows c fs = Inr rs" "rows = row # rs"
    using "2.prems" by (auto elim!: rbind_InrE)
  then show ?case using "2.IH" result_row_shape by auto
qed simp

text \<open>
  The document has one line for every result file, in the order of their names, with as many cells as
  there are headings; if one file cannot be read, or lacks a value, nothing is written at all.
\<close>

theorem summarize_outcome:
  "(\<exists>rows. summarize c fs d = (Inr (), d\<lparr>dk_document := Some (tb_before c @ join [CHR 0x0A] (table_lines rows) @ tb_after c),
        dk_out := dk_out d @ (tb_before c @ join [CHR 0x0A] (table_lines rows) @ tb_after c) @ [CHR 0x0A]\<rparr>) \<and>
      map rr_target rows = map (stem \<circ> fst) (result_files (tb_dir c) fs) \<and>
      list_all (\<lambda>row. length (row_cells row) = length headings) rows) \<or>
   (\<exists>e. summarize c fs d = (Inl e, d))"
proof (cases "result_rows c (result_files (tb_dir c) fs)")
  case (Inl e)
  then show ?thesis by (simp add: summarize_def of_result_def)
next
  case (Inr rows)
  with result_rows_shape [OF this] show ?thesis
    by (intro disjI1 exI [of _ rows]) (simp add: summarize_def of_result_def Let_def)
qed

text \<open>The swaps counted as right in the table are the rows the bench recorded as right.\<close>

theorem swaps_ok_counts:
  assumes "swap_summary c a boot rows = Inr h"
  shows "swaps_ok fr (JObj h) = Inr (show_int (int (length (filter wr_ok rows))) @ ''/'' @ show_int (int (length rows)))"
proof -
  have rs: "map_of h ''rows'' = Some (JArr (map swap_row_json rows))" "map_of h ''iters'' = Some (JInt (int (length rows)))"
    using assms by (auto simp: swap_summary_def Let_def split: sum.splits)
  have "each (\<lambda>x. rbind (item_at ''ok'' x) int_value) (map swap_row_json rows) =
      Inr (map (\<lambda>r. if wr_ok r then 1 else 0) rows)"
    by (induction rows) (simp_all add: rbind_def item_at_def need_def swap_row_json_def int_value_def)
  moreover have "sum_list (map (\<lambda>r. if wr_ok r then 1 else (0::int)) rows) = int (length (filter wr_ok rows))"
    by (induction rows) simp_all
  ultimately show ?thesis
    using rs by (simp add: swaps_ok_def item_at_def need_def iterate_def text_at_def rbind_def str_json_def)
qed

end
