(* ===== verification/Spec2Isabelle.thy ===== *)
theory Spec2Isabelle
  imports Manifest_Format Daemons Canary_Facts Remote_Plane Supervisor_Process Sglang_Mirror
    Vllm_Patch_Facts Metrics_Facts Operator_Facts Sglang_Reinit_Facts Patchers_Facts Cli_Facts
    Arguments_Facts Bench_Facts Vllm_Release Results_Table
begin

text \<open>
  trimtab is a control plane that changes the configuration of running inference engines. An
  operator proposes versions of a group's configuration in a store; on every replica a daemon reads
  the version its replica should run, checks it against a manifest of the engine's knobs, and pushes
  it through an adapter into the engine, which a patch has taught to take it. A canary tries a
  version on some replicas and promotes or reverts it by gates on their metrics.

  \<^bold>\<open>Parts and theories.\<close> Each theory models the file it names, one definition per method or
  branch, in the order of the file; the facts of a part are in a theory of their own when the part
  is long.

  \<^item> Prelude, Py_Text, Py_Values: exceptions as the left side of a sum and statements as state
    transformers that keep their effects when they raise; dictionaries in insertion order; the
    string operations, floats and JSON values of Python that the sources use.
  \<^item> Manifest, Manifest_Format (trimtab/manifest.py): the knobs and \<open>validate\<close>; the parser of the
    YAML subset, with a printer it is the inverse of.
  \<^item> Store, Store_Runs (trimtab/store.py): the five tables as one record and every method as a
    statement over it; the invariant of the tables and the runs of the store.
  \<^item> Interfaces: the store, the adapter and the HTTP endpoint as records of operations, and the
    locales \<open>replica_store\<close> and \<open>hot_adapter\<close> that state what their clients rely on. Local_Store,
    Remote_Plane and Adapter_Contracts interpret them on the database, on the client of the server,
    and on both adapters over the mock engine.
  \<^item> Mock_Engine, Mock_Safety, Mock_Types (trimtab/mock_engine.py) and Adapters (trimtab/adapters.py): the engine
    the tests run against, and one call shape for both engines.
  \<^item> Reconciler, Daemons (trimtab/reconciler.py): the tick over the two interfaces, inside the locales
    \<open>daemon\<close> and \<open>live_daemon\<close>, and what follows for either engine.
  \<^item> Supervisor, Supervisor_Facts, Supervisor_Process (trimtab/supervisor.py): launch flags, the engine
    process behind a record of host operations, the tick and the loop that owns the process.
  \<^item> Canary, Canary_Facts (trimtab/canary.py) and Metrics, Metrics_Facts (trimtab/metrics.py): gates,
    means and the four operations of a canary; the Prometheus parser, quantiles and the sample.
  \<^item> Server, Remote_Store, Remote_Plane (trimtab/server.py): the routes over the store, the client with
    the methods of the store, and that the client refines the store.
  \<^item> Operator, Operator_Facts (trimtab/operator.py): the reconciliation of Kubernetes objects.
  \<^item> Sglang_Patch, Sglang_Patch_Facts, Sglang_Mirror (engine/sglang/apply_patch.py) and Vllm_Patch,
    Vllm_Patch_Facts (engine/vllm/apply_patch.py, reinit_core_body.py): the code the patches inject
    into the engines, and that the mock engine moves as the patched scheduler does.
  \<^item> Sglang_Reinit, Sglang_Reinit_Facts (engine/sglang/reinit_body.py): the warm reinit of SGLang over
    references to pools, so that what still holds an old pool can be told. Vllm_Release
    (engine/vllm/reinit_worker_body.py): the worker's side of vLLM's.
  \<^item> Patchers, Patchers_Facts (the edits of both apply_patch.py): the scripts that write the patches into
    the installed engines, over a disk of texts.
  \<^item> Json_Text: \<open>json.dumps\<close> and \<open>json.loads\<close> on texts, inverse to each other; the other theories pass
    the values.
  \<^item> Cli, Cli_Facts (trimtab/cli.py): the commands, and whole sessions over the store, the engine and the
    terminal. Arguments, Arguments_Facts: the declarations of \<open>main\<close> with the reader \<open>argparse\<close> makes of
    them, and that every command can be typed.
  \<^item> Bench, Bench_Facts (bench/knob_sweep.py, hot_swap_bench.py, warm_reinit_bench.py): the measuring
    scripts; the locale \<open>probed_adapter\<close> states what one push does and both adapters interpret it.
    Results_Table (bench/summarize.py): the table made of their results.

  \<^bold>\<open>What is shown.\<close> The functional behaviour of validation, of the store's operations, of the gates
  and of the injected handlers on every branch; invariants of the store's tables, of ceilings, of
  the types of knobs and of the supervisor's process; round trips of the manifest text, of JSON, of
  key=value arguments, of whole command lines, of launch flags and of a failed canary; what the exit status of a command or a
  script says; the refinement of the store by its network client and of the patched scheduler by the mock
  engine; convergence of the daemon and of a lowered cap; termination of the wait for health; and
  what happens on the error paths, among them several where the code does not do what it means to.

  \<^bold>\<open>Bounds and fuel.\<close> Integers are unbounded, as in Python. A float operation rounds by a function
  that is an argument, so what is proved holds for IEEE arithmetic and for exact arithmetic. The retry
  loops of the adapters count down from the source's bounds. The wait for health may go on until the
  timeout; its fuel is a field of the supervisor's configuration, the value \<open>Diverged\<close> marks its end,
  and \<open>launch_returns\<close> proves that enough fuel never gives that value. The loops that run until they
  are told to stop are run a given number of times. \<open>loads\<close> reads with a fuel of twice the length of
  the text and one, and \<open>loads_returns\<close> proves it enough. The hot-swap bench reads the engine until
  thirty seconds have gone; its fuel is a field of the environment.

  \<^bold>\<open>Arguments of the model.\<close> What is outside the repository is an argument of the definitions that use
  it: the texts of floats, the wall clock, the host's processes, the pages a scrape fetches, the
  Kubernetes API, digests, and the parts of SGLang and vLLM that the injected code calls; for the patch
  scripts the location of the installed package, Python's parser and the injected texts; for a shell
  its user, the files of the engine directories and what answers at a url; for the benches what a call
  took and what the background load has counted.

  \<^bold>\<open>Not modelled.\<close> Sockets, threads and log files; the SQL text, whose two dialects differ in spelling
  only; usage texts, and the argument reading of the server, the operator and the benches; the CUDA
  memory of a warm reinit; the threads of the background load and the launch scripts of cloud machines.
\<close>

end
